(* ===== verification/Prelude.thy ===== *)
theory Prelude
  imports Main "HOL-Library.Word" "HOL-Library.Signed_Division"
begin

text \<open>
  Shared vocabulary of the development.

  \<^item> The C integer types the sources use: fixed-width registers and ADC values are machine
    words; the \<open>int\<close> counters of the user-space structs are HOL integers on which every
    increment and decrement is reduced to 32 bits by \<open>wrap32\<close>.  The Makefile builds with
    \<open>-fsanitize=undefined\<close> in its default recovering mode, where an overflowing
    increment continues with the wrapped value.
  \<^item> The Linux errno values the sources return, negated, as \<open>int\<close> results.
  \<^item> \<open>outcome\<close>: what a critical section does when control leaves it.  Code between
    \<open>pthread_mutex_lock\<close> and \<open>pthread_mutex_unlock\<close> (or a condition wait, which
    releases the mutex) runs without interference from the other users of that mutex, so
    one such section is one function from the shared struct to the updated struct and an
    outcome: the function returned, or the thread went to sleep on a condition variable.
  \<^item> Counting lemmas for sets of threads, and list lemmas used by several components.
\<close>

named_theorems seg_defs "definitions of critical sections"
named_theorems c_simps "evaluation of C integer operations"

section \<open>C integers\<close>

type_synonym u8 = "8 word"
type_synonym u16 = "16 word"
type_synonym u32 = "32 word"
type_synonym u64 = "64 word"
type_synonym tid = nat
type_synonym addr = nat

abbreviation (input) INT_MAX :: int where "INT_MAX \<equiv> 2147483647"
abbreviation (input) INT_MIN :: int where "INT_MIN \<equiv> -2147483648"

definition wrap32 :: "int \<Rightarrow> int" where
  "wrap32 x = (x + 2147483648) mod 4294967296 - 2147483648"

lemma wrap32_id [simp]: "INT_MIN \<le> x \<Longrightarrow> x \<le> INT_MAX \<Longrightarrow> wrap32 x = x"
  by (simp add: wrap32_def)

lemma wrap32_nonneg [simp]: "0 \<le> x \<Longrightarrow> x \<le> INT_MAX \<Longrightarrow> wrap32 x = x"
  by simp

lemma wrap32_range: "INT_MIN \<le> wrap32 x \<and> wrap32 x \<le> INT_MAX"
proof -
  have "0 \<le> (x + 2147483648) mod 4294967296" "(x + 2147483648) mod 4294967296 < 4294967296"
    by simp_all
  then show ?thesis by (simp add: wrap32_def)
qed

lemma wrap32_overflow [c_simps]: "wrap32 (INT_MAX + 1) = INT_MIN"
  by (simp add: wrap32_def)

text \<open>
  The other signed widths, the conversion to \<open>unsigned int\<close>, and the right shift of a signed
  value, which the compilers the code is built with define as the arithmetic shift.  The kernel
  is built with wrapping signed arithmetic; sums and products are reduced before every shift,
  division, comparison and assignment, which is the same as reducing after every operation.
\<close>

definition wrap16 :: "int \<Rightarrow> int" where
  "wrap16 x = (x + 32768) mod 65536 - 32768"

definition wrap64 :: "int \<Rightarrow> int" where
  "wrap64 x = (x + 9223372036854775808) mod 18446744073709551616 - 9223372036854775808"

definition uwrap32 :: "int \<Rightarrow> int" where
  "uwrap32 x = x mod 4294967296"

definition asr :: "int \<Rightarrow> nat \<Rightarrow> int" where
  "asr x n = x div 2 ^ n"

lemma wrap16_id: "-32768 \<le> x \<Longrightarrow> x \<le> 32767 \<Longrightarrow> wrap16 x = x"
  by (simp add: wrap16_def)

lemma wrap64_id: "-9223372036854775808 \<le> x \<Longrightarrow> x \<le> 9223372036854775807 \<Longrightarrow> wrap64 x = x"
  by (simp add: wrap64_def)

lemma uwrap32_range: "0 \<le> uwrap32 x \<and> uwrap32 x < 4294967296"
  by (simp add: uwrap32_def)

lemma asr_mono: "x \<le> y \<Longrightarrow> asr x n \<le> asr y n"
  by (simp add: asr_def zdiv_mono1)

lemma asr_zero [simp]: "asr 0 n = 0"
  by (simp add: asr_def)

lemma abs_mult_le: "\<bar>x\<bar> \<le> (a :: int) \<Longrightarrow> \<bar>y\<bar> \<le> b \<Longrightarrow> \<bar>x * y\<bar> \<le> a * b"
  by (simp add: abs_mult mult_mono)

text \<open>An arithmetic shift keeps a symmetric power-of-two bound, divided.\<close>

lemma asr_abs_le:
  assumes "\<bar>x\<bar> \<le> m * 2 ^ n"
  shows "\<bar>asr x n\<bar> \<le> m"
proof -
  have "asr (- (m * 2 ^ n)) n \<le> asr x n" "asr x n \<le> asr (m * 2 ^ n) n"
    using assms by (auto intro!: asr_mono)
  moreover have "- (m * 2 ^ n) div 2 ^ n = - m"
    using nonzero_mult_div_cancel_right [of "2 ^ n" "- m"] by simp
  ultimately show ?thesis by (simp add: asr_def)
qed

section \<open>Error numbers\<close>

abbreviation (input) EPERM :: int where "EPERM \<equiv> 1"
abbreviation (input) EIO :: int where "EIO \<equiv> 5"
abbreviation (input) EBADF :: int where "EBADF \<equiv> 9"
abbreviation (input) EAGAIN :: int where "EAGAIN \<equiv> 11"
abbreviation (input) ENOMEM :: int where "ENOMEM \<equiv> 12"
abbreviation (input) ENODEV :: int where "ENODEV \<equiv> 19"
abbreviation (input) EINVAL :: int where "EINVAL \<equiv> 22"
abbreviation (input) ERANGE :: int where "ERANGE \<equiv> 34"
abbreviation (input) EDEADLK :: int where "EDEADLK \<equiv> 35"
abbreviation (input) ETIMEDOUT :: int where "ETIMEDOUT \<equiv> 110"

section \<open>Critical sections\<close>

datatype outcome = Block | Ret int

text \<open>
  An initialiser that assigns the result of \<open>malloc\<close> to its own pointer parameter
  builds the object at the fresh address; the pointer is a local copy.  The heap maps live
  addresses to objects, and the result of \<open>malloc\<close> (an address, or NULL) is an input.
\<close>

definition alloc_local :: "addr option \<Rightarrow> (addr \<rightharpoonup> 'a) \<Rightarrow> 'a \<Rightarrow> (addr \<rightharpoonup> 'a) \<times> int" where
  "alloc_local m h obj = (case m of None \<Rightarrow> (h, - ENOMEM) | Some a \<Rightarrow> (h(a \<mapsto> obj), 0))"

lemma alloc_local_frame: "m \<noteq> Some p \<Longrightarrow> fst (alloc_local m h obj) p = h p"
  by (auto simp: alloc_local_def split: option.splits)

text \<open>
  A sequence of calls each followed by \<open>if (ret < 0) return ret;\<close>, returning 0 at its end.
\<close>

fun steps :: "('s \<Rightarrow> 's \<times> int) list \<Rightarrow> 's \<Rightarrow> 's \<times> int" where
  "steps [] s = (s, 0)"
| "steps (f # fs) s = (case f s of (s', r) \<Rightarrow> if r < 0 then (s', r) else steps fs s')"

lemma steps_ret: "snd (steps fs s) \<le> 0"
  by (induction fs arbitrary: s) (auto split: prod.splits)

lemma steps_ok_iff:
  "steps (f # fs) s = (s', 0) \<longleftrightarrow> 0 \<le> snd (f s) \<and> steps fs (fst (f s)) = (s', 0)"
  by (auto split: prod.splits)

section \<open>Counting threads\<close>

definition tcount :: "tid set \<Rightarrow> (tid \<Rightarrow> bool) \<Rightarrow> int" where
  "tcount T P = int (card {t \<in> T. P t})"

lemma tcount_nonneg [simp]: "0 \<le> tcount T P"
  by (simp add: tcount_def)

lemma tcount_le_card: "finite T \<Longrightarrow> tcount T P \<le> int (card T)"
  by (simp add: tcount_def card_mono)

lemma tcount_none [simp]: "tcount T (\<lambda>_. False) = 0"
  by (simp add: tcount_def)

lemma tcount_pos:
  assumes "finite T" "t \<in> T" "P t"
  shows "0 < tcount T P"
proof -
  have "{t \<in> T. P t} \<noteq> {}" using assms by blast
  with assms(1) show ?thesis by (simp add: tcount_def card_gt_0_iff)
qed

lemma tcount_zero_iff: "finite T \<Longrightarrow> tcount T P = 0 \<longleftrightarrow> (\<forall>t\<in>T. \<not> P t)"
  by (auto simp: tcount_def)

lemma tcount_le_one:
  assumes "finite T" "tcount T P \<le> 1" "t \<in> T" "P t" "u \<in> T" "P u"
  shows "t = u"
proof (rule ccontr)
  assume "t \<noteq> u"
  have "card {t, u} \<le> card {t \<in> T. P t}"
    using assms by (intro card_mono) auto
  with \<open>t \<noteq> u\<close> assms(2) show False by (simp add: tcount_def)
qed

text \<open>Changing the local state of one thread changes a count by at most that thread.\<close>

lemma tcount_fun_upd:
  assumes "finite T" "t \<in> T"
  shows "tcount T (\<lambda>u. Q ((f(t := x)) u)) = tcount T (\<lambda>u. Q (f u)) + of_bool (Q x) - of_bool (Q (f t))"
proof -
  let ?R = "{u \<in> T - {t}. Q (f u)}"
  have fin: "finite ?R" and notin: "t \<notin> ?R" using assms by auto
  have new: "{u \<in> T. Q ((f(t := x)) u)} = (if Q x then insert t ?R else ?R)"
    using assms(2) by auto
  have old: "{u \<in> T. Q (f u)} = (if Q (f t) then insert t ?R else ?R)"
    using assms(2) by auto
  have "int (card (if b then insert t ?R else ?R)) = int (card ?R) + of_bool b" for b
    using fin notin by simp
  then show ?thesis unfolding tcount_def new old by simp
qed

end
