(* ===== verification/Thread_System.thy ===== *)
theory Thread_System
  imports Prelude
begin

text \<open>
  Threads sharing one synchronisation object.

  A component is given by its critical sections: \<open>c_enter t op s\<close> is what thread \<open>t\<close> does
  from the call of \<open>op\<close> up to its return or its first condition wait, \<open>c_resume t op r s\<close>
  what it does when that wait returns \<open>r\<close> (0 after a signal, a broadcast or a spurious
  wake-up; \<open>ETIMEDOUT\<close> or another error number otherwise).  \<open>c_may\<close> says which calls the
  client makes in which local state, and \<open>c_after\<close> how a returned value changes it.
  The scheduler picks any thread at any time and a sleeping thread may wake at any time
  with any result, so what is proved here holds for every interleaving, every timeout and
  every spurious wake-up.
\<close>

record ('s, 'l, 'op) comp =
  c_enter :: "tid \<Rightarrow> 'op \<Rightarrow> 's \<Rightarrow> 's \<times> outcome"
  c_resume :: "tid \<Rightarrow> 'op \<Rightarrow> int \<Rightarrow> 's \<Rightarrow> 's \<times> outcome"
  c_may :: "'l \<Rightarrow> 'op \<Rightarrow> bool"
  c_after :: "'l \<Rightarrow> 'op \<Rightarrow> int \<Rightarrow> 'l"

record ('s, 'l, 'op) sys =
  shared :: 's
  loc :: "tid \<Rightarrow> 'l"
  blocked :: "tid \<Rightarrow> 'op option"

definition start :: "'s \<Rightarrow> 'l \<Rightarrow> ('s, 'l, 'op) sys" where
  "start s l = \<lparr>shared = s, loc = (\<lambda>_. l), blocked = (\<lambda>_. None)\<rparr>"

fun settle :: "('s, 'l, 'op) comp \<Rightarrow> tid \<Rightarrow> 'op \<Rightarrow> 's \<times> outcome \<Rightarrow> ('s, 'l, 'op) sys \<Rightarrow> ('s, 'l, 'op) sys" where
  "settle C t op (s, Block) \<sigma> = \<sigma>\<lparr>shared := s, blocked := (blocked \<sigma>)(t := Some op)\<rparr>"
| "settle C t op (s, Ret r) \<sigma> =
     \<sigma>\<lparr>shared := s, loc := (loc \<sigma>)(t := c_after C (loc \<sigma> t) op r), blocked := (blocked \<sigma>)(t := None)\<rparr>"

declare settle.simps [simp del]

lemma start_sel [simp]: "shared (start s l) = s" "loc (start s l) t = l" "blocked (start s l) t = None"
  by (simp_all add: start_def)

inductive thread_step :: "('s, 'l, 'op) comp \<Rightarrow> tid set \<Rightarrow> ('s, 'l, 'op) sys \<Rightarrow> ('s, 'l, 'op) sys \<Rightarrow> bool"
  for C T where
  call: "\<lbrakk>t \<in> T; blocked \<sigma> t = None; c_may C (loc \<sigma> t) op\<rbrakk>
     \<Longrightarrow> thread_step C T \<sigma> (settle C t op (c_enter C t op (shared \<sigma>)) \<sigma>)"
| wake: "\<lbrakk>t \<in> T; blocked \<sigma> t = Some op; 0 \<le> r\<rbrakk>
     \<Longrightarrow> thread_step C T \<sigma> (settle C t op (c_resume C t op r (shared \<sigma>)) \<sigma>)"

inductive reaches :: "('s, 'l, 'op) comp \<Rightarrow> tid set \<Rightarrow> ('s, 'l, 'op) sys \<Rightarrow> ('s, 'l, 'op) sys \<Rightarrow> bool"
  for C T \<sigma>0 where
  reach_refl: "reaches C T \<sigma>0 \<sigma>0"
| reach_step: "\<lbrakk>reaches C T \<sigma>0 \<sigma>; thread_step C T \<sigma> \<sigma>'\<rbrakk> \<Longrightarrow> reaches C T \<sigma>0 \<sigma>'"

inductive_cases thread_stepE: "thread_step C T \<sigma> \<sigma>'"

text \<open>
  A schedule, executable: who calls what, and who wakes with which result.  A schedule the
  rules allow evaluates to a reachable state.
\<close>

datatype 'op act = Call tid 'op | Wake tid int

fun act_step :: "('s, 'l, 'op) comp \<Rightarrow> tid set \<Rightarrow> 'op act \<Rightarrow> ('s, 'l, 'op) sys \<Rightarrow> ('s, 'l, 'op) sys option" where
  "act_step C T (Call t op) \<sigma> =
     (if t \<in> T \<and> blocked \<sigma> t = None \<and> c_may C (loc \<sigma> t) op
      then Some (settle C t op (c_enter C t op (shared \<sigma>)) \<sigma>) else None)"
| "act_step C T (Wake t r) \<sigma> =
     (case blocked \<sigma> t of
        Some op \<Rightarrow> if t \<in> T \<and> 0 \<le> r then Some (settle C t op (c_resume C t op r (shared \<sigma>)) \<sigma>) else None
      | None \<Rightarrow> None)"

fun run :: "('s, 'l, 'op) comp \<Rightarrow> tid set \<Rightarrow> 'op act list \<Rightarrow> ('s, 'l, 'op) sys \<Rightarrow> ('s, 'l, 'op) sys option" where
  "run C T [] \<sigma> = Some \<sigma>"
| "run C T (a # as) \<sigma> = (case act_step C T a \<sigma> of None \<Rightarrow> None | Some \<sigma>' \<Rightarrow> run C T as \<sigma>')"

lemma act_step_thread_step: "act_step C T a \<sigma> = Some \<sigma>' \<Longrightarrow> thread_step C T \<sigma> \<sigma>'"
  by (cases a) (auto intro: thread_step.intros split: if_splits option.splits)

lemma run_reaches: "\<lbrakk>run C T as \<sigma> = Some \<sigma>'; reaches C T \<sigma>0 \<sigma>\<rbrakk> \<Longrightarrow> reaches C T \<sigma>0 \<sigma>'"
  by (induction as arbitrary: \<sigma>)
    (auto split: option.splits intro: reach_step dest: act_step_thread_step)

text \<open>
  How many threads are in a given local state, and how many sleep in a given operation;
  a settled section changes the counts by its own thread only.
\<close>

definition lcount :: "tid set \<Rightarrow> 'l \<Rightarrow> ('s, 'l, 'op) sys \<Rightarrow> int" where
  "lcount T l \<sigma> = tcount T (\<lambda>t. loc \<sigma> t = l)"

definition bcount :: "tid set \<Rightarrow> 'op \<Rightarrow> ('s, 'l, 'op) sys \<Rightarrow> int" where
  "bcount T op \<sigma> = tcount T (\<lambda>t. blocked \<sigma> t = Some op)"

lemma lcount_nonneg: "0 \<le> lcount T l \<sigma>"
  by (simp add: lcount_def)

lemma bcount_nonneg: "0 \<le> bcount T op \<sigma>"
  by (simp add: bcount_def)

lemma lcount_le_card: "finite T \<Longrightarrow> lcount T l \<sigma> \<le> int (card T)"
  by (simp add: lcount_def tcount_le_card)

lemma lcount_pos: "\<lbrakk>finite T; t \<in> T; loc \<sigma> t = l\<rbrakk> \<Longrightarrow> 0 < lcount T l \<sigma>"
  by (simp add: lcount_def tcount_pos)

lemma bcount_pos: "\<lbrakk>finite T; t \<in> T; blocked \<sigma> t = Some op\<rbrakk> \<Longrightarrow> 0 < bcount T op \<sigma>"
  by (simp add: bcount_def tcount_pos)

lemma lcount_zero: "\<lbrakk>finite T; lcount T l \<sigma> = 0; t \<in> T\<rbrakk> \<Longrightarrow> loc \<sigma> t \<noteq> l"
  by (simp add: lcount_def tcount_zero_iff)

lemma lcount_one: "\<lbrakk>finite T; lcount T l \<sigma> \<le> 1; t \<in> T; u \<in> T; loc \<sigma> t = l; loc \<sigma> u = l\<rbrakk> \<Longrightarrow> t = u"
  by (auto simp: lcount_def intro: tcount_le_one)

lemma lcount_start [simp]: "l \<noteq> l0 \<Longrightarrow> lcount T l (start s l0) = 0"
  by (simp add: lcount_def start_def)

lemma bcount_start [simp]: "bcount T op (start s l0) = 0"
  by (simp add: bcount_def start_def)

lemma lcount_block [simp]: "lcount T l (settle C t op (s, Block) \<sigma>) = lcount T l \<sigma>"
  by (simp add: lcount_def settle.simps)

lemma lcount_ret [simp]:
  assumes "finite T" "t \<in> T"
  shows "lcount T l (settle C t op (s, Ret r) \<sigma>)
    = lcount T l \<sigma> + of_bool (c_after C (loc \<sigma> t) op r = l) - of_bool (loc \<sigma> t = l)"
  using tcount_fun_upd [OF assms, of "\<lambda>x. x = l" "loc \<sigma>"] by (simp add: lcount_def settle.simps del: fun_upd_apply)

lemma bcount_block [simp]:
  assumes "finite T" "t \<in> T"
  shows "bcount T op' (settle C t op (s, Block) \<sigma>)
    = bcount T op' \<sigma> + of_bool (op = op') - of_bool (blocked \<sigma> t = Some op')"
  using tcount_fun_upd [OF assms, of "\<lambda>x. x = Some op'" "blocked \<sigma>" "Some op"]
  by (simp add: bcount_def settle.simps del: fun_upd_apply)

lemma bcount_ret [simp]:
  assumes "finite T" "t \<in> T"
  shows "bcount T op' (settle C t op (s, Ret r) \<sigma>) = bcount T op' \<sigma> - of_bool (blocked \<sigma> t = Some op')"
  using tcount_fun_upd [OF assms, of "\<lambda>x. x = Some op'" "blocked \<sigma>" None]
  by (simp add: bcount_def settle.simps del: fun_upd_apply)

lemma shared_settle [simp]: "shared (settle C t op (s, out) \<sigma>) = s"
  by (cases out) (simp_all add: settle.simps)

lemma blocked_settle [simp]:
  "blocked (settle C t op (s, out) \<sigma>) u =
     (if u = t then (case out of Block \<Rightarrow> Some op | Ret r \<Rightarrow> None) else blocked \<sigma> u)"
  by (cases out) (simp_all add: settle.simps)

lemma loc_settle [simp]:
  "loc (settle C t op (s, out) \<sigma>) u =
     (if u = t then (case out of Block \<Rightarrow> loc \<sigma> t | Ret r \<Rightarrow> c_after C (loc \<sigma> t) op r) else loc \<sigma> u)"
  by (cases out) (simp_all add: settle.simps)

text \<open>
  The contract of an invariant: it holds at the start, and every critical section keeps it,
  whichever thread runs it and however its waits end.
\<close>

locale thread_invariant =
  fixes C :: "('s, 'l, 'op) comp"
    and T :: "tid set"
    and \<sigma>0 :: "('s, 'l, 'op) sys"
    and I :: "('s, 'l, 'op) sys \<Rightarrow> bool"
  assumes inv_start: "I \<sigma>0"
    and inv_call: "\<lbrakk>I \<sigma>; t \<in> T; blocked \<sigma> t = None; c_may C (loc \<sigma> t) op\<rbrakk>
        \<Longrightarrow> I (settle C t op (c_enter C t op (shared \<sigma>)) \<sigma>)"
    and inv_wake: "\<lbrakk>I \<sigma>; t \<in> T; blocked \<sigma> t = Some op; 0 \<le> r\<rbrakk>
        \<Longrightarrow> I (settle C t op (c_resume C t op r (shared \<sigma>)) \<sigma>)"
begin

lemma inv_step: "thread_step C T \<sigma> \<sigma>' \<Longrightarrow> I \<sigma> \<Longrightarrow> I \<sigma>'"
  by (auto elim!: thread_stepE intro: inv_call inv_wake)

lemma inv_reaches: "reaches C T \<sigma>0 \<sigma> \<Longrightarrow> I \<sigma>"
  by (induction rule: reaches.induct) (auto intro: inv_start inv_step)

end

end
