(* ===== verification/Fifo_Semaphore.thy ===== *)
theory Fifo_Semaphore
  imports Thread_System
begin

text \<open>
  \<open>fifo_semaphore.c\<close>: a counting semaphore built from a mutex and a condition variable.
  The struct is its counter; \<open>fifo_semaphore_wait\<close> is split at the condition wait inside its
  loop into the section before the wait and the section after it.
\<close>

record fifo_semaphore =
  sem_count :: int

definition fifo_semaphore_init ::
  "addr option \<Rightarrow> (addr \<rightharpoonup> fifo_semaphore) \<Rightarrow> addr \<Rightarrow> int \<Rightarrow> (addr \<rightharpoonup> fifo_semaphore) \<times> int" where
  "fifo_semaphore_init m h sem value =
     (case m of
        None \<Rightarrow> (h, - ENOMEM)
      | Some a \<Rightarrow> if value < 0 then (h(a := None), - EINVAL)
                 else (h(a \<mapsto> \<lparr>sem_count = value\<rparr>), 0))"

definition fifo_semaphore_destroy :: "(addr \<rightharpoonup> fifo_semaphore) \<Rightarrow> addr \<Rightarrow> (addr \<rightharpoonup> fifo_semaphore)" where
  "fifo_semaphore_destroy h sem = h(sem := None)"

definition fifo_semaphore_wait :: "fifo_semaphore \<Rightarrow> fifo_semaphore \<times> outcome" where
  [seg_defs]: "fifo_semaphore_wait sem =
     (if sem_count sem \<le> 0 then (sem, Block)
      else if sem_count sem < 0 then (sem, Ret (- EINVAL))
      else (sem\<lparr>sem_count := wrap32 (sem_count sem - 1)\<rparr>, Ret 0))"

definition fifo_semaphore_wait_woken :: "int \<Rightarrow> fifo_semaphore \<Rightarrow> fifo_semaphore \<times> outcome" where
  [seg_defs]: "fifo_semaphore_wait_woken ret sem =
     (if ret = ETIMEDOUT then (sem, Ret (- ETIMEDOUT))
      else if ret \<noteq> 0 then (sem, Ret ret)
      else fifo_semaphore_wait sem)"

definition fifo_semaphore_post :: "fifo_semaphore \<Rightarrow> fifo_semaphore \<times> outcome" where
  [seg_defs]: "fifo_semaphore_post sem =
     (let c = wrap32 (sem_count sem + 1) in
      if c < 0 then (sem\<lparr>sem_count := c\<rparr>, Ret (- EINVAL))
      else (sem\<lparr>sem_count := c\<rparr>, Ret 0))"

section \<open>Threads using the semaphore\<close>

text \<open>
  The client of \<open>bme680_app.c\<close> (\<open>read_sensor\<close>) calls wait, and post once after each wait
  that returned 0.  \<open>Held\<close> marks a thread between the two.
\<close>

datatype sem_op = SemWait | SemPost
datatype sem_loc = Idle | Held

fun sem_enter :: "tid \<Rightarrow> sem_op \<Rightarrow> fifo_semaphore \<Rightarrow> fifo_semaphore \<times> outcome" where
  "sem_enter t SemWait s = fifo_semaphore_wait s"
| "sem_enter t SemPost s = fifo_semaphore_post s"

fun sem_resume :: "tid \<Rightarrow> sem_op \<Rightarrow> int \<Rightarrow> fifo_semaphore \<Rightarrow> fifo_semaphore \<times> outcome" where
  "sem_resume t SemWait r s = fifo_semaphore_wait_woken r s"
| "sem_resume t SemPost r s = (s, Block)"

fun sem_may :: "sem_loc \<Rightarrow> sem_op \<Rightarrow> bool" where
  "sem_may l SemWait = (l = Idle)"
| "sem_may l SemPost = (l = Held)"

fun sem_after :: "sem_loc \<Rightarrow> sem_op \<Rightarrow> int \<Rightarrow> sem_loc" where
  "sem_after l SemWait r = (if r = 0 then Held else l)"
| "sem_after l SemPost r = (if r = 0 then Idle else l)"

definition sem_comp :: "(fifo_semaphore, sem_loc, sem_op) comp" where
  "sem_comp = \<lparr>c_enter = sem_enter, c_resume = sem_resume, c_may = sem_may, c_after = sem_after\<rparr>"

lemmas sem_comp_sel [simp] = sem_comp_def [THEN arg_cong, of c_enter, simplified]
  sem_comp_def [THEN arg_cong, of c_resume, simplified]
  sem_comp_def [THEN arg_cong, of c_may, simplified]
  sem_comp_def [THEN arg_cong, of c_after, simplified]

type_synonym sem_sys = "(fifo_semaphore, sem_loc, sem_op) sys"

definition sem_inv :: "tid set \<Rightarrow> int \<Rightarrow> sem_sys \<Rightarrow> bool" where
  "sem_inv T v \<sigma> \<longleftrightarrow> 0 \<le> sem_count (shared \<sigma>) \<and> sem_count (shared \<sigma>) + lcount T Held \<sigma> = v
     \<and> (\<forall>t. blocked \<sigma> t \<noteq> None \<longrightarrow> blocked \<sigma> t = Some SemWait \<and> loc \<sigma> t = Idle)"

lemma sem_inv_count_le: "sem_inv T v \<sigma> \<Longrightarrow> sem_count (shared \<sigma>) \<le> v"
  using lcount_nonneg [of T Held \<sigma>] by (auto simp: sem_inv_def)

lemma sem_inv_wait:
  assumes "finite T" "v \<le> INT_MAX" "t \<in> T" "sem_inv T v \<sigma>" "loc \<sigma> t = Idle"
  shows "sem_inv T v (settle sem_comp t SemWait (fifo_semaphore_wait (shared \<sigma>)) \<sigma>)"
  using assms sem_inv_count_le [OF assms(4)] by (auto simp: sem_inv_def seg_defs)

lemma sem_inv_woken:
  assumes "finite T" "v \<le> INT_MAX" "t \<in> T" "sem_inv T v \<sigma>" "blocked \<sigma> t = Some SemWait" "0 \<le> r"
  shows "sem_inv T v (settle sem_comp t SemWait (fifo_semaphore_wait_woken r (shared \<sigma>)) \<sigma>)"
  using assms sem_inv_count_le [OF assms(4)] by (auto simp: sem_inv_def seg_defs)

lemma sem_inv_post:
  assumes "finite T" "v \<le> INT_MAX" "t \<in> T" "sem_inv T v \<sigma>" "loc \<sigma> t = Held"
  shows "sem_inv T v (settle sem_comp t SemPost (fifo_semaphore_post (shared \<sigma>)) \<sigma>)"
  using assms sem_inv_count_le [OF assms(4)] lcount_pos [OF assms(1,3,5)]
  by (auto simp: sem_inv_def seg_defs Let_def)

lemma sem_inv_blocked: "\<lbrakk>sem_inv T v \<sigma>; blocked \<sigma> t = Some op\<rbrakk> \<Longrightarrow> op = SemWait"
  by (force simp: sem_inv_def)

interpretation sem: thread_invariant sem_comp T "start \<lparr>sem_count = v\<rparr> Idle"
    "\<lambda>\<sigma>. finite T \<and> 0 \<le> v \<and> v \<le> INT_MAX \<longrightarrow> sem_inv T v \<sigma>" for T v
proof (unfold_locales, goal_cases)
  case 1 show ?case by (simp add: sem_inv_def)
next
  case (2 \<sigma> t op)
  then show ?case by (cases op) (auto simp: sem_inv_wait sem_inv_post)
next
  case (3 \<sigma> t op r)
  then show ?case using sem_inv_blocked [of T v \<sigma> t op] by (auto simp: sem_inv_woken)
qed

section \<open>Properties\<close>

text \<open>
  C6: the semaphore conserves its value.  For every number of threads, every interleaving,
  every timeout and every spurious wake-up, a thread that posts only after a successful wait
  leaves the counter plus the number of holders equal to the initial value; so the counter
  never goes negative and at most that many threads are between wait and post.
\<close>

theorem semaphore_conservation:
  assumes "reaches sem_comp T (start \<lparr>sem_count = v\<rparr> Idle) \<sigma>" "finite T" "0 \<le> v" "v \<le> INT_MAX"
  shows "sem_count (shared \<sigma>) + lcount T Held \<sigma> = v \<and> 0 \<le> sem_count (shared \<sigma>) \<and> lcount T Held \<sigma> \<le> v"
  using sem.inv_reaches [OF assms(1)] assms(2-4) by (auto simp: sem_inv_def)

text \<open>A run used by the witnesses: thread 0 holds a semaphore of value 1, thread 1 sleeps in wait.\<close>

definition sem_run1 :: sem_sys where
  "sem_run1 = settle sem_comp 1 SemWait (\<lparr>sem_count = 0\<rparr>, Block)
     (settle sem_comp 0 SemWait (\<lparr>sem_count = 0\<rparr>, Ret 0) (start \<lparr>sem_count = 1\<rparr> Idle))"

lemma sem_run1_eval:
  "run sem_comp {0, 1, 2} [Call 0 SemWait, Call 1 SemWait] (start \<lparr>sem_count = 1\<rparr> Idle) = Some sem_run1"
  by (simp add: sem_run1_def seg_defs)

lemmas sem_run1_reached = run_reaches [OF sem_run1_eval reach_refl]

theorem semaphore_conservation_witness:
  "sem_count (shared sem_run1) + lcount {0, 1, 2} Held sem_run1 = 1 \<and> 0 \<le> sem_count (shared sem_run1)
     \<and> lcount {0, 1, 2} Held sem_run1 \<le> 1"
  using semaphore_conservation [OF sem_run1_reached] by simp

text \<open>
  With the initial value 1 that \<open>bme680_app.c\<close> uses, the semaphore is a mutual-exclusion
  lock: two threads are never both between a successful wait and their post.
\<close>

theorem semaphore_mutual_exclusion:
  assumes "reaches sem_comp T (start \<lparr>sem_count = 1\<rparr> Idle) \<sigma>" "finite T"
    and "t \<in> T" "u \<in> T" "loc \<sigma> t = Held" "loc \<sigma> u = Held"
  shows "t = u"
proof -
  have "lcount T Held \<sigma> \<le> 1"
    using sem.inv_reaches [OF assms(1)] assms(2) by (auto simp: sem_inv_def)
  then show ?thesis using assms by (auto intro: lcount_one)
qed

theorem semaphore_mutual_exclusion_witness:
  "loc sem_run1 0 = Held \<and> loc sem_run1 2 \<noteq> Held"
  using semaphore_mutual_exclusion [OF sem_run1_reached, of 0 2] by (simp add: sem_run1_def)

text \<open>
  Despite its name the semaphore is not first-in first-out.  There is a run in which
  thread 1 sleeps in wait before thread 2 calls it, and thread 2 acquires the semaphore while
  thread 1 is still asleep: the condition variable holds no queue and wait does not look at
  the sleepers.
\<close>

theorem semaphore_not_fifo:
  "\<exists>\<sigma>1 \<sigma>2. reaches sem_comp {0, 1, 2} (start \<lparr>sem_count = 1\<rparr> Idle) \<sigma>1
     \<and> blocked \<sigma>1 1 = Some SemWait \<and> blocked \<sigma>1 2 = None \<and> loc \<sigma>1 2 = Idle
     \<and> reaches sem_comp {0, 1, 2} \<sigma>1 \<sigma>2
     \<and> loc \<sigma>2 2 = Held \<and> blocked \<sigma>2 1 = Some SemWait"
proof (intro exI conjI)
  let ?\<sigma>2 = "settle sem_comp 2 SemWait (\<lparr>sem_count = 0\<rparr>, Ret 0)
     (settle sem_comp 0 SemPost (\<lparr>sem_count = 1\<rparr>, Ret 0) sem_run1)"
  show "reaches sem_comp {0, 1, 2} (start \<lparr>sem_count = 1\<rparr> Idle) sem_run1"
    by (rule sem_run1_reached)
  have "run sem_comp {0, 1, 2} [Call 0 SemPost, Call 2 SemWait] sem_run1 = Some ?\<sigma>2"
    by (simp add: sem_run1_def seg_defs)
  then show "reaches sem_comp {0, 1, 2} sem_run1 ?\<sigma>2"
    by (rule run_reaches [OF _ reach_refl])
qed (simp_all add: sem_run1_def)

text \<open>
  The overflow branch of \<open>fifo_semaphore_post\<close>.  At the largest counter value the
  increment wraps, post reports \<open>-EINVAL\<close> but leaves the wrapped negative counter behind,
  and every later wait goes to sleep; below it post adds one and reports success.
\<close>

theorem semaphore_post_branches:
  "fifo_semaphore_post \<lparr>sem_count = INT_MAX\<rparr> = (\<lparr>sem_count = INT_MIN\<rparr>, Ret (- EINVAL))
   \<and> fifo_semaphore_wait \<lparr>sem_count = INT_MIN\<rparr> = (\<lparr>sem_count = INT_MIN\<rparr>, Block)
   \<and> (\<forall>c \<in> {0..<INT_MAX}. fifo_semaphore_post \<lparr>sem_count = c\<rparr> = (\<lparr>sem_count = c + 1\<rparr>, Ret 0)
        \<and> fifo_semaphore_wait (fst (fifo_semaphore_post \<lparr>sem_count = c\<rparr>)) = (\<lparr>sem_count = c\<rparr>, Ret 0))"
  by (simp add: seg_defs wrap32_def)

theorem semaphore_post_branches_witness:
  "fifo_semaphore_post \<lparr>sem_count = 7\<rparr> = (\<lparr>sem_count = 8\<rparr>, Ret 0)"
  using semaphore_post_branches by simp

end
