(* ===== verification/Recursive_Mutex.thy ===== *)
theory Recursive_Mutex
  imports Thread_System
begin

text \<open>
  \<open>recursive_mutex.c\<close>: ownership and depth on top of a pthread mutex.  The state is the owner
  (0: none; thread identifiers are nonzero), the depth and the holder of the pthread mutex.
  A thread that is not the owner goes to \<open>pthread_mutex_lock\<close>, which is where it may sleep;
  \<open>recursive_mutex_locked\<close> is what follows once that call has returned \<open>ret\<close>.  Owner and depth are
  written with the mutex held, and a thread only ever compares the owner with itself, so the
  writes before \<open>pthread_mutex_unlock\<close> and the call form one section.
\<close>

record recursive_mutex =
  rm_holder :: "tid option"
  rm_owner :: tid
  rm_count :: int

definition recursive_mutex_new :: recursive_mutex where
  "recursive_mutex_new = \<lparr>rm_holder = None, rm_owner = 0, rm_count = 0\<rparr>"

definition recursive_mutex_init :: "addr option \<Rightarrow> (addr \<rightharpoonup> recursive_mutex) \<Rightarrow> addr \<Rightarrow> (addr \<rightharpoonup> recursive_mutex) \<times> int" where
  "recursive_mutex_init m h rmutex = alloc_local m h recursive_mutex_new"

definition recursive_mutex_destroy :: "(addr \<rightharpoonup> recursive_mutex) \<Rightarrow> addr \<Rightarrow> (addr \<rightharpoonup> recursive_mutex)" where
  "recursive_mutex_destroy h rmutex = h(rmutex := None)"

definition recursive_mutex_lock :: "tid \<Rightarrow> recursive_mutex \<Rightarrow> recursive_mutex \<times> outcome" where
  [seg_defs]: "recursive_mutex_lock current m =
     (if rm_owner m = current then (m\<lparr>rm_count := wrap32 (rm_count m + 1)\<rparr>, Ret 0) else (m, Block))"

definition recursive_mutex_locked :: "tid \<Rightarrow> int \<Rightarrow> recursive_mutex \<Rightarrow> recursive_mutex \<times> outcome" where
  [seg_defs]: "recursive_mutex_locked current ret m =
     (if ret \<noteq> 0 then (m, Ret ret)
      else if rm_holder m \<noteq> None then (m, Block)
      else (m\<lparr>rm_holder := Some current, rm_owner := current, rm_count := 1\<rparr>, Ret 0))"

definition recursive_mutex_unlock :: "tid \<Rightarrow> recursive_mutex \<Rightarrow> recursive_mutex \<times> outcome" where
  [seg_defs]: "recursive_mutex_unlock current m =
     (if rm_owner m \<noteq> current then (m, Ret (- EPERM))
      else let m' = m\<lparr>rm_count := wrap32 (rm_count m - 1)\<rparr> in
           if rm_count m' = 0 then (m'\<lparr>rm_owner := 0, rm_holder := None\<rparr>, Ret 0) else (m', Ret 0))"

section \<open>Threads using the mutex\<close>

text \<open>The local state of a thread is how many of its locks it has not undone.  Any thread may try to unlock.\<close>

datatype rm_op = RmLock | RmUnlock

fun rm_enter :: "tid \<Rightarrow> rm_op \<Rightarrow> recursive_mutex \<Rightarrow> recursive_mutex \<times> outcome" where
  "rm_enter t RmLock m = recursive_mutex_lock t m"
| "rm_enter t RmUnlock m = recursive_mutex_unlock t m"

fun rm_resume :: "tid \<Rightarrow> rm_op \<Rightarrow> int \<Rightarrow> recursive_mutex \<Rightarrow> recursive_mutex \<times> outcome" where
  "rm_resume t RmLock r m = recursive_mutex_locked t r m"
| "rm_resume t RmUnlock r m = (m, Block)"

fun rm_may :: "nat \<Rightarrow> rm_op \<Rightarrow> bool" where
  "rm_may k RmLock = (int k < INT_MAX)"
| "rm_may k RmUnlock = True"

fun rm_after :: "nat \<Rightarrow> rm_op \<Rightarrow> int \<Rightarrow> nat" where
  "rm_after k RmLock r = (if r = 0 then Suc k else k)"
| "rm_after k RmUnlock r = (if r = 0 then k - 1 else k)"

definition rm_comp :: "(recursive_mutex, nat, rm_op) comp" where
  "rm_comp = \<lparr>c_enter = rm_enter, c_resume = rm_resume, c_may = rm_may, c_after = rm_after\<rparr>"

lemma rm_comp_sel [simp]:
  "c_enter rm_comp = rm_enter" "c_resume rm_comp = rm_resume" "c_may rm_comp = rm_may" "c_after rm_comp = rm_after"
  by (simp_all add: rm_comp_def)

type_synonym rm_sys = "(recursive_mutex, nat, rm_op) sys"

definition rm_inv :: "rm_sys \<Rightarrow> bool" where
  "rm_inv \<sigma> \<longleftrightarrow>
     rm_holder (shared \<sigma>) = (if rm_owner (shared \<sigma>) = 0 then None else Some (rm_owner (shared \<sigma>)))
     \<and> (rm_owner (shared \<sigma>) \<noteq> 0 \<longrightarrow> 1 \<le> rm_count (shared \<sigma>) \<and> rm_count (shared \<sigma>) \<le> INT_MAX)
     \<and> (\<forall>t. loc \<sigma> t = (if t \<noteq> 0 \<and> rm_owner (shared \<sigma>) = t then nat (rm_count (shared \<sigma>)) else 0))
     \<and> (\<forall>t. blocked \<sigma> t \<noteq> None \<longrightarrow> t \<noteq> 0 \<and> blocked \<sigma> t = Some RmLock \<and> rm_owner (shared \<sigma>) \<noteq> t)"

lemma rm_inv_lock:
  "\<lbrakk>rm_inv \<sigma>; t \<noteq> 0; blocked \<sigma> t = None; int (loc \<sigma> t) < INT_MAX\<rbrakk>
    \<Longrightarrow> rm_inv (settle rm_comp t RmLock (recursive_mutex_lock t (shared \<sigma>)) \<sigma>)"
  by (auto simp: rm_inv_def seg_defs)

lemma rm_inv_locked:
  "\<lbrakk>rm_inv \<sigma>; t \<noteq> 0; blocked \<sigma> t = Some RmLock\<rbrakk>
    \<Longrightarrow> rm_inv (settle rm_comp t RmLock (recursive_mutex_locked t r (shared \<sigma>)) \<sigma>)"
  by (auto simp: rm_inv_def seg_defs split: if_splits)

lemma rm_inv_unlock:
  "\<lbrakk>rm_inv \<sigma>; t \<noteq> 0; blocked \<sigma> t = None\<rbrakk>
    \<Longrightarrow> rm_inv (settle rm_comp t RmUnlock (recursive_mutex_unlock t (shared \<sigma>)) \<sigma>)"
  by (auto simp: rm_inv_def seg_defs Let_def nat_diff_distrib)

lemma rm_inv_blocked: "\<lbrakk>rm_inv \<sigma>; blocked \<sigma> t = Some op\<rbrakk> \<Longrightarrow> op = RmLock"
  by (force simp: rm_inv_def)

interpretation rm: thread_invariant rm_comp T "start recursive_mutex_new 0" "\<lambda>\<sigma>. 0 \<notin> T \<longrightarrow> rm_inv \<sigma>" for T
proof (unfold_locales, goal_cases)
  case 1 show ?case by (simp add: rm_inv_def recursive_mutex_new_def)
next
  case (2 \<sigma> t op)
  then have "0 \<notin> T \<Longrightarrow> t \<noteq> 0" by metis
  with 2 show ?case by (cases op) (auto simp: rm_inv_lock rm_inv_unlock)
next
  case (3 \<sigma> t op r)
  then have "0 \<notin> T \<Longrightarrow> t \<noteq> 0" by metis
  with 3 show ?case using rm_inv_blocked [of \<sigma> t op] by (auto simp: rm_inv_locked)
qed

section \<open>Properties\<close>

text \<open>
  C18: ownership is exclusive and the depth is exact.  For threads with nonzero identifiers,
  in every reachable state at most one thread has locks it has not undone; that thread is the
  recorded owner and the holder of the pthread mutex, and \<open>count\<close> is its number of open locks.
  When no thread has any, the mutex is free.
\<close>

theorem recursive_mutex_exclusive:
  assumes "reaches rm_comp T (start recursive_mutex_new 0) \<sigma>" "0 \<notin> T" "0 < loc \<sigma> t"
  shows "rm_owner (shared \<sigma>) = t \<and> rm_holder (shared \<sigma>) = Some t \<and> rm_count (shared \<sigma>) = int (loc \<sigma> t)
    \<and> (\<forall>u. u \<noteq> t \<longrightarrow> loc \<sigma> u = 0)"
proof -
  have "rm_inv \<sigma>" using rm.inv_reaches [OF assms(1)] assms(2) by blast
  then show ?thesis using assms(3) by (auto simp: rm_inv_def split: if_splits)
qed

definition rm_run1 :: rm_sys where
  "rm_run1 = settle rm_comp 4 RmLock (\<lparr>rm_holder = Some 4, rm_owner = 4, rm_count = 2\<rparr>, Ret 0)
     (settle rm_comp 4 RmLock (\<lparr>rm_holder = Some 4, rm_owner = 4, rm_count = 1\<rparr>, Ret 0)
       (settle rm_comp 4 RmLock (recursive_mutex_new, Block) (start recursive_mutex_new 0)))"

lemma rm_run1_eval:
  "run rm_comp {4, 9} [Call 4 RmLock, Wake 4 0, Call 4 RmLock] (start recursive_mutex_new 0) = Some rm_run1"
  by (simp add: rm_run1_def seg_defs recursive_mutex_new_def)

lemmas rm_run1_reached = run_reaches [OF rm_run1_eval reach_refl]

theorem recursive_mutex_exclusive_witness:
  "rm_owner (shared rm_run1) = 4 \<and> rm_count (shared rm_run1) = int (loc rm_run1 4) \<and> loc rm_run1 4 = 2"
  using recursive_mutex_exclusive [OF rm_run1_reached, of 4] by (simp add: rm_run1_def)

fun rm_lock_n :: "tid \<Rightarrow> nat \<Rightarrow> recursive_mutex \<Rightarrow> recursive_mutex \<times> bool" where
  "rm_lock_n t 0 m = (m, True)"
| "rm_lock_n t (Suc n) m = (case recursive_mutex_lock t m of (m', out) \<Rightarrow> case rm_lock_n t n m' of (m'', ok) \<Rightarrow> (m'', out = Ret 0 \<and> ok))"

fun rm_unlock_n :: "tid \<Rightarrow> nat \<Rightarrow> recursive_mutex \<Rightarrow> recursive_mutex \<times> bool" where
  "rm_unlock_n t 0 m = (m, True)"
| "rm_unlock_n t (Suc n) m = (case recursive_mutex_unlock t m of (m', out) \<Rightarrow> case rm_unlock_n t n m' of (m'', ok) \<Rightarrow> (m'', out = Ret 0 \<and> ok))"

lemma rm_lock_n_depth:
  "\<lbrakk>0 \<le> c; c + int n \<le> INT_MAX\<rbrakk> \<Longrightarrow> rm_lock_n t n \<lparr>rm_holder = Some t, rm_owner = t, rm_count = c\<rparr>
     = (\<lparr>rm_holder = Some t, rm_owner = t, rm_count = c + int n\<rparr>, True)"
  by (induction n arbitrary: c) (simp_all add: seg_defs)

lemma rm_unlock_n_depth:
  "int n < INT_MAX \<Longrightarrow> rm_unlock_n t (Suc n) \<lparr>rm_holder = Some t, rm_owner = t, rm_count = int (Suc n)\<rparr>
     = (recursive_mutex_new, True)"
  by (induction n) (simp_all add: seg_defs recursive_mutex_new_def Let_def)

text \<open>
  Locking n times and unlocking n times gives the mutex back.  A thread that finds the
  mutex free, takes it and nests n further locks holds it with depth n + 1; after as many
  unlocks the mutex is exactly as it was, every call returned 0, and an unlock by any other
  thread in between is refused with \<open>-EPERM\<close> without effect.
\<close>

theorem recursive_mutex_nesting_roundtrip:
  assumes "t \<noteq> 0" "u \<noteq> t" "int n < INT_MAX"
  shows "\<exists>m1 m2. recursive_mutex_lock t recursive_mutex_new = (recursive_mutex_new, Block)
    \<and> recursive_mutex_locked t 0 recursive_mutex_new = (m1, Ret 0)
    \<and> rm_lock_n t n m1 = (m2, True) \<and> rm_count m2 = int (Suc n)
    \<and> recursive_mutex_unlock u m2 = (m2, Ret (- EPERM))
    \<and> rm_unlock_n t (Suc n) m2 = (recursive_mutex_new, True)"
proof (intro exI conjI)
  let ?m = "\<lambda>c. \<lparr>rm_holder = Some t, rm_owner = t, rm_count = c\<rparr>"
  show "recursive_mutex_lock t recursive_mutex_new = (recursive_mutex_new, Block)"
    "recursive_mutex_locked t 0 recursive_mutex_new = (?m 1, Ret 0)"
    using assms(1) by (simp_all add: seg_defs recursive_mutex_new_def)
  show "rm_lock_n t n (?m 1) = (?m (int (Suc n)), True)" using rm_lock_n_depth [of 1 n t] assms(3) by simp
  show "rm_unlock_n t (Suc n) (?m (int (Suc n))) = (recursive_mutex_new, True)"
    using rm_unlock_n_depth assms(3) by blast
  show "recursive_mutex_unlock u (?m (int (Suc n))) = (?m (int (Suc n)), Ret (- EPERM))"
    using assms(2) by (simp add: seg_defs)
qed simp

theorem recursive_mutex_nesting_roundtrip_witness:
  "\<exists>m1 m2. recursive_mutex_locked 4 0 recursive_mutex_new = (m1, Ret 0) \<and> rm_lock_n 4 2 m1 = (m2, True)
    \<and> rm_unlock_n 4 3 m2 = (recursive_mutex_new, True)"
  using recursive_mutex_nesting_roundtrip [of 4 5 2] by (auto simp: numeral_3_eq_3)

end
