(* ===== verification/Event_Pair.thy ===== *)
theory Event_Pair
  imports Thread_System
begin

text \<open>
  \<open>event_pair.c\<close>: two one-shot events sharing one state variable (0 idle, 1 first event
  pending, 2 second event pending).  A wait that is woken with anything but \<open>ETIMEDOUT\<close> goes
  back to its loop test.
\<close>

record event_pair =
  ep_state :: int

definition event_pair_init :: "bool \<Rightarrow> int + event_pair" where
  "event_pair_init alloc = (if \<not> alloc then Inl (- ENOMEM) else Inr \<lparr>ep_state = 0\<rparr>)"

definition event_pair_destroy :: "(addr \<rightharpoonup> event_pair) \<Rightarrow> addr \<Rightarrow> (addr \<rightharpoonup> event_pair)" where
  "event_pair_destroy h ep = h(ep := None)"

definition event_pair_signal1 :: "event_pair \<Rightarrow> event_pair \<times> outcome" where
  [seg_defs]: "event_pair_signal1 ep = (ep\<lparr>ep_state := 1\<rparr>, Ret 0)"

definition event_pair_signal2 :: "event_pair \<Rightarrow> event_pair \<times> outcome" where
  [seg_defs]: "event_pair_signal2 ep = (ep\<lparr>ep_state := 2\<rparr>, Ret 0)"

definition event_pair_wait1 :: "event_pair \<Rightarrow> event_pair \<times> outcome" where
  [seg_defs]: "event_pair_wait1 ep = (if ep_state ep \<noteq> 1 then (ep, Block) else (ep\<lparr>ep_state := 0\<rparr>, Ret 0))"

definition event_pair_wait1_woken :: "int \<Rightarrow> event_pair \<Rightarrow> event_pair \<times> outcome" where
  [seg_defs]: "event_pair_wait1_woken ret ep = (if ret = ETIMEDOUT then (ep, Ret (- ETIMEDOUT)) else event_pair_wait1 ep)"

definition event_pair_wait2 :: "event_pair \<Rightarrow> event_pair \<times> outcome" where
  [seg_defs]: "event_pair_wait2 ep = (if ep_state ep \<noteq> 2 then (ep, Block) else (ep\<lparr>ep_state := 0\<rparr>, Ret 0))"

definition event_pair_wait2_woken :: "int \<Rightarrow> event_pair \<Rightarrow> event_pair \<times> outcome" where
  [seg_defs]: "event_pair_wait2_woken ret ep = (if ret = ETIMEDOUT then (ep, Ret (- ETIMEDOUT)) else event_pair_wait2 ep)"

section \<open>Cancellation of a waiting thread\<close>

text \<open>
  The mutex and the two condition variables.  A thread cancelled in its condition wait owns the
  mutex again when its handler \<open>event_cleanup\<close> runs; the handler destroys the condition variables
  and does not release the mutex.  The lock of the next call waits for ever (\<open>None\<close>) when the owner
  has ended.
\<close>

record ep_objects =
  eo_mutex :: "tid option"
  eo_cond1 :: bool
  eo_cond2 :: bool

definition event_cleanup :: "ep_objects \<Rightarrow> ep_objects" where
  "event_cleanup s = s\<lparr>eo_cond1 := False, eo_cond2 := False\<rparr>"

definition event_wait_cancelled :: "tid \<Rightarrow> ep_objects \<Rightarrow> ep_objects" where
  "event_wait_cancelled t s = event_cleanup (s\<lparr>eo_mutex := Some t\<rparr>)"

definition event_lock :: "tid \<Rightarrow> ep_objects \<Rightarrow> ep_objects option" where
  "event_lock t s = (if eo_mutex s = None then Some (s\<lparr>eo_mutex := Some t\<rparr>) else None)"

lemma cancelled_wait_locks_pair: "event_lock u (event_wait_cancelled t s) = None \<and> \<not> eo_cond1 (event_wait_cancelled t s)"
  by (simp add: event_lock_def event_wait_cancelled_def event_cleanup_def)

section \<open>Threads using the pair\<close>

text \<open>
  The state adds how often each event was signalled and how often each wait returned 0.  The
  set \<open>ops\<close> of operations the clients use is a parameter.
\<close>

datatype ep_op = Signal1 | Signal2 | Wait1 | Wait2

record ep_state =
  es_ep :: event_pair
  es_sig :: "ep_op \<Rightarrow> nat"
  es_got :: "ep_op \<Rightarrow> nat"

definition ep_note :: "ep_op \<Rightarrow> ep_state \<Rightarrow> event_pair \<times> outcome \<Rightarrow> ep_state \<times> outcome" where
  "ep_note op s res =
     (if op \<in> {Signal1, Signal2} then (s\<lparr>es_ep := fst res, es_sig := (es_sig s)(op := Suc (es_sig s op))\<rparr>, snd res)
      else if snd res = Ret 0 then (s\<lparr>es_ep := fst res, es_got := (es_got s)(op := Suc (es_got s op))\<rparr>, snd res)
      else (s\<lparr>es_ep := fst res\<rparr>, snd res))"

fun ep_enter :: "tid \<Rightarrow> ep_op \<Rightarrow> ep_state \<Rightarrow> ep_state \<times> outcome" where
  "ep_enter t Signal1 s = ep_note Signal1 s (event_pair_signal1 (es_ep s))"
| "ep_enter t Signal2 s = ep_note Signal2 s (event_pair_signal2 (es_ep s))"
| "ep_enter t Wait1 s = ep_note Wait1 s (event_pair_wait1 (es_ep s))"
| "ep_enter t Wait2 s = ep_note Wait2 s (event_pair_wait2 (es_ep s))"

fun ep_resume :: "tid \<Rightarrow> ep_op \<Rightarrow> int \<Rightarrow> ep_state \<Rightarrow> ep_state \<times> outcome" where
  "ep_resume t Wait1 r s = ep_note Wait1 s (event_pair_wait1_woken r (es_ep s))"
| "ep_resume t Wait2 r s = ep_note Wait2 s (event_pair_wait2_woken r (es_ep s))"
| "ep_resume t op r s = (s, Block)"

definition ep_comp :: "ep_op set \<Rightarrow> (ep_state, unit, ep_op) comp" where
  "ep_comp ops = \<lparr>c_enter = ep_enter, c_resume = ep_resume, c_may = (\<lambda>_ op. op \<in> ops), c_after = (\<lambda>_ _ _. ())\<rparr>"

lemma ep_comp_sel [simp]:
  "c_enter (ep_comp ops) = ep_enter" "c_resume (ep_comp ops) = ep_resume" "c_may (ep_comp ops) l op = (op \<in> ops)"
  by (simp_all add: ep_comp_def)

type_synonym ep_sys = "(ep_state, unit, ep_op) sys"

definition ep_start :: ep_sys where
  "ep_start = start \<lparr>es_ep = \<lparr>ep_state = 0\<rparr>, es_sig = (\<lambda>_. 0), es_got = (\<lambda>_. 0)\<rparr> ()"

definition ep_ok :: "ep_op set \<Rightarrow> ep_state \<Rightarrow> bool" where
  "ep_ok ops s \<longleftrightarrow> ep_state (es_ep s) \<in> {0, 1, 2}
     \<and> es_got s Wait1 + of_bool (ep_state (es_ep s) = 1) \<le> es_sig s Signal1
     \<and> es_got s Wait2 + of_bool (ep_state (es_ep s) = 2) \<le> es_sig s Signal2
     \<and> (\<forall>op. op \<notin> ops \<longrightarrow> es_sig s op = 0)"

definition ep_inv :: "ep_op set \<Rightarrow> ep_sys \<Rightarrow> bool" where
  "ep_inv ops \<sigma> \<longleftrightarrow> ep_ok ops (shared \<sigma>) \<and> (\<forall>t. blocked \<sigma> t \<noteq> None \<longrightarrow> blocked \<sigma> t \<in> {Some Wait1, Some Wait2})"

lemma ep_ok_enter: "\<lbrakk>ep_ok ops s; op \<in> ops\<rbrakk> \<Longrightarrow> ep_ok ops (fst (ep_enter t op s))"
  by (cases op) (auto simp: ep_ok_def ep_note_def seg_defs)

lemma ep_ok_resume: "ep_ok ops s \<Longrightarrow> ep_ok ops (fst (ep_resume t op r s))"
  by (cases op) (auto simp: ep_ok_def ep_note_def seg_defs)

lemma ep_enter_blocks: "snd (ep_enter t op s) = Block \<Longrightarrow> op \<in> {Wait1, Wait2}"
  by (cases op) (auto simp: ep_note_def seg_defs)

lemma ep_inv_settle:
  "\<lbrakk>ep_inv ops \<sigma>; ep_ok ops (fst res); snd res = Block \<Longrightarrow> op \<in> {Wait1, Wait2}\<rbrakk> \<Longrightarrow> ep_inv ops (settle (ep_comp ops) t op res \<sigma>)"
  by (cases res; cases "snd res") (auto simp: ep_inv_def)

interpretation ep: thread_invariant "ep_comp ops" T ep_start "ep_inv ops" for ops T
proof (unfold_locales, goal_cases)
  case 1 show ?case by (simp add: ep_inv_def ep_ok_def ep_start_def)
next
  case (2 \<sigma> t op)
  then have "ep_ok ops (fst (ep_enter t op (shared \<sigma>)))" by (simp add: ep_inv_def ep_ok_enter)
  with 2 show ?case by (auto intro: ep_inv_settle dest: ep_enter_blocks)
next
  case (3 \<sigma> t op r)
  then have "op \<in> {Wait1, Wait2}" by (auto simp: ep_inv_def)
  moreover from 3 have "ep_ok ops (fst (ep_resume t op r (shared \<sigma>)))" by (simp add: ep_inv_def ep_ok_resume)
  ultimately show ?case using 3 by (auto intro: ep_inv_settle)
qed

section \<open>Properties\<close>

text \<open>
  C20: no wait succeeds without a signal.  In every reachable state, for every interleaving,
  the waits for an event that returned 0 number at most the signals of that event, minus one
  if the event is still pending; and the state variable only takes the values 0, 1 and 2.
\<close>

theorem event_pair_waits_bounded_by_signals:
  assumes "reaches (ep_comp ops) T ep_start \<sigma>"
  shows "es_got (shared \<sigma>) Wait1 + of_bool (ep_state (es_ep (shared \<sigma>)) = 1) \<le> es_sig (shared \<sigma>) Signal1
    \<and> es_got (shared \<sigma>) Wait2 + of_bool (ep_state (es_ep (shared \<sigma>)) = 2) \<le> es_sig (shared \<sigma>) Signal2
    \<and> ep_state (es_ep (shared \<sigma>)) \<in> {0, 1, 2}"
  using ep.inv_reaches [OF assms] by (simp add: ep_inv_def ep_ok_def)

lemma ep_run1_ex:
  "\<exists>\<sigma>. run (ep_comp UNIV) {1, 2} [Call 1 Wait1, Call 2 Signal1, Wake 1 0] ep_start = Some \<sigma> \<and> es_got (shared \<sigma>) Wait1 = 1"
  by (simp add: ep_start_def ep_note_def seg_defs)

theorem event_pair_waits_bounded_by_signals_witness:
  "\<exists>\<sigma>. reaches (ep_comp UNIV) {1, 2} ep_start \<sigma> \<and> es_got (shared \<sigma>) Wait1 = 1 \<and> 1 \<le> es_sig (shared \<sigma>) Signal1"
proof -
  obtain \<sigma> where r: "reaches (ep_comp UNIV) {1, 2} ep_start \<sigma>" and g: "es_got (shared \<sigma>) Wait1 = 1"
    using ep_run1_ex run_reaches [OF _ reach_refl] by blast
  with event_pair_waits_bounded_by_signals [OF r] show ?thesis by (intro exI [of _ \<sigma>]) simp
qed

text \<open>
  A wait nobody answers.  \<open>thread_pool.c\<close> only ever calls \<open>event_pair_signal1\<close> and
  \<open>event_pair_wait2\<close> on its pair; with no other operation in use, \<open>event_pair_wait2\<close> never returns 0,
  so each of these calls runs into its timeout.
\<close>

theorem event_pair_wait2_unanswered:
  assumes "reaches (ep_comp {Signal1, Wait2}) T ep_start \<sigma>"
  shows "es_got (shared \<sigma>) Wait2 = 0"
proof -
  have "ep_ok {Signal1, Wait2} (shared \<sigma>)" using ep.inv_reaches [OF assms] by (simp add: ep_inv_def)
  then have "es_sig (shared \<sigma>) Signal2 = 0" "es_got (shared \<sigma>) Wait2 \<le> es_sig (shared \<sigma>) Signal2" by (auto simp: ep_ok_def)
  then show ?thesis by simp
qed

theorem event_pair_wait2_unanswered_witness:
  "\<exists>\<sigma>. reaches (ep_comp {Signal1, Wait2}) {1} ep_start \<sigma> \<and> blocked \<sigma> 1 = Some Wait2 \<and> es_got (shared \<sigma>) Wait2 = 0"
proof -
  have "\<exists>\<sigma>. run (ep_comp {Signal1, Wait2}) {1} [Call 1 Signal1, Call 1 Wait2] ep_start = Some \<sigma> \<and> blocked \<sigma> 1 = Some Wait2"
    by (simp add: ep_start_def ep_note_def seg_defs)
  then obtain \<sigma> where r: "reaches (ep_comp {Signal1, Wait2}) {1} ep_start \<sigma>" and "blocked \<sigma> 1 = Some Wait2"
    using run_reaches [OF _ reach_refl] by blast
  with event_pair_wait2_unanswered [OF r] show ?thesis by blast
qed

text \<open>
  Rendezvous and loss.  From the idle state, signal1 followed by wait1 and signal2
  followed by wait2 both succeed at once and return to idle, which is the two-way hand-over
  the pair is for; but a second signal of the other kind before the first is consumed
  overwrites it, and the wait for the first event then sleeps although it was signalled.
\<close>

theorem event_pair_rendezvous_and_loss:
  "(let idle = \<lparr>ep_state = 0\<rparr>;
        s1 = fst (event_pair_signal1 idle);
        s2 = fst (event_pair_signal2 idle);
        both = fst (event_pair_signal2 s1)
    in event_pair_wait1 s1 = (idle, Ret 0) \<and> event_pair_wait2 s2 = (idle, Ret 0)
       \<and> event_pair_wait1 both = (both, Block) \<and> event_pair_wait2 both = (idle, Ret 0)
       \<and> event_pair_wait1 (fst (event_pair_wait2 both)) = (idle, Block))"
  by (simp add: seg_defs)

end
