(* ===== verification/Pubsub.thy ===== *)
theory Pubsub
  imports Event_Pair
begin

text \<open>
  \<open>pubsub.c\<close>: the list of subscribers, newest first, and the delivery of a published record to
  the callbacks of its topic.  Callbacks are numbered, \<open>None\<close> is NULL.  Results of \<open>malloc\<close>,
  \<open>strdup\<close> and \<open>pthread_mutex_timedlock\<close> are inputs.

  After a callback \<open>pubsub_publish\<close> calls \<open>event_pair_signal1(&ps.ep)\<close>, and \<open>pubsub_destroy\<close> ends with
  \<open>event_pair_destroy(&ps.ep)\<close>.  \<open>ps.ep\<close> is a pointer to the event pair that \<open>pubsub_init\<close> has made;
  \<open>&ps.ep\<close> is the address of that pointer, in a static variable, where there is no event pair: the
  calls lock, destroy and free memory that is none, and C gives no meaning to what follows.  So
  the model ends there: the state after such a call is \<open>None\<close>.
\<close>

record subscriber =
  sub_topic :: string
  sub_callback :: "nat option"

record pubsub =
  ps_subscribers :: "subscriber list"
  ps_ep :: event_pair

definition pubsub_init :: "pubsub" where
  "pubsub_init = \<lparr>ps_subscribers = [], ps_ep = \<lparr>ep_state = 0\<rparr>\<rparr>"

definition pubsub_subscribe ::
  "bool \<Rightarrow> bool \<Rightarrow> int \<Rightarrow> string option \<Rightarrow> nat option \<Rightarrow> pubsub \<Rightarrow> pubsub \<times> int" where
  "pubsub_subscribe alloc dup timedlock topic callback ps =
     (case (topic, callback) of
        (Some tp, Some cb) \<Rightarrow>
          if \<not> alloc then (ps, - ENOMEM)
          else if \<not> dup then (ps, - ENOMEM)
          else if timedlock \<noteq> 0 then (ps, - ETIMEDOUT)
          else (ps\<lparr>ps_subscribers := \<lparr>sub_topic = tp, sub_callback = Some cb\<rparr> # ps_subscribers ps\<rparr>, 0)
      | _ \<Rightarrow> (ps, - EINVAL))"

text \<open>
  The loop of \<open>pubsub_publish\<close>: the callbacks made, in order, and whether it comes to its end; the
  two calls with \<open>&ps.ep\<close> follow every callback.
\<close>

fun publish_loop :: "string \<Rightarrow> subscriber list \<Rightarrow> nat list \<times> bool" where
  "publish_loop topic [] = ([], True)"
| "publish_loop topic (s # ss) =
     (if sub_topic s = topic
      then (case sub_callback s of
          Some cb \<Rightarrow> ([cb], False)
        | None \<Rightarrow> publish_loop topic ss)
      else publish_loop topic ss)"

definition pubsub_publish :: "int \<Rightarrow> string option \<Rightarrow> nat option \<Rightarrow> pubsub \<Rightarrow> nat list \<times> pubsub option" where
  "pubsub_publish timedlock topic data ps =
     (case (topic, data) of
        (Some tp, Some d) \<Rightarrow>
          if timedlock \<noteq> 0 then ([], Some ps)
          else (case publish_loop tp (ps_subscribers ps) of (cbs, ends) \<Rightarrow> (cbs, if ends then Some ps else None))
      | _ \<Rightarrow> ([], Some ps))"

text \<open>\<open>pubsub_destroy\<close> returns without effect when the lock times out, and destroys \<open>&ps.ep\<close> otherwise.\<close>

definition pubsub_destroy :: "int \<Rightarrow> pubsub \<Rightarrow> pubsub option" where
  "pubsub_destroy timedlock ps = (if timedlock \<noteq> 0 then Some ps else None)"

section \<open>Properties\<close>

text \<open>A client that subscribes a list of (topic, callback) pairs.\<close>

fun subscribe_all :: "(string \<times> nat) list \<Rightarrow> pubsub \<Rightarrow> pubsub" where
  "subscribe_all [] ps = ps"
| "subscribe_all ((t, cb) # xs) ps = subscribe_all xs (fst (pubsub_subscribe True True 0 (Some t) (Some cb) ps))"

lemma subscribe_all_list:
  "ps_subscribers (subscribe_all xs ps) = rev (map (\<lambda>(t, cb). \<lparr>sub_topic = t, sub_callback = Some cb\<rparr>) xs) @ ps_subscribers ps"
  by (induction xs ps rule: subscribe_all.induct) (simp_all add: pubsub_subscribe_def)

lemma publish_loop_calls:
  "publish_loop topic ss = (case List.map_filter (\<lambda>s. if sub_topic s = topic then sub_callback s else None) ss of
     [] \<Rightarrow> ([], True) | cb # cbs \<Rightarrow> ([cb], False))"
  by (induction topic ss rule: publish_loop.induct) (auto simp: List.map_filter_def split: list.splits option.splits)

lemma map_filter_rev: "List.map_filter f (rev xs) = rev (List.map_filter f xs)"
  by (simp add: List.map_filter_def rev_filter rev_map)

lemma subscribed_callbacks:
  "List.map_filter (\<lambda>s. if sub_topic s = topic then sub_callback s else None)
     (map (\<lambda>(t, cb). \<lparr>sub_topic = t, sub_callback = Some cb\<rparr>) xs) = map snd (filter (\<lambda>(t, cb). t = topic) xs)"
  by (induction xs) (auto simp: List.map_filter_def)

text \<open>
  C27: publishing ends at the first callback.  After any sequence of subscriptions to a fresh
  pubsub, publishing a topic that nobody subscribed calls nothing and returns with the
  subscriptions as they were.  Publishing any other topic calls one callback, that of the
  subscriber of the topic who came last, once, and has no defined continuation after it; the
  earlier subscribers of the topic are not called by any execution C defines.
\<close>

theorem publish_ends_at_first_callback:
  "pubsub_publish 0 (Some topic) (Some d) (subscribe_all xs pubsub_init) =
     (case filter (\<lambda>(t, cb). t = topic) xs of
        [] \<Rightarrow> ([], Some (subscribe_all xs pubsub_init))
      | ys \<Rightarrow> ([snd (last ys)], None))"
proof -
  let ?ys = "filter (\<lambda>(t, cb). t = topic) xs"
  have "publish_loop topic (ps_subscribers (subscribe_all xs pubsub_init)) = (case rev (map snd ?ys) of [] \<Rightarrow> ([], True) | cb # cbs \<Rightarrow> ([cb], False))"
    by (simp add: publish_loop_calls subscribe_all_list pubsub_init_def map_filter_rev subscribed_callbacks)
  also have "\<dots> = (if ?ys = [] then ([], True) else ([snd (last ?ys)], False))" by (cases ?ys rule: rev_cases) simp_all
  finally have l: "publish_loop topic (ps_subscribers (subscribe_all xs pubsub_init)) = (if ?ys = [] then ([], True) else ([snd (last ?ys)], False))" .
  have "pubsub_publish 0 (Some topic) (Some d) (subscribe_all xs pubsub_init)
      = (if ?ys = [] then ([], Some (subscribe_all xs pubsub_init)) else ([snd (last ?ys)], None))" by (simp add: pubsub_publish_def l)
  then show ?thesis by (simp split: list.split)
qed

text \<open>
  The error branches: NULL arguments, failed allocations and a timed-out lock leave the
  subscriptions unchanged; a failed lock after the allocations loses the new node.
\<close>

lemma subscribe_errors:
  "snd (pubsub_subscribe alloc dup timedlock topic cb ps) \<noteq> 0 \<Longrightarrow> fst (pubsub_subscribe alloc dup timedlock topic cb ps) = ps"
  by (auto simp: pubsub_subscribe_def split: option.splits if_splits)

end
