(* ===== verification/Logger.thy ===== *)
theory Logger
  imports Prelude
begin

text \<open>
  \<open>logger.c\<close>: the process-wide log file with a level filter.  The state has the lines written so
  far (\<open>None\<close> when no file is open), the level, and whether the calling thread holds the
  logger's mutex, which is not recursive: a thread that locks it twice waits for itself.  An
  operation that never returns has the value \<open>None\<close>.  The text of a line is its formatted message.
\<close>

datatype log_level_t = LOG_DEBUG | LOG_INFO | LOG_WARNING | LOG_ERROR

fun level_val :: "log_level_t \<Rightarrow> int" where
  "level_val LOG_DEBUG = 0"
| "level_val LOG_INFO = 1"
| "level_val LOG_WARNING = 2"
| "level_val LOG_ERROR = 3"

record logger =
  log_file :: "(int \<times> string) list option"
  log_level :: int
  log_held :: bool

definition log_lock :: "logger \<Rightarrow> logger option" where
  "log_lock l = (if log_held l then None else Some (l\<lparr>log_held := True\<rparr>))"

definition log_unlock :: "logger \<Rightarrow> logger" where
  "log_unlock l = l\<lparr>log_held := False\<rparr>"

text \<open>
  \<open>logger_log\<close>.  A failing flush is reported to standard error and leaves the line in the file
  buffer, so it takes the same path for the state.
\<close>

definition logger_log :: "int \<Rightarrow> string \<Rightarrow> logger \<Rightarrow> logger option" where
  "logger_log level msg l =
     (if level < log_level l then Some l
      else (case log_lock l of
          None \<Rightarrow> None
        | Some l1 \<Rightarrow> (case log_file l1 of
            None \<Rightarrow> Some (log_unlock l1)
          | Some lines \<Rightarrow> Some (log_unlock (l1\<lparr>log_file := Some (lines @ [(level, msg)])\<rparr>)))))"

text \<open>\<open>old\<close> is the content of the file that is opened for appending; \<open>opened\<close> and \<open>fileno_ok\<close>
  are the results of the calls.  The branch that closes the file and then logs uses a closed
  file and a destroyed mutex and has no defined effect.\<close>

definition logger_init :: "bool \<Rightarrow> bool \<Rightarrow> (int \<times> string) list \<Rightarrow> logger \<Rightarrow> logger option \<times> int" where
  "logger_init opened fileno_ok old l =
     (let l = l\<lparr>log_held := False, log_level := level_val LOG_INFO\<rparr> in
      if \<not> opened then (Some (l\<lparr>log_file := None\<rparr>), - 1)
      else (let l = l\<lparr>log_file := Some old\<rparr> in
        if \<not> fileno_ok then (None, - EBADF)
        else (logger_log (level_val LOG_INFO) ''Logger initialized with file'' l, 0)))"

definition logger_set_level :: "int \<Rightarrow> logger \<Rightarrow> logger option" where
  "logger_set_level level l =
     (if level < level_val LOG_DEBUG \<or> level > level_val LOG_ERROR
      then logger_log (level_val LOG_ERROR) ''Invalid log level'' l
      else (case log_lock l of
          None \<Rightarrow> None
        | Some l1 \<Rightarrow> (case logger_log (level_val LOG_INFO) ''Log level set'' (l1\<lparr>log_level := level\<rparr>) of
            None \<Rightarrow> None | Some l2 \<Rightarrow> Some (log_unlock l2))))"

definition logger_destroy :: "logger \<Rightarrow> logger option" where
  "logger_destroy l =
     (case log_lock l of
        None \<Rightarrow> None
      | Some l1 \<Rightarrow>
          if log_file l1 = None then Some (log_unlock l1)
          else (case logger_log (level_val LOG_INFO) ''Logger shutting down'' l1 of
              None \<Rightarrow> None | Some l2 \<Rightarrow> Some (log_unlock (l2\<lparr>log_file := None\<rparr>))))"

text \<open>A thread that logs a sequence of messages.\<close>

fun log_all :: "(int \<times> string) list \<Rightarrow> logger \<Rightarrow> logger option" where
  "log_all [] l = Some l"
| "log_all ((lev, msg) # ms) l = (case logger_log lev msg l of None \<Rightarrow> None | Some l' \<Rightarrow> log_all ms l')"

section \<open>Properties\<close>

lemma logger_log_open:
  "\<lbrakk>\<not> log_held l; log_file l = Some lines\<rbrakk>
    \<Longrightarrow> logger_log lev msg l = Some (l\<lparr>log_file := Some (lines @ (if lev < log_level l then [] else [(lev, msg)]))\<rparr>)"
  by (simp add: logger_log_def log_lock_def log_unlock_def)

lemma logger_log_keeps:
  "\<not> log_held l \<Longrightarrow> \<exists>l'. logger_log lev msg l = Some l' \<and> \<not> log_held l' \<and> log_level l' = log_level l \<and> (log_file l' = None \<longleftrightarrow> log_file l = None)"
  by (cases "log_file l") (simp_all add: logger_log_def log_lock_def log_unlock_def)

lemma log_all_keeps:
  "\<not> log_held l \<Longrightarrow> \<exists>l'. log_all ms l = Some l' \<and> \<not> log_held l' \<and> log_level l' = log_level l \<and> (log_file l' = None \<longleftrightarrow> log_file l = None)"
proof (induction ms arbitrary: l)
  case (Cons m ms)
  obtain lev msg where m: "m = (lev, msg)" by fastforce
  obtain l1 where "logger_log lev msg l = Some l1" "\<not> log_held l1" "log_level l1 = log_level l" "log_file l1 = None \<longleftrightarrow> log_file l = None"
    using logger_log_keeps [OF Cons.prems, of lev msg] by (elim exE conjE)
  with Cons.IH [of l1] m show ?case by auto
qed simp

text \<open>
  C28: the log is exactly the messages at or above the level, in order.  With the file open and
  the mutex free, logging any sequence of messages returns and appends the messages whose level
  is at least the logger's, in the order they were logged, and changes nothing else.
\<close>

theorem logger_filters_in_order:
  assumes "\<not> log_held l" "log_file l = Some lines"
  shows "log_all ms l = Some (l\<lparr>log_file := Some (lines @ filter (\<lambda>(lev, msg). log_level l \<le> lev) ms)\<rparr>)"
  using assms
proof (induction ms arbitrary: l lines)
  case Nil
  then show ?case by simp
next
  case (Cons m ms)
  obtain lev msg where m: "m = (lev, msg)" by fastforce
  show ?case using Cons.IH [of "l\<lparr>log_file := Some (lines @ (if lev < log_level l then [] else [(lev, msg)]))\<rparr>"] Cons.prems
    by (simp add: m logger_log_open [OF Cons.prems])
qed

definition fresh_log :: logger where
  "fresh_log = \<lparr>log_file = Some [], log_level = 1, log_held = False\<rparr>"

theorem logger_filters_in_order_witness:
  "log_all [(0, ''a''), (3, ''b''), (1, ''c'')] fresh_log = Some (fresh_log\<lparr>log_file := Some [(3, ''b''), (1, ''c'')]\<rparr>)"
  using logger_filters_in_order [of fresh_log "[]" "[(0, ''a''), (3, ''b''), (1, ''c'')]"] by (simp add: fresh_log_def)

text \<open>
  The logger locks itself out.  \<open>logger_set_level\<close> and \<open>logger_destroy\<close> log while holding
  the mutex.  Setting a valid level therefore returns only for the levels above \<open>LOG_INFO\<close>;
  in particular the call \<open>logger_set_level(LOG_DEBUG)\<close> that follows \<open>logger_init\<close> in \<open>main\<close> never
  returns, and neither does \<open>logger_destroy\<close> of a logger at its initial level.
\<close>

theorem logger_self_deadlock:
  assumes "\<not> log_held l" "0 \<le> level" "level \<le> 3"
  shows "(logger_set_level level l = None \<longleftrightarrow> level \<le> level_val LOG_INFO)
    \<and> (logger_destroy l = None \<longleftrightarrow> log_file l \<noteq> None \<and> log_level l \<le> level_val LOG_INFO)
    \<and> (level_val LOG_INFO < level \<longrightarrow> logger_set_level level l = Some (l\<lparr>log_level := level\<rparr>))"
  using assms by (auto simp: logger_set_level_def logger_destroy_def logger_log_def log_lock_def log_unlock_def)

theorem logger_self_deadlock_witness:
  "\<exists>l. logger_init True True [] fresh_log = (Some l, 0) \<and> logger_set_level (level_val LOG_DEBUG) l = None \<and> logger_destroy l = None"
proof -
  let ?l = "fresh_log\<lparr>log_file := Some [(1, ''Logger initialized with file'')]\<rparr>"
  have "logger_init True True [] fresh_log = (Some ?l, 0)"
    by (simp add: logger_init_def logger_log_def log_lock_def log_unlock_def fresh_log_def)
  then show ?thesis using logger_self_deadlock [of ?l 0] by (simp add: fresh_log_def)
qed

end
