(* ===== verification/Sensor_Data.thy ===== *)
theory Sensor_Data
  imports Prelude
begin

text \<open>
  The measurement record that the user-space components pass around, and the plausibility
  check that \<open>monitor.c\<close> and \<open>ipc_sync.c\<close> apply to it.  The field \<open>temp\<close> is the \<open>s32\<close> of the
  only declaration of the struct that has a field of that name (\<open>bme680.c\<close>); the others are
  \<open>u32\<close>.  The comparison of the unsigned humidity with 0 is part of the source's condition.
\<close>

record bme680_fifo_data =
  fd_temp :: int
  fd_pressure :: u32
  fd_humidity :: u32
  fd_gas_resistance :: u32

definition sensor_data_invalid :: "bme680_fifo_data \<Rightarrow> bool" where
  "sensor_data_invalid d \<longleftrightarrow> fd_temp d < - 40 \<or> fd_temp d > 85 \<or> fd_pressure d < 30000 \<or> fd_pressure d > 110000
     \<or> fd_humidity d < 0 \<or> fd_humidity d > 100"

lemma sensor_data_valid_ranges:
  "\<not> sensor_data_invalid d \<longleftrightarrow> - 40 \<le> fd_temp d \<and> fd_temp d \<le> 85
     \<and> 30000 \<le> uint (fd_pressure d) \<and> uint (fd_pressure d) \<le> 110000 \<and> uint (fd_humidity d) \<le> 100"
  by (auto simp: sensor_data_invalid_def word_less_alt word_le_def not_less)

definition room_air :: bme680_fifo_data where
  "room_air = \<lparr>fd_temp = 25, fd_pressure = 101325, fd_humidity = 50, fd_gas_resistance = 100000\<rparr>"

lemma room_air_valid [simp]: "\<not> sensor_data_invalid room_air"
  by (simp add: sensor_data_invalid_def room_air_def)

end
