(* ===== verification/Ipc_Sync.thy ===== *)
theory Ipc_Sync
  imports Sensor_Data
begin

text \<open>
  \<open>ipc_sync.c\<close>: one measurement in a System V shared memory segment, guarded by a System V
  semaphore.  The state is what the process holds of the system: the allocated struct, the
  segment, its attachment, the semaphore with its value, and the record in the segment.  The
  results of the system calls, and the value \<open>errno\<close> has when it is returned, are inputs.
\<close>

record ipc_state =
  ip_struct :: bool
  ip_shm :: bool
  ip_attached :: bool
  ip_sem :: "int option"
  ip_data :: bme680_fifo_data

record ipc_calls =
  ic_malloc :: bool
  ic_shmget :: bool
  ic_shmat :: bool
  ic_semget :: bool
  ic_semctl :: bool
  ic_errno :: int

definition ipc_sync_init :: "ipc_calls \<Rightarrow> int \<Rightarrow> ipc_state \<Rightarrow> ipc_state \<times> int" where
  "ipc_sync_init c old_sem s =
     (if \<not> ic_malloc c then (s, - ENOMEM)
      else let s = s\<lparr>ip_struct := True\<rparr> in
      if \<not> ic_shmget c then (s\<lparr>ip_struct := False\<rparr>, - ic_errno c)
      else let s = s\<lparr>ip_shm := True\<rparr> in
      if \<not> ic_shmat c then (s\<lparr>ip_shm := False, ip_struct := False\<rparr>, - ic_errno c)
      else let s = s\<lparr>ip_attached := True\<rparr> in
      if \<not> ic_semget c then (s\<lparr>ip_attached := False, ip_shm := False, ip_struct := False\<rparr>, - ic_errno c)
      else let s = s\<lparr>ip_sem := Some old_sem\<rparr> in
      if \<not> ic_semctl c then (s\<lparr>ip_attached := False, ip_shm := False, ip_sem := None, ip_struct := False\<rparr>, - ic_errno c)
      else (s\<lparr>ip_sem := Some 1\<rparr>, 0))"

definition ipc_sync_destroy :: "ipc_state \<Rightarrow> ipc_state" where
  "ipc_sync_destroy s = s\<lparr>ip_attached := False, ip_shm := False, ip_sem := None, ip_struct := False\<rparr>"

text \<open>
  \<open>sem_timedwait\<close> and the post: \<open>err\<close> is 0 or the error number of the call; a wait succeeds
  only on a positive value.
\<close>

definition sem_timedwait :: "int \<Rightarrow> ipc_state \<Rightarrow> ipc_state option" where
  "sem_timedwait err s = (case ip_sem s of
      None \<Rightarrow> None
    | Some v \<Rightarrow> if err \<noteq> 0 \<or> v \<le> 0 then None else Some (s\<lparr>ip_sem := Some (v - 1)\<rparr>))"

definition sem_post :: "int \<Rightarrow> ipc_state \<Rightarrow> ipc_state option" where
  "sem_post err s = (case ip_sem s of
      None \<Rightarrow> None
    | Some v \<Rightarrow> if err \<noteq> 0 then None else Some (s\<lparr>ip_sem := Some (v + 1)\<rparr>))"

definition ipc_sync_write :: "int \<Rightarrow> int \<Rightarrow> int \<Rightarrow> ipc_state \<Rightarrow> bme680_fifo_data \<Rightarrow> ipc_state \<times> int" where
  "ipc_sync_write wait_err post_err errno s data =
     (if sensor_data_invalid data then (s, - EINVAL)
      else case sem_timedwait wait_err s of
          None \<Rightarrow> (s, - errno)
        | Some s1 \<Rightarrow> (let s2 = s1\<lparr>ip_data := data\<rparr> in
            case sem_post post_err s2 of None \<Rightarrow> (s2, - errno) | Some s3 \<Rightarrow> (s3, 0)))"

text \<open>\<open>out\<close> is the caller's record before the call, the last component of the result the record after it.\<close>

definition ipc_sync_read :: "int \<Rightarrow> int \<Rightarrow> int \<Rightarrow> ipc_state \<Rightarrow> bme680_fifo_data \<Rightarrow> ipc_state \<times> int \<times> bme680_fifo_data" where
  "ipc_sync_read wait_err post_err errno s out =
     (case sem_timedwait wait_err s of
        None \<Rightarrow> (s, - errno, out)
      | Some s1 \<Rightarrow>
          (let data = ip_data s1 in
           if sensor_data_invalid data
           then ((case sem_post post_err s1 of None \<Rightarrow> s1 | Some s2 \<Rightarrow> s2), - EINVAL, data)
           else case sem_post post_err s1 of None \<Rightarrow> (s1, - errno, data) | Some s2 \<Rightarrow> (s2, 0, data)))"

section \<open>Properties\<close>

definition ipc_idle :: "ipc_state \<Rightarrow> bool" where
  "ipc_idle s \<longleftrightarrow> \<not> ip_struct s \<and> \<not> ip_shm s \<and> \<not> ip_attached s \<and> ip_sem s = None"

text \<open>
  C31: initialisation is all or nothing.  From a process that holds nothing, \<open>ipc_sync_init\<close>
  either returns 0 with the struct, the attached segment and a semaphore of value 1, or a
  negative value with every resource it had acquired given back; \<open>ipc_sync_destroy\<close> gives all of
  them back.
\<close>

theorem ipc_init_all_or_nothing:
  assumes "ipc_idle s" "0 < ic_errno c" "ipc_sync_init c v s = (s', ret)"
  shows "(ret = 0 \<and> ip_struct s' \<and> ip_shm s' \<and> ip_attached s' \<and> ip_sem s' = Some 1 \<and> ipc_idle (ipc_sync_destroy s'))
    \<or> (ret < 0 \<and> ipc_idle s')"
  using assms by (auto simp: ipc_sync_init_def ipc_idle_def ipc_sync_destroy_def Let_def split: if_splits)

definition nothing_held :: ipc_state where
  "nothing_held = \<lparr>ip_struct = False, ip_shm = False, ip_attached = False, ip_sem = None, ip_data = room_air\<rparr>"

theorem ipc_init_all_or_nothing_witness:
  "\<exists>s'. ipc_sync_init \<lparr>ic_malloc = True, ic_shmget = True, ic_shmat = True, ic_semget = True, ic_semctl = False, ic_errno = 13\<rparr> 0 nothing_held
     = (s', - 13) \<and> ipc_idle s'"
proof -
  obtain s' ret where r: "ipc_sync_init \<lparr>ic_malloc = True, ic_shmget = True, ic_shmat = True, ic_semget = True, ic_semctl = False, ic_errno = 13\<rparr> 0 nothing_held = (s', ret)"
    by fastforce
  have i: "ipc_idle nothing_held" by (simp add: ipc_idle_def nothing_held_def)
  have "ret = - 13" using r by (auto simp: ipc_sync_init_def nothing_held_def)
  then show ?thesis using ipc_init_all_or_nothing [OF i _ r] r by auto
qed

text \<open>
  C30: what is written is read, and nothing implausible gets through.  With a free semaphore and
  system calls that succeed, writing a plausible record and then reading returns that record and
  leaves the semaphore as it was; a read that returns 0 always delivers a plausible record, and
  a call whose post succeeds never changes the semaphore's value.
\<close>

theorem ipc_write_read_roundtrip:
  assumes "ip_sem s = Some v" "0 < v" "\<not> sensor_data_invalid d"
  shows "\<exists>s1. ipc_sync_write 0 0 e s d = (s1, 0) \<and> ipc_sync_read 0 0 e s1 out = (s1, 0, d) \<and> ip_sem s1 = Some v \<and> ip_data s1 = d
    \<and> (\<forall>t w t' out'. ipc_sync_read w 0 e t out = (t', 0, out') \<and> 0 < e \<longrightarrow> \<not> sensor_data_invalid out' \<and> ip_sem t' = ip_sem t)"
proof -
  have "ipc_sync_read w 0 e t out = (t', 0, out') \<Longrightarrow> 0 < e \<Longrightarrow> \<not> sensor_data_invalid out' \<and> ip_sem t' = ip_sem t" for t w t' out'
    by (auto simp: ipc_sync_read_def sem_timedwait_def sem_post_def Let_def split: option.splits if_splits)
  with assms show ?thesis
    by (auto simp: ipc_sync_write_def ipc_sync_read_def sem_timedwait_def sem_post_def Let_def)
qed

theorem ipc_write_read_roundtrip_witness:
  "\<exists>s1. ipc_sync_write 0 0 5 (nothing_held\<lparr>ip_sem := Some 1\<rparr>) (room_air\<lparr>fd_temp := 30\<rparr>) = (s1, 0)
     \<and> ipc_sync_read 0 0 5 s1 room_air = (s1, 0, room_air\<lparr>fd_temp := 30\<rparr>)"
proof -
  have "\<not> sensor_data_invalid (room_air\<lparr>fd_temp := 30\<rparr>)" by (simp add: sensor_data_invalid_def room_air_def)
  then show ?thesis using ipc_write_read_roundtrip [of "nothing_held\<lparr>ip_sem := Some 1\<rparr>" 1] by fastforce
qed

text \<open>A failed post is reported but leaves the semaphore taken: every later call fails.\<close>

lemma ipc_failed_post_sticks:
  assumes "ip_sem s = Some 1" "\<not> sensor_data_invalid d" "p \<noteq> 0" "ipc_sync_write 0 p e s d = (s1, ret)"
  shows "ret = - e \<and> ip_sem s1 = Some 0 \<and> ipc_sync_write 0 0 e s1 d = (s1, - e)"
  using assms by (auto simp: ipc_sync_write_def sem_timedwait_def sem_post_def Let_def)

end
