(* ===== verification/Fork_Handler.thy ===== *)
theory Fork_Handler
  imports Prelude
begin

text \<open>
  \<open>fork_handler.c\<close>: a group of threads and a fork under a mutex.  The child never returns from
  \<open>fork_handler_fork\<close> (it exits), so the outcome is a sum: the parent's return value, or the
  child's exit with the threads it cancelled.
\<close>

record fork_handler =
  fh_threads :: "tid list"
  fh_running :: int
  fh_locked :: bool

datatype fork_end = Parent int | ChildExit "tid list"

text \<open>
  \<open>fork_handler_init\<close> assigns the result of \<open>malloc\<close> to its own parameter.  The results of the
  allocations and thread creations are inputs; the cleanup after a failed creation frees the
  object again (after joining every thread, created or not).
\<close>

definition fork_handler_init ::
  "addr option \<Rightarrow> bool \<Rightarrow> (nat \<Rightarrow> int) \<Rightarrow> (nat \<Rightarrow> tid) \<Rightarrow> (addr \<rightharpoonup> fork_handler) \<Rightarrow> int \<Rightarrow> (addr \<rightharpoonup> fork_handler) \<times> int" where
  "fork_handler_init malloc alloc_threads pthread_create ids h n =
     (case malloc of
        None \<Rightarrow> (h, - ENOMEM)
      | Some a \<Rightarrow>
          if \<not> alloc_threads then (h(a := None), - ENOMEM)
          else if list_ex (\<lambda>i. pthread_create i \<noteq> 0) [0..<nat n] then (h(a := None), - 1)
          else alloc_local malloc h \<lparr>fh_threads = map ids [0..<nat n], fh_running = 1, fh_locked = False\<rparr>)"

definition fork_handler_destroy :: "(addr \<rightharpoonup> fork_handler) \<Rightarrow> addr \<Rightarrow> (addr \<rightharpoonup> fork_handler)" where
  "fork_handler_destroy h fh = h(fh := None)"

definition cancel_others :: "tid \<Rightarrow> fork_handler \<Rightarrow> tid list" where
  "cancel_others self fh = filter (\<lambda>t. t \<noteq> self) (fh_threads fh)"

definition fork_handler_fork :: "int \<Rightarrow> int \<Rightarrow> int \<Rightarrow> tid \<Rightarrow> fork_handler \<Rightarrow> fork_handler \<times> fork_end" where
  "fork_handler_fork timedlock pid errno self fh =
     (if timedlock \<noteq> 0 then (fh, Parent (- ETIMEDOUT))
      else let fh = fh\<lparr>fh_locked := True\<rparr> in
      if pid = - 1 then (fh\<lparr>fh_locked := False\<rparr>, Parent (- errno))
      else if pid = 0 then (fh\<lparr>fh_locked := False\<rparr>, ChildExit (cancel_others self fh))
      else (fh\<lparr>fh_locked := False\<rparr>, Parent 0))"

text \<open>
  A thread cancelled inside \<open>fork_handler_fork\<close> runs \<open>fork_cleanup\<close>: the result is the handler's state
  and the threads it cancels in turn.  The mutex is not released on this path.
\<close>

definition fork_cleanup :: "tid \<Rightarrow> fork_handler \<Rightarrow> tid list" where
  "fork_cleanup self fh = cancel_others self fh"

definition fork_handler_fork_cancelled :: "tid \<Rightarrow> fork_handler \<Rightarrow> fork_handler \<times> tid list" where
  "fork_handler_fork_cancelled self fh = (let fh = fh\<lparr>fh_locked := True\<rparr> in (fh, fork_cleanup self fh))"

text \<open>The workers: one message per round, for the values of \<open>running\<close> read at the loop test.\<close>

fun worker_thread :: "int list \<Rightarrow> nat" where
  "worker_thread [] = 0"
| "worker_thread (running # rest) = (if running \<noteq> 0 then Suc (worker_thread rest) else 0)"

section \<open>Lemmas\<close>

lemma worker_rounds: "worker_thread (replicate k 1 @ 0 # rest) = k"
  by (induction k) simp_all

lemma fork_cancelled_keeps_mutex:
  "fork_handler_fork_cancelled self fh = (fh', ts) \<Longrightarrow> fh_locked fh' \<and> set ts = set (fh_threads fh) - {self}"
  by (auto simp: fork_handler_fork_cancelled_def fork_cleanup_def cancel_others_def Let_def)

text \<open>
  Every path of the fork releases the mutex; the child cancels every registered thread but
  itself and each once; the parent returns 0 exactly when the fork succeeded.
\<close>

lemma fork_paths:
  assumes "fork_handler_fork tlk pid errno self fh = (fh', r)" "\<not> fh_locked fh" "0 < errno"
  shows "\<not> fh_locked fh' \<and> fh_threads fh' = fh_threads fh \<and> (r = Parent 0 \<longleftrightarrow> tlk = 0 \<and> pid \<noteq> - 1 \<and> pid \<noteq> 0)
    \<and> (\<forall>ts. r = ChildExit ts \<longrightarrow> set ts = set (fh_threads fh) - {self})"
  using assms by (auto simp: fork_handler_fork_def cancel_others_def Let_def split: if_splits)

lemma fork_handler_init_frame: "malloc \<noteq> Some p \<Longrightarrow> fst (fork_handler_init malloc x cr ids h n) p = h p"
  by (auto simp: fork_handler_init_def alloc_local_frame split: option.splits)

end
