(* ===== verification/Rwlock.thy ===== *)
theory Rwlock
  imports Thread_System
begin

text \<open>
  \<open>rwlock.c\<close>: a writer-preferring read-write lock.  The struct is its four counters;
  \<open>rwlock_rdlock\<close> and \<open>rwlock_wrlock\<close> are split at the condition wait of their loops.
  The counters of waiting threads are incremented before the loop and decremented on every
  way out of it, so they count exactly the sleeping threads whenever the mutex is free.
\<close>

record rwlock =
  active_readers :: int
  active_writers :: int
  waiting_readers :: int
  waiting_writers :: int

abbreviation (input) MAX_WAITING_READERS :: int where "MAX_WAITING_READERS \<equiv> 10"
abbreviation (input) MAX_WAITING_WRITERS :: int where "MAX_WAITING_WRITERS \<equiv> 5"

definition rwlock_new :: rwlock where
  "rwlock_new = \<lparr>active_readers = 0, active_writers = 0, waiting_readers = 0, waiting_writers = 0\<rparr>"

definition rwlock_init :: "addr option \<Rightarrow> (addr \<rightharpoonup> rwlock) \<Rightarrow> addr \<Rightarrow> (addr \<rightharpoonup> rwlock) \<times> int" where
  "rwlock_init m h rwl = alloc_local m h rwlock_new"

definition rwlock_destroy :: "(addr \<rightharpoonup> rwlock) \<Rightarrow> addr \<Rightarrow> (addr \<rightharpoonup> rwlock)" where
  "rwlock_destroy h rwl = h(rwl := None)"

text \<open>The loop of \<open>rwlock_rdlock\<close> from its test on, with this thread already counted as waiting.\<close>

definition rdlock_loop :: "rwlock \<Rightarrow> rwlock \<times> outcome" where
  [seg_defs]: "rdlock_loop l =
     (if active_writers l \<noteq> 0 \<or> waiting_writers l \<noteq> 0 then (l, Block)
      else let l' = l\<lparr>waiting_readers := wrap32 (waiting_readers l - 1),
                     active_readers := wrap32 (active_readers l + 1)\<rparr>
           in if active_readers l' < 0 \<or> active_writers l' < 0 then (l', Ret (- EINVAL)) else (l', Ret 0))"

definition rwlock_rdlock :: "rwlock \<Rightarrow> rwlock \<times> outcome" where
  [seg_defs]: "rwlock_rdlock l =
     (if waiting_readers l \<ge> MAX_WAITING_READERS then (l, Ret (- EAGAIN))
      else rdlock_loop (l\<lparr>waiting_readers := wrap32 (waiting_readers l + 1)\<rparr>))"

definition rwlock_rdlock_woken :: "int \<Rightarrow> rwlock \<Rightarrow> rwlock \<times> outcome" where
  [seg_defs]: "rwlock_rdlock_woken ret l =
     (if ret = ETIMEDOUT then (l\<lparr>waiting_readers := wrap32 (waiting_readers l - 1)\<rparr>, Ret (- ETIMEDOUT))
      else if ret \<noteq> 0 then (l\<lparr>waiting_readers := wrap32 (waiting_readers l - 1)\<rparr>, Ret ret)
      else rdlock_loop l)"

definition wrlock_loop :: "rwlock \<Rightarrow> rwlock \<times> outcome" where
  [seg_defs]: "wrlock_loop l =
     (if active_readers l \<noteq> 0 \<or> active_writers l \<noteq> 0 then (l, Block)
      else let l' = l\<lparr>waiting_writers := wrap32 (waiting_writers l - 1),
                     active_writers := wrap32 (active_writers l + 1)\<rparr>
           in if active_readers l' < 0 \<or> active_writers l' < 0 then (l', Ret (- EINVAL)) else (l', Ret 0))"

definition rwlock_wrlock :: "rwlock \<Rightarrow> rwlock \<times> outcome" where
  [seg_defs]: "rwlock_wrlock l =
     (if waiting_writers l \<ge> MAX_WAITING_WRITERS then (l, Ret (- EAGAIN))
      else wrlock_loop (l\<lparr>waiting_writers := wrap32 (waiting_writers l + 1)\<rparr>))"

definition rwlock_wrlock_woken :: "int \<Rightarrow> rwlock \<Rightarrow> rwlock \<times> outcome" where
  [seg_defs]: "rwlock_wrlock_woken ret l =
     (if ret = ETIMEDOUT then (l\<lparr>waiting_writers := wrap32 (waiting_writers l - 1)\<rparr>, Ret (- ETIMEDOUT))
      else if ret \<noteq> 0 then (l\<lparr>waiting_writers := wrap32 (waiting_writers l - 1)\<rparr>, Ret ret)
      else wrlock_loop l)"

text \<open>Which condition variable \<open>rwlock_unlock\<close> notifies.\<close>

datatype notify = NoNotify | SignalWriter | BroadcastReaders

definition rwlock_unlock_notify :: "rwlock \<Rightarrow> notify" where
  "rwlock_unlock_notify l =
     (if active_writers l \<noteq> 0 then (if waiting_writers l \<noteq> 0 then SignalWriter else BroadcastReaders)
      else if active_readers l \<noteq> 0
      then (if wrap32 (active_readers l - 1) = 0 \<and> waiting_writers l \<noteq> 0 then SignalWriter else NoNotify)
      else NoNotify)"

definition rwlock_unlock :: "rwlock \<Rightarrow> rwlock \<times> outcome" where
  [seg_defs]: "rwlock_unlock l =
     (let check = (\<lambda>l'. if active_readers l' < 0 \<or> active_writers l' < 0 then (l', Ret (- EINVAL)) else (l', Ret 0))
      in if active_writers l \<noteq> 0 then check (l\<lparr>active_writers := wrap32 (active_writers l - 1)\<rparr>)
         else if active_readers l \<noteq> 0 then check (l\<lparr>active_readers := wrap32 (active_readers l - 1)\<rparr>)
         else (l, Ret (- EPERM)))"

section \<open>Threads using the lock\<close>

text \<open>The client: lock for reading or writing, then unlock once if the lock call returned 0.\<close>

datatype rw_op = RdLock | WrLock | RwUnlock
datatype rw_loc = NoLock | Reading | Writing

fun rw_enter :: "tid \<Rightarrow> rw_op \<Rightarrow> rwlock \<Rightarrow> rwlock \<times> outcome" where
  "rw_enter t RdLock l = rwlock_rdlock l"
| "rw_enter t WrLock l = rwlock_wrlock l"
| "rw_enter t RwUnlock l = rwlock_unlock l"

fun rw_resume :: "tid \<Rightarrow> rw_op \<Rightarrow> int \<Rightarrow> rwlock \<Rightarrow> rwlock \<times> outcome" where
  "rw_resume t RdLock r l = rwlock_rdlock_woken r l"
| "rw_resume t WrLock r l = rwlock_wrlock_woken r l"
| "rw_resume t RwUnlock r l = (l, Block)"

fun rw_may :: "rw_loc \<Rightarrow> rw_op \<Rightarrow> bool" where
  "rw_may x RwUnlock = (x \<noteq> NoLock)"
| "rw_may x _ = (x = NoLock)"

fun rw_after :: "rw_loc \<Rightarrow> rw_op \<Rightarrow> int \<Rightarrow> rw_loc" where
  "rw_after x RdLock r = (if r = 0 then Reading else x)"
| "rw_after x WrLock r = (if r = 0 then Writing else x)"
| "rw_after x RwUnlock r = (if r = 0 then NoLock else x)"

definition rw_comp :: "(rwlock, rw_loc, rw_op) comp" where
  "rw_comp = \<lparr>c_enter = rw_enter, c_resume = rw_resume, c_may = rw_may, c_after = rw_after\<rparr>"

lemma rw_comp_sel [simp]:
  "c_enter rw_comp = rw_enter" "c_resume rw_comp = rw_resume" "c_may rw_comp = rw_may" "c_after rw_comp = rw_after"
  by (simp_all add: rw_comp_def)

type_synonym rw_sys = "(rwlock, rw_loc, rw_op) sys"

text \<open>
  The invariant: each counter is the number of threads it counts, readers and writers exclude
  each other, there is at most one writer, the waiting counters respect their caps, and only
  a thread that holds nothing sleeps.
\<close>

definition rw_inv :: "tid set \<Rightarrow> rw_sys \<Rightarrow> bool" where
  "rw_inv T \<sigma> \<longleftrightarrow> (let l = shared \<sigma> in
     active_readers l = lcount T Reading \<sigma> \<and> active_writers l = lcount T Writing \<sigma>
     \<and> waiting_readers l = bcount T RdLock \<sigma> \<and> waiting_writers l = bcount T WrLock \<sigma>
     \<and> active_writers l \<le> 1 \<and> (active_writers l = 1 \<longrightarrow> active_readers l = 0)
     \<and> waiting_readers l \<le> MAX_WAITING_READERS \<and> waiting_writers l \<le> MAX_WAITING_WRITERS)
     \<and> (\<forall>t. blocked \<sigma> t \<noteq> Some RwUnlock \<and> (blocked \<sigma> t \<noteq> None \<longrightarrow> loc \<sigma> t = NoLock))"

lemma rw_inv_ranges:
  assumes "finite T" "int (card T) < INT_MAX" "rw_inv T \<sigma>"
  shows "0 \<le> lcount T Reading \<sigma>" "lcount T Reading \<sigma> < INT_MAX" "0 \<le> lcount T Writing \<sigma>"
    "0 \<le> bcount T RdLock \<sigma>" "0 \<le> bcount T WrLock \<sigma>"
  using assms lcount_le_card [OF assms(1), of Reading \<sigma>] by (auto simp: lcount_nonneg bcount_nonneg)

lemma rw_inv_rdlock:
  assumes "finite T" "int (card T) < INT_MAX" "t \<in> T" "rw_inv T \<sigma>" "blocked \<sigma> t = None" "loc \<sigma> t = NoLock"
  shows "rw_inv T (settle rw_comp t RdLock (rwlock_rdlock (shared \<sigma>)) \<sigma>)"
  using assms rw_inv_ranges [OF assms(1,2,4)] by (auto simp: rw_inv_def seg_defs Let_def)

lemma rw_inv_wrlock:
  assumes "finite T" "int (card T) < INT_MAX" "t \<in> T" "rw_inv T \<sigma>" "blocked \<sigma> t = None" "loc \<sigma> t = NoLock"
  shows "rw_inv T (settle rw_comp t WrLock (rwlock_wrlock (shared \<sigma>)) \<sigma>)"
  using assms rw_inv_ranges [OF assms(1,2,4)] by (auto simp: rw_inv_def seg_defs Let_def)

lemma rw_inv_rdlock_woken:
  assumes "finite T" "int (card T) < INT_MAX" "t \<in> T" "rw_inv T \<sigma>" "blocked \<sigma> t = Some RdLock" "0 \<le> r"
  shows "rw_inv T (settle rw_comp t RdLock (rwlock_rdlock_woken r (shared \<sigma>)) \<sigma>)"
  using assms rw_inv_ranges [OF assms(1,2,4)] bcount_pos [OF assms(1,3,5)]
  by (auto simp: rw_inv_def seg_defs Let_def)

lemma rw_inv_wrlock_woken:
  assumes "finite T" "int (card T) < INT_MAX" "t \<in> T" "rw_inv T \<sigma>" "blocked \<sigma> t = Some WrLock" "0 \<le> r"
  shows "rw_inv T (settle rw_comp t WrLock (rwlock_wrlock_woken r (shared \<sigma>)) \<sigma>)"
  using assms rw_inv_ranges [OF assms(1,2,4)] bcount_pos [OF assms(1,3,5)]
  by (auto simp: rw_inv_def seg_defs Let_def)

lemma rw_inv_unlock:
  assumes "finite T" "int (card T) < INT_MAX" "t \<in> T" "rw_inv T \<sigma>" "blocked \<sigma> t = None" "loc \<sigma> t \<noteq> NoLock"
  shows "rw_inv T (settle rw_comp t RwUnlock (rwlock_unlock (shared \<sigma>)) \<sigma>)"
  using assms rw_inv_ranges [OF assms(1,2,4)] lcount_pos [OF assms(1,3) refl, of \<sigma>]
  by (cases "loc \<sigma> t") (auto simp: rw_inv_def seg_defs Let_def)

lemma rw_inv_blocked: "\<lbrakk>rw_inv T \<sigma>; blocked \<sigma> t = Some op\<rbrakk> \<Longrightarrow> op \<noteq> RwUnlock"
  by (auto simp: rw_inv_def)

interpretation rw: thread_invariant rw_comp T "start rwlock_new NoLock"
    "\<lambda>\<sigma>. finite T \<and> int (card T) < INT_MAX \<longrightarrow> rw_inv T \<sigma>" for T
proof (unfold_locales, goal_cases)
  case 1 show ?case by (simp add: rw_inv_def rwlock_new_def)
next
  case (2 \<sigma> t op)
  then show ?case by (cases op) (auto simp: rw_inv_rdlock rw_inv_wrlock rw_inv_unlock)
next
  case (3 \<sigma> t op r)
  then show ?case using rw_inv_blocked [of T \<sigma> t op]
    by (cases op) (auto simp: rw_inv_rdlock_woken rw_inv_wrlock_woken)
qed

section \<open>Properties\<close>

lemma rw_reach_inv:
  "\<lbrakk>reaches rw_comp T (start rwlock_new NoLock) \<sigma>; finite T; int (card T) < INT_MAX\<rbrakk> \<Longrightarrow> rw_inv T \<sigma>"
  using rw.inv_reaches by blast

text \<open>A run used by the witnesses: thread 0 reads, writer 1 and then reader 2 go to sleep.\<close>

definition rw_run1 :: rw_sys where
  "rw_run1 = settle rw_comp 2 RdLock (\<lparr>active_readers = 1, active_writers = 0, waiting_readers = 1, waiting_writers = 1\<rparr>, Block)
     (settle rw_comp 1 WrLock (\<lparr>active_readers = 1, active_writers = 0, waiting_readers = 0, waiting_writers = 1\<rparr>, Block)
       (settle rw_comp 0 RdLock (\<lparr>active_readers = 1, active_writers = 0, waiting_readers = 0, waiting_writers = 0\<rparr>, Ret 0)
         (start rwlock_new NoLock)))"

lemma rw_run1_eval:
  "run rw_comp {0, 1, 2} [Call 0 RdLock, Call 1 WrLock, Call 2 RdLock] (start rwlock_new NoLock) = Some rw_run1"
  by (simp add: rw_run1_def seg_defs rwlock_new_def Let_def)

lemmas rw_run1_reached = run_reaches [OF rw_run1_eval reach_refl]

text \<open>
  C1: readers and writers exclude each other.  In every reachable state of any number of
  threads, a thread that holds the write lock is the only thread holding the lock at all.
\<close>

theorem rwlock_exclusion:
  assumes "reaches rw_comp T (start rwlock_new NoLock) \<sigma>" "finite T" "int (card T) < INT_MAX"
    and "t \<in> T" "u \<in> T" "loc \<sigma> t = Writing" "loc \<sigma> u \<noteq> NoLock"
  shows "t = u"
proof -
  have inv: "rw_inv T \<sigma>" using assms by (auto intro: rw_reach_inv)
  have "active_writers (shared \<sigma>) = 1"
    using inv lcount_pos [OF assms(2,4,6)] by (auto simp: rw_inv_def Let_def)
  then have "lcount T Reading \<sigma> = 0" "lcount T Writing \<sigma> \<le> 1" using inv by (auto simp: rw_inv_def Let_def)
  then show ?thesis using assms lcount_zero [OF assms(2), of Reading \<sigma> u]
    by (cases "loc \<sigma> u") (auto intro: lcount_one)
qed

theorem rwlock_exclusion_witness:
  "\<exists>\<sigma>. reaches rw_comp {0, 1} (start rwlock_new NoLock) \<sigma> \<and> loc \<sigma> 0 = Writing \<and> loc \<sigma> 1 = NoLock"
proof -
  let ?\<sigma> = "settle rw_comp 0 WrLock (rwlock_new\<lparr>active_writers := 1\<rparr>, Ret 0) (start rwlock_new NoLock)"
  have "run rw_comp {0, 1} [Call 0 WrLock] (start rwlock_new NoLock) = Some ?\<sigma>"
    by (simp add: seg_defs rwlock_new_def Let_def)
  then have reach: "reaches rw_comp {0, 1} (start rwlock_new NoLock) ?\<sigma>" by (rule run_reaches [OF _ reach_refl])
  moreover have "loc ?\<sigma> 1 = NoLock" using rwlock_exclusion [OF reach, of 0 1] by fastforce
  ultimately show ?thesis by (intro exI [of _ ?\<sigma>]) simp
qed

text \<open>
  C10: the counters are exact and bounded.  In every reachable state \<open>active_readers\<close> and
  \<open>active_writers\<close> are the numbers of threads holding the lock, \<open>waiting_readers\<close> and
  \<open>waiting_writers\<close> the numbers of sleeping threads, and the waiting counters never pass
  their caps of 10 and 5, whatever timeouts, errors and spurious wake-ups occur.
\<close>

theorem rwlock_counters_exact:
  assumes "reaches rw_comp T (start rwlock_new NoLock) \<sigma>" "finite T" "int (card T) < INT_MAX"
  shows "active_readers (shared \<sigma>) = lcount T Reading \<sigma> \<and> active_writers (shared \<sigma>) = lcount T Writing \<sigma>
    \<and> waiting_readers (shared \<sigma>) = bcount T RdLock \<sigma> \<and> waiting_writers (shared \<sigma>) = bcount T WrLock \<sigma>
    \<and> waiting_readers (shared \<sigma>) \<le> MAX_WAITING_READERS \<and> waiting_writers (shared \<sigma>) \<le> MAX_WAITING_WRITERS"
  using rw_reach_inv [OF assms] by (simp add: rw_inv_def Let_def)

theorem rwlock_counters_exact_witness:
  "lcount {0, 1, 2} Reading rw_run1 = 1 \<and> bcount {0, 1, 2} RdLock rw_run1 = 1 \<and> bcount {0, 1, 2} WrLock rw_run1 = 1"
  using rwlock_counters_exact [OF rw_run1_reached] by (simp add: rw_run1_def)

text \<open>
  C39: unlocking what one holds succeeds and gives back exactly that hold.  In every reachable
  state, for a thread holding the lock, \<open>rwlock_unlock\<close> returns 0 and lowers the counter of
  that kind of hold by one; on an idle lock it returns \<open>-EPERM\<close> and changes nothing.
\<close>

theorem rwlock_unlock_correct:
  assumes "reaches rw_comp T (start rwlock_new NoLock) \<sigma>" "finite T" "int (card T) < INT_MAX"
    and "t \<in> T" "loc \<sigma> t \<noteq> NoLock" "shared \<sigma> = l"
  shows "rwlock_unlock l = (case loc \<sigma> t of
            Writing \<Rightarrow> (l\<lparr>active_writers := 0\<rparr>, Ret 0)
          | _ \<Rightarrow> (l\<lparr>active_readers := active_readers l - 1\<rparr>, Ret 0))
    \<and> rwlock_unlock rwlock_new = (rwlock_new, Ret (- EPERM))"
proof -
  have inv: "rw_inv T \<sigma>" using assms by (auto intro: rw_reach_inv)
  show ?thesis
    using inv rw_inv_ranges [OF assms(2,3) inv] lcount_pos [OF assms(2,4) refl, of \<sigma>] assms(5,6)
    by (cases "loc \<sigma> t") (auto simp: rw_inv_def seg_defs Let_def rwlock_new_def)
qed

theorem rwlock_unlock_correct_witness:
  "rwlock_unlock (shared rw_run1) = ((shared rw_run1)\<lparr>active_readers := 0\<rparr>, Ret 0)"
  using rwlock_unlock_correct [OF rw_run1_reached, of 0] by (simp add: rw_run1_def)

text \<open>
  A lost wake-up.  There is a run in which the only waiting writer times out, the last
  reader then unlocks without notifying anyone, and afterwards a reader is still asleep
  although no thread holds the lock and no writer waits: it sleeps until its own timeout.
\<close>

theorem rwlock_lost_wakeup:
  "\<exists>\<sigma> \<sigma>'. reaches rw_comp {0, 1, 2} (start rwlock_new NoLock) \<sigma>
     \<and> rwlock_unlock_notify (shared \<sigma>) = NoNotify
     \<and> act_step rw_comp {0, 1, 2} (Call 0 RwUnlock) \<sigma> = Some \<sigma>'
     \<and> active_readers (shared \<sigma>') = 0 \<and> active_writers (shared \<sigma>') = 0 \<and> waiting_writers (shared \<sigma>') = 0
     \<and> blocked \<sigma>' 2 = Some RdLock"
proof -
  let ?\<sigma> = "settle rw_comp 1 WrLock (\<lparr>active_readers = 1, active_writers = 0, waiting_readers = 1, waiting_writers = 0\<rparr>, Ret (- ETIMEDOUT)) rw_run1"
  have "run rw_comp {0, 1, 2} [Wake 1 ETIMEDOUT] rw_run1 = Some ?\<sigma>"
    by (simp add: rw_run1_def seg_defs)
  then have "reaches rw_comp {0, 1, 2} (start rwlock_new NoLock) ?\<sigma>"
    by (rule run_reaches [OF _ rw_run1_reached])
  moreover let ?\<sigma>' = "settle rw_comp 0 RwUnlock (\<lparr>active_readers = 0, active_writers = 0, waiting_readers = 1, waiting_writers = 0\<rparr>, Ret 0) ?\<sigma>"
  have "act_step rw_comp {0, 1, 2} (Call 0 RwUnlock) ?\<sigma> = Some ?\<sigma>'"
    by (simp add: rw_run1_def seg_defs Let_def)
  ultimately show ?thesis
    by (intro exI [of _ ?\<sigma>] exI [of _ ?\<sigma>']) (simp add: rw_run1_def rwlock_unlock_notify_def)
qed

end
