(* ===== verification/Bme680_Config.thy ===== *)
theory Bme680_Config
  imports Rwlock
begin

text \<open>
  \<open>bme680_config.c\<close>: the oversampling settings behind a read-write lock.  \<open>rwlock_timedwrlock\<close> and
  \<open>bme680_set_sensor_settings\<close> are called but defined nowhere in the repository; they are
  parameters.  \<open>Block\<close> means that the calling thread sleeps in the lock.
\<close>

record bme680_config =
  cf_dev :: addr
  cf_rwlock :: rwlock
  cf_oversampling_temp :: u8
  cf_oversampling_press :: u8
  cf_oversampling_hum :: u8

text \<open>\<open>rwlock_init\<close> builds its own object; the lock inside the struct stays as \<open>malloc\<close> returned it (\<open>raw\<close>).\<close>

definition bme680_config_init :: "bool \<Rightarrow> bme680_config \<Rightarrow> addr \<Rightarrow> int + bme680_config" where
  "bme680_config_init alloc raw dev = (if \<not> alloc then Inl (- ENOMEM) else Inr (raw\<lparr>cf_dev := dev\<rparr>))"

definition bme680_config_destroy :: "(addr \<rightharpoonup> bme680_config) \<Rightarrow> addr \<Rightarrow> (addr \<rightharpoonup> bme680_config)" where
  "bme680_config_destroy h c = h(c := None)"

text \<open>
  The three setters of one oversampling value differ in the setting they name only; the result of
  the lock call is ignored.
\<close>

definition config_set :: "(addr \<Rightarrow> nat \<Rightarrow> u8 \<Rightarrow> int) \<Rightarrow> nat \<Rightarrow> u8 \<Rightarrow> bme680_config \<Rightarrow> bme680_config \<times> outcome" where
  "config_set set_sensor_settings what os c =
     (case rwlock_wrlock (cf_rwlock c) of
        (l, Block) \<Rightarrow> (c\<lparr>cf_rwlock := l\<rparr>, Block)
      | (l, Ret r) \<Rightarrow> (c\<lparr>cf_rwlock := fst (rwlock_unlock l)\<rparr>, Ret (set_sensor_settings (cf_dev c) what os)))"

definition bme680_config_set_temp_oversampling where
  "bme680_config_set_temp_oversampling set_sensor_settings BME680_OS_TEMP os c = config_set set_sensor_settings BME680_OS_TEMP os c"

definition bme680_config_set_pressure_oversampling where
  "bme680_config_set_pressure_oversampling set_sensor_settings BME680_OS_PRESS os c = config_set set_sensor_settings BME680_OS_PRESS os c"

definition bme680_config_set_humidity_oversampling where
  "bme680_config_set_humidity_oversampling set_sensor_settings BME680_OS_HUM os c = config_set set_sensor_settings BME680_OS_HUM os c"

definition bme680_config_set_oversampling ::
  "(rwlock \<Rightarrow> rwlock \<times> int) \<Rightarrow> u8 \<Rightarrow> u8 \<Rightarrow> u8 \<Rightarrow> bme680_config \<Rightarrow> bme680_config \<times> int" where
  "bme680_config_set_oversampling timedwrlock temp press hum c =
     (case timedwrlock (cf_rwlock c) of (l, r) \<Rightarrow>
        if r \<noteq> 0 then (c\<lparr>cf_rwlock := l\<rparr>, - ETIMEDOUT)
        else if temp < 0 \<or> temp > 16 \<or> press < 0 \<or> press > 16 \<or> hum < 0 \<or> hum > 16
          then (c\<lparr>cf_rwlock := fst (rwlock_unlock l)\<rparr>, - EINVAL)
          else (c\<lparr>cf_oversampling_temp := temp, cf_oversampling_press := press, cf_oversampling_hum := hum,
                  cf_rwlock := fst (rwlock_unlock l)\<rparr>, 0))"

definition bme680_config_get_oversampling :: "bme680_config \<Rightarrow> bme680_config \<times> outcome \<times> (u8 \<times> u8 \<times> u8) option" where
  "bme680_config_get_oversampling c =
     (case rwlock_rdlock (cf_rwlock c) of
        (l, Block) \<Rightarrow> (c\<lparr>cf_rwlock := l\<rparr>, Block, None)
      | (l, Ret r) \<Rightarrow> (c\<lparr>cf_rwlock := fst (rwlock_unlock l)\<rparr>, Ret 0,
            Some (cf_oversampling_temp c, cf_oversampling_press c, cf_oversampling_hum c)))"

section \<open>Properties\<close>

text \<open>
  Oversampling settings survive a round trip.  When the lock is idle and the timed write
  lock behaves like the lock's own write lock, setting three values of at most 16 succeeds and
  the next get returns them, with the lock idle again; a value above 16 is refused with
  \<open>-EINVAL\<close> and the settings stay.
\<close>

theorem config_oversampling_roundtrip:
  assumes "cf_rwlock c = rwlock_new" "timedwrlock rwlock_new = (fst (rwlock_wrlock rwlock_new), 0)"
    "bme680_config_set_oversampling timedwrlock temp press hum c = (c', ret)"
  shows "(if temp \<le> 16 \<and> press \<le> 16 \<and> hum \<le> 16
     then ret = 0 \<and> bme680_config_get_oversampling c' = (c', Ret 0, Some (temp, press, hum))
     else ret = - EINVAL \<and> c' = c) \<and> cf_rwlock c' = rwlock_new"
proof -
  have l: "fst (rwlock_unlock (fst (rwlock_wrlock rwlock_new))) = rwlock_new"
    "rwlock_rdlock rwlock_new = (fst (rwlock_rdlock rwlock_new), Ret 0)" "fst (rwlock_unlock (fst (rwlock_rdlock rwlock_new))) = rwlock_new"
    by (simp_all add: rwlock_new_def seg_defs)
  have neg: "\<not> x < (0 :: u8)" for x by (simp add: word_less_alt)
  show ?thesis
    using assms(3) l assms(1)
    by (auto simp: bme680_config_set_oversampling_def bme680_config_get_oversampling_def assms(1,2) neg not_le split: if_splits prod.splits)
qed

theorem config_oversampling_roundtrip_witness:
  "\<exists>c'. bme680_config_set_oversampling (\<lambda>l. (fst (rwlock_wrlock l), 0)) 8 4 2
       \<lparr>cf_dev = 1, cf_rwlock = rwlock_new, cf_oversampling_temp = 0, cf_oversampling_press = 0, cf_oversampling_hum = 0\<rparr> = (c', 0)
     \<and> bme680_config_get_oversampling c' = (c', Ret 0, Some (8, 4, 2))"
proof -
  let ?c = "\<lparr>cf_dev = 1, cf_rwlock = rwlock_new, cf_oversampling_temp = 0, cf_oversampling_press = 0, cf_oversampling_hum = 0\<rparr>"
  obtain c' ret where r: "bme680_config_set_oversampling (\<lambda>l. (fst (rwlock_wrlock l), 0)) 8 4 2 ?c = (c', ret)" by fastforce
  from config_oversampling_roundtrip [OF _ _ r] r show ?thesis by auto
qed

end
