(* ===== verification/Bme680_Header.thy ===== *)
theory Bme680_Header
  imports Prelude
begin

unbundle bit_operations_syntax

text \<open>
  \<open>bme680.h\<close>: the enumerations, the register addresses, the field masks, the layout of the structs
  that cross an interface, and the ioctl numbers.  The kernel macros \<open>GENMASK\<close>, \<open>BIT\<close>, \<open>_IOW\<close> and
  \<open>_IOR\<close> are parameters.
\<close>

section \<open>Enumerations\<close>

datatype bme680_mode_t = MODE_SLEEP | MODE_FORCED | MODE_CONTINUOUS

fun mode_t_val :: "bme680_mode_t \<Rightarrow> int" where
  "mode_t_val MODE_SLEEP = 0"
| "mode_t_val MODE_FORCED = 1"
| "mode_t_val MODE_CONTINUOUS = 2"

datatype bme680_oversampling_t = OVERSAMPLING_SKIP | OVERSAMPLING_X1 | OVERSAMPLING_X2 | OVERSAMPLING_X4 | OVERSAMPLING_X8 | OVERSAMPLING_X16

fun oversampling_val :: "bme680_oversampling_t \<Rightarrow> int" where
  "oversampling_val OVERSAMPLING_SKIP = 0"
| "oversampling_val OVERSAMPLING_X1 = 1"
| "oversampling_val OVERSAMPLING_X2 = 2"
| "oversampling_val OVERSAMPLING_X4 = 3"
| "oversampling_val OVERSAMPLING_X8 = 4"
| "oversampling_val OVERSAMPLING_X16 = 5"

datatype bme680_filter_t = FILTER_OFF | FILTER_COEFF_1 | FILTER_COEFF_3 | FILTER_COEFF_7 | FILTER_COEFF_15
  | FILTER_COEFF_31 | FILTER_COEFF_63 | FILTER_COEFF_127

fun filter_val :: "bme680_filter_t \<Rightarrow> int" where
  "filter_val FILTER_OFF = 0"
| "filter_val FILTER_COEFF_1 = 1"
| "filter_val FILTER_COEFF_3 = 2"
| "filter_val FILTER_COEFF_7 = 3"
| "filter_val FILTER_COEFF_15 = 4"
| "filter_val FILTER_COEFF_31 = 5"
| "filter_val FILTER_COEFF_63 = 6"
| "filter_val FILTER_COEFF_127 = 7"

section \<open>Registers\<close>

abbreviation (input) BME680_REG_CHIP_ID :: u8 where "BME680_REG_CHIP_ID \<equiv> 0xD0"
abbreviation (input) BME680_REG_SOFT_RESET :: u8 where "BME680_REG_SOFT_RESET \<equiv> 0xE0"
abbreviation (input) BME680_CMD_SOFTRESET :: u8 where "BME680_CMD_SOFTRESET \<equiv> 0xB6"
abbreviation (input) BME680_REG_STATUS :: u8 where "BME680_REG_STATUS \<equiv> 0x73"
abbreviation (input) BME680_REG_CTRL_HUM :: u8 where "BME680_REG_CTRL_HUM \<equiv> 0x72"
abbreviation (input) BME680_REG_CTRL_MEAS :: u8 where "BME680_REG_CTRL_MEAS \<equiv> 0x74"
abbreviation (input) BME680_REG_CONFIG :: u8 where "BME680_REG_CONFIG \<equiv> 0x75"
abbreviation (input) BME680_REG_CTRL_GAS_1 :: u8 where "BME680_REG_CTRL_GAS_1 \<equiv> 0x71"
abbreviation (input) BME680_REG_GAS_WAIT_0 :: u8 where "BME680_REG_GAS_WAIT_0 \<equiv> 0x64"
abbreviation (input) BME680_REG_RES_HEAT_0 :: u8 where "BME680_REG_RES_HEAT_0 \<equiv> 0x5A"
abbreviation (input) BME680_NEW_DATA_MSK :: u8 where "BME680_NEW_DATA_MSK \<equiv> 0x80"
abbreviation (input) BME680_GAS_RANGE_MASK :: u8 where "BME680_GAS_RANGE_MASK \<equiv> 0x0F"

text \<open>All registers of the header, by name.\<close>

datatype bme680_reg = REG_CHIP_ID | REG_SOFT_RESET | REG_STATUS | REG_CTRL_HUM | REG_CTRL_MEAS | REG_CONFIG | REG_CTRL_GAS_1
  | REG_GAS_WAIT_0 | REG_RES_HEAT_0 | REG_IDAC_HEAT_0 | REG_TEMP_MSB | REG_TEMP_LSB | REG_TEMP_XLSB
  | REG_PRESS_MSB | REG_PRESS_LSB | REG_PRESS_XLSB | REG_HUM_MSB | REG_HUM_LSB | REG_GAS_R_MSB | REG_GAS_R_LSB
  | REG_MEAS_STAT_0 | REG_CTRL_GAS_0 | REG_VARIANT_ID

fun reg_addr :: "bme680_reg \<Rightarrow> u8" where
  "reg_addr REG_CHIP_ID = BME680_REG_CHIP_ID"
| "reg_addr REG_SOFT_RESET = BME680_REG_SOFT_RESET"
| "reg_addr REG_STATUS = BME680_REG_STATUS"
| "reg_addr REG_CTRL_HUM = BME680_REG_CTRL_HUM"
| "reg_addr REG_CTRL_MEAS = BME680_REG_CTRL_MEAS"
| "reg_addr REG_CONFIG = BME680_REG_CONFIG"
| "reg_addr REG_CTRL_GAS_1 = BME680_REG_CTRL_GAS_1"
| "reg_addr REG_GAS_WAIT_0 = BME680_REG_GAS_WAIT_0"
| "reg_addr REG_RES_HEAT_0 = BME680_REG_RES_HEAT_0"
| "reg_addr REG_IDAC_HEAT_0 = 0x50"
| "reg_addr REG_TEMP_MSB = 0x22"
| "reg_addr REG_TEMP_LSB = 0x23"
| "reg_addr REG_TEMP_XLSB = 0x24"
| "reg_addr REG_PRESS_MSB = 0x1F"
| "reg_addr REG_PRESS_LSB = 0x20"
| "reg_addr REG_PRESS_XLSB = 0x21"
| "reg_addr REG_HUM_MSB = 0x25"
| "reg_addr REG_HUM_LSB = 0x26"
| "reg_addr REG_GAS_R_MSB = 0x2A"
| "reg_addr REG_GAS_R_LSB = 0x2B"
| "reg_addr REG_MEAS_STAT_0 = 0x1D"
| "reg_addr REG_CTRL_GAS_0 = 0x70"
| "reg_addr REG_VARIANT_ID = 0xF0"

text \<open>The calibration blocks: first register and length.\<close>

definition coeff_block :: "nat \<Rightarrow> nat \<times> nat" where
  "coeff_block i = (if i = 1 then (0x89, 25) else if i = 2 then (0x8A, 16) else (0xE1, 8))"

definition BME680_LEN_COEFF_ALL :: nat where
  "BME680_LEN_COEFF_ALL = snd (coeff_block 1) + snd (coeff_block 2) + snd (coeff_block 3)"

definition BME680_NUM_BULK_READ_REGS :: nat where
  "BME680_NUM_BULK_READ_REGS = 15"

section \<open>Field masks\<close>

text \<open>
  The masks written with \<open>GENMASK\<close> and \<open>BIT\<close>, and the second set written as numbers.  What is relied
  on of the macros: \<open>GENMASK(h, l)\<close> has the bits \<open>l\<close> to \<open>h\<close>, \<open>BIT(n)\<close> the bit \<open>n\<close>.
\<close>

datatype bme680_mask = OSRS_HUM_MSK | OSRS_TEMP_MSK | OSRS_PRESS_MSK | MODE_MSK | FILTER_MSK | RUN_GAS_MSK | NB_CONV_MSK
  | GAS_STAB_BIT | GAS_RANGE_MASK | NEW_DATA_MSK | GAS_MEAS_BIT | MEAS_BIT | ADC_GAS_RES | MEAS_TRIM_MSK

fun mask_val :: "(nat \<Rightarrow> nat \<Rightarrow> u64) \<Rightarrow> (nat \<Rightarrow> u64) \<Rightarrow> bme680_mask \<Rightarrow> u64" where
  "mask_val GENMASK BIT OSRS_HUM_MSK = GENMASK 2 0"
| "mask_val GENMASK BIT OSRS_TEMP_MSK = GENMASK 7 5"
| "mask_val GENMASK BIT OSRS_PRESS_MSK = GENMASK 4 2"
| "mask_val GENMASK BIT MODE_MSK = GENMASK 1 0"
| "mask_val GENMASK BIT FILTER_MSK = GENMASK 4 2"
| "mask_val GENMASK BIT RUN_GAS_MSK = BIT 4"
| "mask_val GENMASK BIT NB_CONV_MSK = GENMASK 3 0"
| "mask_val GENMASK BIT GAS_STAB_BIT = BIT 4"
| "mask_val GENMASK BIT GAS_RANGE_MASK = GENMASK 3 0"
| "mask_val GENMASK BIT NEW_DATA_MSK = BIT 7"
| "mask_val GENMASK BIT GAS_MEAS_BIT = BIT 6"
| "mask_val GENMASK BIT MEAS_BIT = BIT 5"
| "mask_val GENMASK BIT ADC_GAS_RES = GENMASK 9 0"
| "mask_val GENMASK BIT MEAS_TRIM_MSK = GENMASK 24 4"

definition BME680_OST_MSK :: u64 where "BME680_OST_MSK = 0xE0"
definition BME680_OST_POS :: nat where "BME680_OST_POS = 5"
definition BME680_OSP_MSK :: u64 where "BME680_OSP_MSK = 0x1C"
definition BME680_OSP_POS :: nat where "BME680_OSP_POS = 2"
definition BME680_OSH_MSK :: u64 where "BME680_OSH_MSK = 0x07"
definition BME680_NBCONV_MSK :: u64 where "BME680_NBCONV_MSK = 0x0F"
definition BME680_RUN_GAS_POS :: nat where "BME680_RUN_GAS_POS = 4"
definition BME680_FILTER_POS :: nat where "BME680_FILTER_POS = 2"

lemmas mask_consts = BME680_OST_MSK_def BME680_OST_POS_def BME680_OSP_MSK_def BME680_OSP_POS_def BME680_OSH_MSK_def
  BME680_NBCONV_MSK_def BME680_RUN_GAS_POS_def BME680_FILTER_POS_def

definition bit_macros :: "(nat \<Rightarrow> nat \<Rightarrow> u64) \<Rightarrow> (nat \<Rightarrow> u64) \<Rightarrow> bool" where
  "bit_macros GENMASK BIT \<longleftrightarrow> (\<forall>h l n. h < 64 \<longrightarrow> bit (GENMASK h l) n = (l \<le> n \<and> n \<le> h)) \<and> (\<forall>k n. k < 64 \<longrightarrow> bit (BIT k) n = (n = k))"

lemma genmask_val: "\<lbrakk>bit_macros GENMASK BIT; h < 64\<rbrakk> \<Longrightarrow> GENMASK h l = mask (Suc h) AND NOT (mask l)"
  by (rule bit_word_eqI) (auto simp: bit_macros_def bit_simps)

lemma bit_val: "\<lbrakk>bit_macros GENMASK BIT; k < 64\<rbrakk> \<Longrightarrow> BIT k = push_bit k 1"
  by (rule bit_word_eqI) (auto simp: bit_macros_def bit_simps)

section \<open>Struct layout\<close>

text \<open>
  The scalar types of the structs, with their size, which is also their alignment; the offset of
  each field is rounded up to its alignment, the size of the struct to the largest.
\<close>

datatype c_type = C8 | C16 | C32 | C64

fun c_size :: "c_type \<Rightarrow> nat" where
  "c_size C8 = 1"
| "c_size C16 = 2"
| "c_size C32 = 4"
| "c_size C64 = 8"

definition align_up :: "nat \<Rightarrow> nat \<Rightarrow> nat" where
  "align_up a n = (n + a - 1) div a * a"

fun field_offsets :: "nat \<Rightarrow> c_type list \<Rightarrow> nat list" where
  "field_offsets n [] = []"
| "field_offsets n (t # ts) = align_up (c_size t) n # field_offsets (align_up (c_size t) n + c_size t) ts"

fun fields_end :: "nat \<Rightarrow> c_type list \<Rightarrow> nat" where
  "fields_end n [] = n"
| "fields_end n (t # ts) = fields_end (align_up (c_size t) n + c_size t) ts"

definition struct_align :: "c_type list \<Rightarrow> nat" where
  "struct_align ts = fold max (map c_size ts) 1"

definition struct_size :: "c_type list \<Rightarrow> nat" where
  "struct_size ts = align_up (struct_align ts) (fields_end 0 ts)"

text \<open>The structs of the header, and the one of the same name in \<open>bme680.c\<close>.\<close>

definition bme680_field_data_layout :: "c_type list" where
  "bme680_field_data_layout = [C32, C32, C32, C32, C8, C8]"

definition bme680_fifo_data_layout :: "c_type list" where
  "bme680_fifo_data_layout = [C64, C32, C32, C32, C32, C32]"

definition bme680_gas_config_layout :: "c_type list" where
  "bme680_gas_config_layout = [C16, C16, C8]"

definition bme680_calib_layout :: "c_type list" where
  "bme680_calib_layout = [C16, C16, C8, C16, C16, C8, C16, C16, C8, C8, C16, C16, C8, C16, C16, C8, C8, C8, C8, C8, C8, C16, C8, C8, C8, C8]"

definition driver_fifo_data_layout :: "c_type list" where
  "driver_fifo_data_layout = [C32, C32, C32, C32]"

section \<open>Ioctl numbers\<close>

text \<open>
  The macros \<open>_IOW\<close> and \<open>_IOR\<close> get the magic character, the number and the size of the argument;
  what is relied on is that different arguments or directions give different numbers.
\<close>

definition BME680_IOC_MAGIC :: char where
  "BME680_IOC_MAGIC = CHR ''B''"

datatype bme680_ioc = IOC_SET_GAS_CONFIG | IOC_READ_FIFO | IOC_GET_SHM | IOC_SET_HEATER_TEMP | IOC_SET_HEATER_DUR | IOC_GET_IAQ
  | IOC_SET_THRESHOLD_TEMP | IOC_SET_THRESHOLD_PRESS | IOC_SET_THRESHOLD_HUM | IOC_SET_THRESHOLD_GAS

type_synonym ioc_macro = "char \<Rightarrow> nat \<Rightarrow> nat \<Rightarrow> u32"

fun ioc_number :: "ioc_macro \<Rightarrow> ioc_macro \<Rightarrow> bme680_ioc \<Rightarrow> u32" where
  "ioc_number IOW IOR IOC_SET_GAS_CONFIG = IOW BME680_IOC_MAGIC 1 (struct_size bme680_gas_config_layout)"
| "ioc_number IOW IOR IOC_READ_FIFO = IOR BME680_IOC_MAGIC 2 (struct_size bme680_fifo_data_layout)"
| "ioc_number IOW IOR IOC_GET_SHM = IOR BME680_IOC_MAGIC 3 (c_size C64)"
| "ioc_number IOW IOR IOC_SET_HEATER_TEMP = IOW BME680_IOC_MAGIC 1 (c_size C8)"
| "ioc_number IOW IOR IOC_SET_HEATER_DUR = IOW BME680_IOC_MAGIC 2 (c_size C16)"
| "ioc_number IOW IOR IOC_GET_IAQ = IOR BME680_IOC_MAGIC 4 (c_size C32)"
| "ioc_number IOW IOR IOC_SET_THRESHOLD_TEMP = IOW BME680_IOC_MAGIC 5 (c_size C32)"
| "ioc_number IOW IOR IOC_SET_THRESHOLD_PRESS = IOW BME680_IOC_MAGIC 6 (c_size C32)"
| "ioc_number IOW IOR IOC_SET_THRESHOLD_HUM = IOW BME680_IOC_MAGIC 7 (c_size C32)"
| "ioc_number IOW IOR IOC_SET_THRESHOLD_GAS = IOW BME680_IOC_MAGIC 8 (c_size C32)"

definition ioc_macros :: "ioc_macro \<Rightarrow> ioc_macro \<Rightarrow> bool" where
  "ioc_macros IOW IOR \<longleftrightarrow>
     (\<forall>t n s t' n' s'. n < 256 \<and> s < 16384 \<and> n' < 256 \<and> s' < 16384 \<longrightarrow>
        (IOW t n s = IOW t' n' s' \<longleftrightarrow> t = t' \<and> n = n' \<and> s = s') \<and> (IOR t n s = IOR t' n' s' \<longleftrightarrow> t = t' \<and> n = n' \<and> s = s')
        \<and> IOW t n s \<noteq> IOR t' n' s')"

section \<open>Properties\<close>

text \<open>No two registers of the header share an address, and the measurement registers lie in the bulk read.\<close>

lemma reg_addr_inj: "inj reg_addr"
proof (rule injI)
  fix x y assume "reg_addr x = reg_addr y"
  then show "x = y" by (cases x; cases y; simp)
qed

lemma measurement_window:
  "list_all (\<lambda>r. unat (reg_addr REG_MEAS_STAT_0) \<le> unat (reg_addr r) \<and> unat (reg_addr r) < unat (reg_addr REG_MEAS_STAT_0) + BME680_NUM_BULK_READ_REGS)
     [REG_PRESS_MSB, REG_PRESS_LSB, REG_PRESS_XLSB, REG_TEMP_MSB, REG_TEMP_LSB, REG_TEMP_XLSB, REG_HUM_MSB, REG_HUM_LSB, REG_GAS_R_MSB, REG_GAS_R_LSB]"
  by (simp add: BME680_NUM_BULK_READ_REGS_def)

text \<open>The first two calibration blocks overlap: the second starts at the second register of the first.\<close>

lemma coeff_blocks_overlap:
  "fst (coeff_block 2) = fst (coeff_block 1) + 1" "fst (coeff_block 2) + snd (coeff_block 2) \<le> fst (coeff_block 1) + snd (coeff_block 1)"
  "BME680_LEN_COEFF_ALL = 49"
  by (simp_all add: coeff_block_def BME680_LEN_COEFF_ALL_def)

text \<open>The masks written with \<open>GENMASK\<close> are the ones written as numbers, and the fields of the control register fill the byte.\<close>

lemma control_masks:
  assumes "bit_macros GENMASK BIT"
  shows "mask_val GENMASK BIT OSRS_TEMP_MSK = BME680_OST_MSK" "mask_val GENMASK BIT OSRS_PRESS_MSK = BME680_OSP_MSK"
    "mask_val GENMASK BIT OSRS_TEMP_MSK OR mask_val GENMASK BIT OSRS_PRESS_MSK OR mask_val GENMASK BIT MODE_MSK = 0xFF"
  by (simp_all add: genmask_val [OF assms] bit_val [OF assms] mask_consts mask_eq_exp_minus_1)

subsection \<open>Layouts\<close>

lemma c_size_pos [simp]: "0 < c_size t"
  by (cases t) simp_all

lemma align_up_ge: "0 < a \<Longrightarrow> n \<le> align_up a n"
proof -
  assume a: "0 < a"
  have "(n + a - 1) mod a < a" using a by simp
  with div_mult_mod_eq [of "n + a - 1" a] a show ?thesis unfolding align_up_def by linarith
qed

lemma align_up_dvd: "a dvd align_up a n"
  by (simp add: align_up_def)

lemma fields_end_ge: "n \<le> fields_end n ts"
proof (induction ts arbitrary: n)
  case (Cons t ts)
  then show ?case using align_up_ge [of "c_size t" n] le_trans [OF _ Cons [of "align_up (c_size t) n + c_size t"]] by simp
qed simp

text \<open>Every field of every layout is aligned, lies inside the struct, and comes after the fields before it.\<close>

lemma fields_in_struct:
  "list_all2 (\<lambda>t off. c_size t dvd off \<and> n \<le> off \<and> off + c_size t \<le> fields_end n ts) ts (field_offsets n ts)"
proof (induction ts arbitrary: n)
  case (Cons t ts)
  let ?o = "align_up (c_size t) n"
  have "n \<le> ?o" by (simp add: align_up_ge)
  moreover have "?o + c_size t \<le> fields_end (?o + c_size t) ts" by (rule fields_end_ge)
  ultimately show ?case using Cons [of "?o + c_size t"] by (auto simp: align_up_dvd elim!: list_all2_mono)
qed simp

lemma fields_disjoint:
  "sorted_wrt (\<lambda>(t, off) (t', off'). off + c_size t \<le> off') (zip ts (field_offsets n ts))"
proof (induction ts arbitrary: n)
  case (Cons t ts)
  let ?n = "align_up (c_size t) n + c_size t"
  have "\<forall>(t', off') \<in> set (zip ts (field_offsets ?n ts)). ?n \<le> off'"
    using fields_in_struct [of ?n ts] by (auto simp: list_all2_iff)
  with Cons [of ?n] show ?case by auto
qed simp

lemma struct_sizes: "struct_size bme680_fifo_data_layout = 32" "struct_size bme680_gas_config_layout = 6"
  "struct_size bme680_field_data_layout = 20" "struct_size bme680_calib_layout = 40" "struct_size driver_fifo_data_layout = 16"
  by code_simp+

text \<open>
  The two structs named \<open>bme680_fifo_data\<close> do not match: where the header has the temperature, the
  struct of the driver has the humidity, and its size is half.
\<close>

lemma fifo_data_layouts_differ:
  "field_offsets 0 bme680_fifo_data_layout = [0, 8, 12, 16, 20, 24]" "field_offsets 0 driver_fifo_data_layout = [0, 4, 8, 12]"
  by (simp_all add: bme680_fifo_data_layout_def driver_fifo_data_layout_def align_up_def)

subsection \<open>Ioctl numbers\<close>

text \<open>
  The ioctl numbers are distinct.  Two requests share a number of the interface in two cases
  (1 and 2); they differ in the size of the argument or the direction, so no two of the ten
  requests of \<open>bme680.h\<close> have the same code.
\<close>

theorem ioctl_numbers_distinct:
  assumes "ioc_macros IOW IOR"
  shows "ioc_number IOW IOR x = ioc_number IOW IOR y \<longleftrightarrow> x = y"
proof -
  have w: "IOW t n s = IOW t' n' s' \<longleftrightarrow> t = t' \<and> n = n' \<and> s = s'" "IOR t n s = IOR t' n' s' \<longleftrightarrow> t = t' \<and> n = n' \<and> s = s'"
    "IOW t n s \<noteq> IOR t' n' s'" "IOR t' n' s' \<noteq> IOW t n s"
    if "n < 256" "s < 16384" "n' < 256" "s' < 16384" for t n s t' n' s'
    using assms that unfolding ioc_macros_def by (blast, blast, blast, metis)
  show ?thesis by (cases x; cases y) (simp_all add: w struct_sizes)
qed

definition sample_ioc :: "nat \<Rightarrow> ioc_macro" where
  "sample_ioc dir t n s = of_nat (dir * 2 ^ 30 + s * 2 ^ 16 + of_char t * 2 ^ 8 + n)"

lemma of_nat_u32_inj: "a < 2 ^ 32 \<Longrightarrow> b < 2 ^ 32 \<Longrightarrow> (of_nat a :: u32) = of_nat b \<longleftrightarrow> a = b"
  by (simp add: word_of_nat_eq_iff take_bit_nat_eq_self)

lemma digit_eq: "b < k \<Longrightarrow> b' < k \<Longrightarrow> a * k + b = a' * k + b' \<longleftrightarrow> a = a' \<and> b = (b' :: nat)"
  by (metis add.commute add_left_cancel div_mult_self3 div_less add_0 not_less_zero)

lemma sample_ioc_eq:
  assumes "dir < 4" "s < 16384" "n < 256" "dir' < 4" "s' < 16384" "n' < 256"
  shows "sample_ioc dir t n s = sample_ioc dir' t' n' s' \<longleftrightarrow> dir = dir' \<and> t = t' \<and> n = n' \<and> s = s'"
proof -
  have c: "of_char t < (256 :: nat)" "of_char t' < (256 :: nat)" by simp_all
  have lt: "x < 4 \<Longrightarrow> y < 16384 \<Longrightarrow> z < 256 \<Longrightarrow> w < 256 \<Longrightarrow> x * 2 ^ 30 + y * 2 ^ 16 + z * 2 ^ 8 + w < (2 :: nat) ^ 32" for x y z w
    by simp
  have "sample_ioc dir t n s = sample_ioc dir' t' n' s' \<longleftrightarrow>
      dir * 2 ^ 30 + s * 2 ^ 16 + of_char t * 2 ^ 8 + n = dir' * 2 ^ 30 + s' * 2 ^ 16 + of_char t' * 2 ^ 8 + (n' :: nat)"
    unfolding sample_ioc_def by (rule of_nat_u32_inj [OF lt [OF assms(1,2) c(1) assms(3)] lt [OF assms(4,5) c(2) assms(6)]])
  also have "\<dots> \<longleftrightarrow> dir = dir' \<and> of_char t = (of_char t' :: nat) \<and> n = n' \<and> s = s'"
    using digit_eq [OF assms(3,6), of "(dir * 16384 + s) * 256 + of_char t" "(dir' * 16384 + s') * 256 + of_char t'"]
      digit_eq [OF c, of "dir * 16384 + s" "dir' * 16384 + s'"] digit_eq [OF assms(2,5), of dir dir'] by (auto simp: algebra_simps)
  finally show ?thesis by auto
qed

theorem ioctl_numbers_distinct_witness:
  "ioc_number (sample_ioc 1) (sample_ioc 2) IOC_SET_GAS_CONFIG \<noteq> ioc_number (sample_ioc 1) (sample_ioc 2) IOC_SET_HEATER_TEMP"
proof -
  have "ioc_macros (sample_ioc 1) (sample_ioc 2)" by (auto simp: ioc_macros_def sample_ioc_eq)
  from ioctl_numbers_distinct [OF this] show ?thesis by (simp del: ioc_number.simps)
qed

end
