(* ===== verification/Compensation.thy ===== *)
theory Compensation
  imports Prelude
begin

text \<open>
  The compensation formulas of \<open>bme680.c\<close>: the conversion of raw ADC readings into temperature,
  pressure, humidity and gas resistance with the calibration values of the chip.  There are two
  sets of them: \<open>calc_*\<close>, which the IIO driver calls, and \<open>bme680_compensate_*\<close>.

  Fields that hold a C unsigned or narrow integer are words of that width, read with \<open>uint\<close> or
  \<open>sint\<close> as the C type says.  Local variables of type \<open>s32\<close> and \<open>s64\<close> are integers, reduced by
  \<open>wrap32\<close> and \<open>wrap64\<close>.  A division by zero or a shift by a negative or too large count has
  the value \<open>None\<close>.
\<close>

record bme680_calib =
  par_t1 :: u16
  par_t2 :: u16
  par_t3 :: u8
  par_p1 :: u16
  par_p2 :: u16
  par_p3 :: u8
  par_p4 :: u16
  par_p5 :: u16
  par_p6 :: u8
  par_p7 :: u8
  par_p8 :: u16
  par_p9 :: u16
  par_p10 :: u8
  par_h1 :: u16
  par_h2 :: u16
  par_h3 :: u8
  par_h4 :: u8
  par_h5 :: u8
  par_h6 :: u8
  par_h7 :: u8
  par_gh1 :: u8
  par_gh2 :: u16
  par_gh3 :: u8
  res_heat_range :: u8
  res_heat_val :: u8
  range_sw_err :: u8

section \<open>The formulas the driver uses\<close>

text \<open>\<open>calc_temperature\<close> also stores \<open>t_fine\<close>; the two results are the new \<open>t_fine\<close> and the return value.\<close>

definition calc_temperature :: "bme680_calib \<Rightarrow> int \<Rightarrow> int \<times> int" where
  "calc_temperature c temp_adc =
     (let var1 = wrap32 (asr temp_adc 3 - wrap32 (uint (par_t1 c) * 2));
          var2 = asr (wrap64 (var1 * sint (par_t2 c))) 11;
          var3 = asr (wrap64 (asr var1 1 * asr var1 1)) 12;
          var3 = asr (wrap64 (var3 * wrap32 (sint (par_t3 c) * 16))) 14;
          t_fine = wrap32 (wrap64 (var2 + var3));
          calc_temp = wrap16 (asr (wrap32 (t_fine * 5 + 128)) 8)
      in (t_fine, calc_temp))"

definition calc_pressure :: "bme680_calib \<Rightarrow> int \<Rightarrow> int \<Rightarrow> int option" where
  "calc_pressure c t_fine pressure_adc =
     (let var1 = asr t_fine 1 - 64000;
          var2 = asr (wrap64 (asr (wrap64 (asr var1 2 * asr var1 2)) 11 * sint (par_p6 c))) 2;
          var2 = wrap64 (var2 + wrap64 (var1 * sint (par_p5 c)) * 2);
          var2 = wrap64 (asr var2 2 + sint (par_p4 c) * 65536);
          var1 = wrap64 (asr (wrap64 (asr (wrap64 (asr var1 2 * asr var1 2)) 13 * (sint (par_p3 c) * 32))) 3
                         + asr (wrap64 (sint (par_p2 c) * var1)) 1);
          var1 = asr var1 18;
          var1 = asr (wrap64 ((32768 + var1) * uint (par_p1 c))) 15;
          calc_press = uwrap32 (1048576 - pressure_adc);
          calc_press = uwrap32 (wrap64 ((calc_press - asr var2 12) * 3125))
      in if var1 = 0 then None
         else let calc_press = wrap64 (calc_press sdiv var1 * 1000);
                  var1 = asr (wrap64 (sint (par_p9 c) * asr (wrap64 (asr calc_press 13 * asr calc_press 13)) 12)) 25;
                  var2 = asr (wrap64 (sint (par_p8 c) * calc_press)) 19;
                  var3 = asr (wrap64 (uint (par_p10 c) * calc_press)) 48;
                  calc_press = wrap64 (calc_press + asr (wrap64 (var1 + var2 + var3 + sint (par_p7 c) * 128)) 4)
              in Some (uwrap32 calc_press))"

text \<open>\<open>hum_unclamped\<close> is \<open>calc_humidity\<close> up to the two comparisons that cap its result.\<close>

definition hum_unclamped :: "bme680_calib \<Rightarrow> int \<Rightarrow> int \<Rightarrow> int" where
  "hum_unclamped c t_fine humid_adc =
     (let temp_scaled = asr (wrap32 (t_fine * 5 + 128)) 8;
          var1 = wrap32 (wrap32 (humid_adc - wrap32 (uint (par_h1 c) * 16))
                         - asr (wrap32 (temp_scaled * sint (par_h3 c)) sdiv 100) 1);
          var2 = asr (wrap32 (uint (par_h2 c) *
                   (wrap32 (temp_scaled * sint (par_h4 c)) sdiv 100
                    + asr (wrap32 (temp_scaled * (wrap32 (temp_scaled * sint (par_h5 c)) sdiv 100))) 6 sdiv 100
                    + 16384))) 10;
          var3 = wrap32 (var1 * var2);
          var4 = wrap32 (uint (par_h6 c) * 128);
          var4 = asr (wrap32 (var4 + wrap32 (temp_scaled * sint (par_h7 c)) sdiv 100)) 4;
          var5 = asr (wrap32 (asr var3 14 * asr var3 14)) 10;
          var6 = asr (wrap32 (var4 * var5)) 1
      in asr (wrap32 (asr (wrap32 (var3 + var6)) 10 * 1000)) 12)"

definition calc_humidity :: "bme680_calib \<Rightarrow> int \<Rightarrow> int \<Rightarrow> int" where
  "calc_humidity c t_fine humid_adc =
     (let calc_hum = hum_unclamped c t_fine humid_adc in
      if calc_hum > 100000 then 100000 else if calc_hum < 0 then 0 else calc_hum)"

text \<open>The tables \<open>lookup_k\<close> and \<open>lookup_m\<close> are not defined in the sources; they are parameters.\<close>

definition calc_gas_resistance_low :: "(nat \<Rightarrow> int) \<Rightarrow> (nat \<Rightarrow> int) \<Rightarrow> bme680_calib \<Rightarrow> int \<Rightarrow> u8 \<Rightarrow> int option" where
  "calc_gas_resistance_low lookup_k lookup_m c gas_adc gas_range =
     (let var1 = asr (wrap64 ((1340 + 5 * sint (range_sw_err c)) * lookup_k (unat gas_range))) 16;
          var2 = wrap64 (gas_adc * 32768 - 16777216 + var1);
          var3 = asr (wrap64 (lookup_m (unat gas_range) * var1)) 9
      in if var2 = 0 then None else Some (uwrap32 (wrap64 (var3 + asr var2 1) sdiv var2)))"

definition calc_gas_resistance_high :: "bme680_calib \<Rightarrow> int \<Rightarrow> u8 \<Rightarrow> int option" where
  "calc_gas_resistance_high c gas_adc gas_range =
     (if 32 \<le> unat gas_range then None
      else let var2 = 262144 div 2 ^ unat gas_range;
               var1 = (gas_adc * 512 - 512) mod 18446744073709551616;
               var3 = uwrap32 (var1 * var2 mod 18446744073709551616 div 3);
               gh1 = uwrap32 (sint (par_gh1 c))
           in if gh1 = 0 then None else Some (uwrap32 (var3 * 100) div gh1))"

section \<open>The second set of formulas\<close>

definition bme680_compensate_temp :: "bme680_calib \<Rightarrow> u32 \<Rightarrow> int \<times> int" where
  "bme680_compensate_temp c adc_temp =
     (let var1 = uint adc_temp sdiv 16384 - uint (par_t1 c) * 2;
          var2 = wrap64 (var1 * sint (par_t2 c));
          var3 = wrap64 ((var1 sdiv 2) * (var1 sdiv 2) * sint (par_t3 c)) sdiv 1024;
          t_fine = wrap32 (wrap64 (var2 + var3))
      in (t_fine, wrap32 (wrap32 (t_fine * 5 + 128) sdiv 256)))"

definition bme680_compensate_press :: "bme680_calib \<Rightarrow> int \<Rightarrow> u32 \<Rightarrow> int option" where
  "bme680_compensate_press c t_fine adc_press =
     (let var1 = t_fine sdiv 2 - 64000;
          var2 = wrap64 (var1 * var1 * sint (par_p6 c)) sdiv 32768;
          var2 = wrap64 (var2 + var1 * sint (par_p5 c) * 2);
          var2 = wrap64 (var2 sdiv 4 + sint (par_p4 c) * 65536);
          var3 = wrap64 (wrap64 (sint (par_p3 c) * var1 * var1) sdiv 524288 + sint (par_p2 c) * var1) sdiv 524288;
          var4 = wrap64 ((1 + var3 sdiv 32768) * uint (par_p1 c));
          calc_press = uwrap32 (1048576 - uint adc_press)
      in if var4 = 0 then None
         else let calc_press = wrap64 (wrap64 ((calc_press - var2 sdiv 4096) * 6250) sdiv var4);
                  var1 = wrap64 (sint (par_p9 c) * calc_press * calc_press) sdiv 2147483648;
                  var2 = wrap64 (calc_press * sint (par_p8 c)) sdiv 32768;
                  var3 = wrap64 ((calc_press sdiv 256) * (calc_press sdiv 256) * (calc_press sdiv 256)
                                 * (uint (par_p10 c) sdiv 131072));
                  calc_press = wrap64 (calc_press + wrap64 (var1 + var2 + var3 + sint (par_p7 c) * 128) sdiv 16)
              in Some (uwrap32 calc_press))"

text \<open>
  \<open>var3 >> 14 - calc_hum\<close> shifts by \<open>14 - calc_hum\<close>, since \<open>-\<close> binds tighter than \<open>>>\<close>.
\<close>

definition bme680_compensate_hum :: "bme680_calib \<Rightarrow> int \<Rightarrow> u32 \<Rightarrow> int option" where
  "bme680_compensate_hum c t_fine adc_hum =
     (let temp_comp = (t_fine * 5 + 128) sdiv 256;
          var1 = wrap64 (uint adc_hum - wrap32 (uint (par_h1 c) * 16) - asr (wrap64 (temp_comp * sint (par_h3 c)) sdiv 100) 1);
          var2 = wrap64 (uint (par_h2 c) *
                   (wrap64 (temp_comp * sint (par_h4 c)) sdiv 100
                    + asr (wrap64 (temp_comp * (wrap64 (temp_comp * sint (par_h5 c)) sdiv 100))) 6 sdiv 100
                    + 16384));
          var3 = wrap64 (var1 * var2);
          var4 = asr (wrap64 (uint (par_h6 c) * 128 * (wrap64 (temp_comp * sint (par_h7 c)) sdiv 100))) 4;
          var3 = wrap64 (var3 + var4);
          calc_hum = asr (wrap64 (asr var3 14 * asr var3 14 * uint (par_h6 c)) sdiv 100) 1 sdiv 4096;
          shift = wrap64 (14 - calc_hum)
      in if shift < 0 \<or> 64 \<le> shift then None
         else let calc_hum = asr var3 (nat shift);
                  calc_hum = asr (wrap64 (asr (wrap64 (calc_hum * 1000)) 13 * 100)) 12;
                  calc_hum = (if calc_hum > 100000 then 100000 else calc_hum);
                  calc_hum = (if calc_hum < 0 then 0 else calc_hum)
              in Some calc_hum)"

text \<open>The local array has type \<open>u8\<close>, so its entries -1 and -3 are 255 and 253.\<close>

definition const_array :: "u8 list" where
  "const_array = [0,0,0,0,0,-1,0,-3,0,0,0,1,1,2,0,0,0,0,0,0,0,0,0,0,0,0,0,0,0,0,0,0]"

definition const_array1 :: "u8 \<Rightarrow> u8" where
  "const_array1 const_array_idx = and const_array_idx 15 * 2"

definition const_array2 :: "u8 \<Rightarrow> u8" where
  "const_array2 const_array_idx = const_array1 const_array_idx + 1"

text \<open>\<open>adc_gas * 32768\<close> is an \<open>int\<close> product of a \<open>u16\<close>, which fits.\<close>

definition bme680_compensate_gas :: "bme680_calib \<Rightarrow> u16 \<Rightarrow> u8 \<Rightarrow> int" where
  "bme680_compensate_gas c adc_gas const_array_idx =
     (let var1 = wrap64 ((1340 + 5 * sint (range_sw_err c)) * uint (const_array ! unat (const_array1 const_array_idx))) sdiv 65536;
          var2 = wrap64 (wrap32 (uint adc_gas * 32768 - 16777216) * uint (const_array ! unat (const_array2 const_array_idx))) sdiv 4096;
          var3 = wrap64 (wrap64 (uint (res_heat_range c) * var2) sdiv 4 + var1 * 4)
      in uwrap32 (wrap64 (5 * var3) sdiv 100))"

section \<open>Ranges\<close>

lemma s8_abs: "\<bar>sint (x :: u8)\<bar> \<le> 128"
  using sint_ge [of x] sint_lt [of x] by (simp add: abs_le_iff)

lemma s16_abs: "\<bar>sint (x :: u16)\<bar> \<le> 32768"
  using sint_ge [of x] sint_lt [of x] by (simp add: abs_le_iff)

lemma u16_range: "0 \<le> uint (x :: u16) \<and> uint x \<le> 65535"
  using uint_lt2p [of x] by simp

lemma u8_range: "0 \<le> uint (x :: u8) \<and> uint x \<le> 255"
  using uint_lt2p [of x] by simp

lemma wrap64_abs: "\<bar>x\<bar> \<le> 9223372036854775807 \<Longrightarrow> wrap64 x = x"
  by (rule wrap64_id) (simp_all add: abs_le_iff)

lemma wrap32_abs: "\<bar>x\<bar> \<le> INT_MAX \<Longrightarrow> wrap32 x = x"
  by (rule wrap32_id) (simp_all add: abs_le_iff)

section \<open>Temperature\<close>

text \<open>The datasheet's integer formula on unbounded integers.\<close>

definition t_fine_spec :: "bme680_calib \<Rightarrow> int \<Rightarrow> int" where
  "t_fine_spec c adc =
     (let v = adc div 8 - uint (par_t1 c) * 2
      in v * sint (par_t2 c) div 2048 + ((v div 2) * (v div 2) div 4096 * (sint (par_t3 c) * 16)) div 16384)"

lemma temp_parts:
  fixes c :: bme680_calib
  assumes "0 \<le> adc" "adc < 1048576"
  defines "v \<equiv> asr adc 3 - uint (par_t1 c) * 2"
  shows "\<bar>v\<bar> \<le> 131072" "\<bar>v * sint (par_t2 c)\<bar> \<le> 4294967296" "\<bar>asr v 1 * asr v 1\<bar> \<le> 4294967296"
    "\<bar>asr (asr v 1 * asr v 1) 12 * (sint (par_t3 c) * 16)\<bar> \<le> 2147483648"
    "\<bar>asr (v * sint (par_t2 c)) 11\<bar> \<le> 2097152" "\<bar>asr (asr (asr v 1 * asr v 1) 12 * (sint (par_t3 c) * 16)) 14\<bar> \<le> 131072"
proof -
  have "0 \<le> asr adc 3" "asr adc 3 \<le> 131072" using assms(1,2) by (simp_all add: asr_def)
  then show v: "\<bar>v\<bar> \<le> 131072" using u16_range [of "par_t1 c"] unfolding v_def abs_le_iff by linarith
  show v2: "\<bar>v * sint (par_t2 c)\<bar> \<le> 4294967296" using abs_mult_le [OF v s16_abs] by simp
  have h: "\<bar>asr v 1\<bar> \<le> 65536" using asr_abs_le [of v 65536 1] v by simp
  show sq: "\<bar>asr v 1 * asr v 1\<bar> \<le> 4294967296" using abs_mult_le [OF h h] by simp
  have s: "\<bar>asr (asr v 1 * asr v 1) 12\<bar> \<le> 1048576" using asr_abs_le [of "asr v 1 * asr v 1" 1048576 12] sq by simp
  have "\<bar>sint (par_t3 c) * 16\<bar> \<le> 2048" using s8_abs [of "par_t3 c"] by (simp add: abs_le_iff)
  from abs_mult_le [OF s this] show v3: "\<bar>asr (asr v 1 * asr v 1) 12 * (sint (par_t3 c) * 16)\<bar> \<le> 2147483648" by simp
  show "\<bar>asr (v * sint (par_t2 c)) 11\<bar> \<le> 2097152" using asr_abs_le [of _ 2097152 11] v2 by simp
  show "\<bar>asr (asr (asr v 1 * asr v 1) 12 * (sint (par_t3 c) * 16)) 14\<bar> \<le> 131072" using asr_abs_le [of _ 131072 14] v3 by simp
qed

lemma t_fine_bound:
  assumes "0 \<le> adc" "adc < 1048576"
  shows "\<bar>t_fine_spec c adc\<bar> \<le> 2228224"
proof -
  note b = temp_parts [OF assms, of c]
  have "t_fine_spec c adc = asr ((asr adc 3 - uint (par_t1 c) * 2) * sint (par_t2 c)) 11
     + asr (asr (asr (asr adc 3 - uint (par_t1 c) * 2) 1 * asr (asr adc 3 - uint (par_t1 c) * 2) 1) 12 * (sint (par_t3 c) * 16)) 14"
    by (simp add: t_fine_spec_def asr_def Let_def)
  then show ?thesis using b(5,6) by linarith
qed

lemma t_fine_exact:
  assumes "0 \<le> adc" "adc < 1048576"
  shows "fst (calc_temperature c adc) = t_fine_spec c adc"
proof -
  define v where "v = asr adc 3 - uint (par_t1 c) * 2"
  note b = temp_parts [OF assms, of c, folded v_def]
  define t where "t = asr (v * sint (par_t2 c)) 11 + asr (asr (asr v 1 * asr v 1) 12 * (sint (par_t3 c) * 16)) 14"
  have t: "\<bar>t\<bar> \<le> 2228224" using b(5,6) by (simp add: t_def abs_le_iff)
  have spec: "t_fine_spec c adc = t" by (simp add: t_fine_spec_def t_def v_def asr_def Let_def)
  have w: "wrap32 (uint (par_t1 c) * 2) = uint (par_t1 c) * 2" "wrap32 (asr adc 3 - uint (par_t1 c) * 2) = v"
    "wrap32 (sint (par_t3 c) * 16) = sint (par_t3 c) * 16"
    using u16_range [of "par_t1 c"] b(1) s8_abs [of "par_t3 c"]
    by (simp_all add: wrap32_abs v_def [symmetric] abs_mult)
  have x: "wrap64 (v * sint (par_t2 c)) = v * sint (par_t2 c)" "wrap64 (asr v 1 * asr v 1) = asr v 1 * asr v 1"
    "wrap64 (asr (asr v 1 * asr v 1) 12 * (sint (par_t3 c) * 16)) = asr (asr v 1 * asr v 1) 12 * (sint (par_t3 c) * 16)"
    "wrap64 t = t" "wrap32 t = t"
    by (rule wrap64_abs wrap32_abs, use b t in linarith)+
  show ?thesis unfolding calc_temperature_def Let_def w x t_def [symmetric] fst_conv spec ..
qed

text \<open>
  C8: the temperature formula is exact on every 20-bit reading.  For every calibration and
  every ADC value of the sensor's 20 bits no intermediate 32- or 64-bit value overflows, so
  the stored \<open>t_fine\<close> is the value of the formula over unbounded integers, at most
  2228224 in absolute value; the returned centi-degrees are \<open>(5 t_fine + 128) / 256\<close> whenever
  that fits the 16 bits it is truncated to.
\<close>

theorem calc_temperature_exact:
  assumes "0 \<le> adc" "adc < 1048576"
  shows "fst (calc_temperature c adc) = t_fine_spec c adc \<and> \<bar>t_fine_spec c adc\<bar> \<le> 2228224
    \<and> snd (calc_temperature c adc) = wrap16 ((5 * t_fine_spec c adc + 128) div 256)
    \<and> (\<bar>t_fine_spec c adc\<bar> \<le> 1677683 \<longrightarrow> snd (calc_temperature c adc) = (5 * t_fine_spec c adc + 128) div 256)"
proof -
  let ?t = "t_fine_spec c adc"
  note t = t_fine_bound [OF assms, of c] and fine = t_fine_exact [OF assms, of c]
  have "snd (calc_temperature c adc) = wrap16 (asr (wrap32 (fst (calc_temperature c adc) * 5 + 128)) 8)"
    by (simp add: calc_temperature_def Let_def)
  moreover have "wrap32 (?t * 5 + 128) = 5 * ?t + 128" using t by (simp add: wrap32_abs abs_le_iff)
  ultimately have snd: "snd (calc_temperature c adc) = wrap16 ((5 * ?t + 128) div 256)" using fine by (simp add: asr_def)
  have "\<bar>?t\<bar> \<le> 1677683 \<Longrightarrow> wrap16 ((5 * ?t + 128) div 256) = (5 * ?t + 128) div 256"
    by (rule wrap16_id) (auto simp: abs_le_iff)
  then show ?thesis using t fine snd by simp
qed

definition sample_calib :: bme680_calib where
  "sample_calib = \<lparr>par_t1 = 26000, par_t2 = 26500, par_t3 = 3, par_p1 = 36000, par_p2 = -10300, par_p3 = 88,
     par_p4 = 7000, par_p5 = -120, par_p6 = 30, par_p7 = 40, par_p8 = -2000, par_p9 = -3000, par_p10 = 30,
     par_h1 = 800, par_h2 = 1000, par_h3 = 0, par_h4 = 45, par_h5 = 20, par_h6 = 120, par_h7 = -100,
     par_gh1 = -30, par_gh2 = -5000, par_gh3 = 18, res_heat_range = 1, res_heat_val = 40, range_sw_err = 0\<rparr>"

theorem calc_temperature_exact_witness:
  "t_fine_spec sample_calib 500000 = 135883 \<and> snd (calc_temperature sample_calib 500000) = 2654"
proof -
  have e: "t_fine_spec sample_calib 500000 = 135883" by (simp add: t_fine_spec_def sample_calib_def)
  with calc_temperature_exact [of 500000 sample_calib] show ?thesis by simp
qed

section \<open>Pressure\<close>

text \<open>The divisor of \<open>calc_pressure\<close>, before it is scaled by \<open>par_p1\<close>.\<close>

definition press_var1 :: "bme680_calib \<Rightarrow> int \<Rightarrow> int" where
  "press_var1 c t_fine =
     (let v = asr t_fine 1 - 64000
      in asr (wrap64 (asr (wrap64 (asr (wrap64 (asr v 2 * asr v 2)) 13 * (sint (par_p3 c) * 32))) 3
                      + asr (wrap64 (sint (par_p2 c) * v)) 1)) 18)"

lemma calc_pressure_None_iff:
  "calc_pressure c t adc = None \<longleftrightarrow> asr (wrap64 ((32768 + press_var1 c t) * uint (par_p1 c))) 15 = 0"
  by (simp add: calc_pressure_def press_var1_def Let_def)

lemma press_var1_bound:
  assumes "\<bar>asr t 1 - 64000\<bar> \<le> 166400"
  shows "\<bar>press_var1 c t\<bar> \<le> 10813"
proof -
  define v where "v = asr t 1 - 64000"
  have v: "\<bar>v\<bar> \<le> 166400" using assms by (simp add: v_def)
  have q: "\<bar>asr v 2\<bar> \<le> 41600" using asr_abs_le [of v 41600 2] v by simp
  have sq: "\<bar>asr v 2 * asr v 2\<bar> \<le> 1730560000" using abs_mult_le [OF q q] by simp
  have s: "\<bar>asr (asr v 2 * asr v 2) 13\<bar> \<le> 211250" using asr_abs_le [of "asr v 2 * asr v 2" 211250 13] sq by simp
  have "\<bar>sint (par_p3 c) * 32\<bar> \<le> 4096" using s8_abs [of "par_p3 c"] by (simp add: abs_mult)
  from abs_mult_le [OF s this] have p3: "\<bar>asr (asr v 2 * asr v 2) 13 * (sint (par_p3 c) * 32)\<bar> \<le> 865280000" by simp
  then have p3': "\<bar>asr (asr (asr v 2 * asr v 2) 13 * (sint (par_p3 c) * 32)) 3\<bar> \<le> 108160000"
    using asr_abs_le [of _ 108160000 3] by simp
  have p2: "\<bar>sint (par_p2 c) * v\<bar> \<le> 5452595200" using abs_mult_le [OF s16_abs v] by simp
  then have p2': "\<bar>asr (sint (par_p2 c) * v) 1\<bar> \<le> 2726297600" using asr_abs_le [of _ 2726297600 1] by simp
  let ?s = "asr (asr (asr v 2 * asr v 2) 13 * (sint (par_p3 c) * 32)) 3 + asr (sint (par_p2 c) * v) 1"
  have sum: "\<bar>?s\<bar> \<le> 2834457600" using p3' p2' by linarith
  have x: "wrap64 (asr v 2 * asr v 2) = asr v 2 * asr v 2"
    "wrap64 (asr (asr v 2 * asr v 2) 13 * (sint (par_p3 c) * 32)) = asr (asr v 2 * asr v 2) 13 * (sint (par_p3 c) * 32)"
    "wrap64 (sint (par_p2 c) * v) = sint (par_p2 c) * v" "wrap64 ?s = ?s"
    by (rule wrap64_abs, use sq p3 p2 sum in linarith)+
  have "press_var1 c t = asr ?s 18" unfolding press_var1_def Let_def v_def [symmetric] x ..
  moreover have "\<bar>?s\<bar> \<le> 10813 * 2 ^ 18" using sum by simp
  ultimately show ?thesis using asr_abs_le by metis
qed

text \<open>
  C21: the pressure formula never divides by zero in the operating range.  For every
  calibration with \<open>par_p1\<close> at least 2 and every \<open>t_fine\<close> of the sensor's operating range
  (-40 to 85 degrees, that is \<open>t_fine\<close> between -204800 and 435200) \<open>calc_pressure\<close> returns a
  32-bit value for every ADC reading; with \<open>par_p1\<close> zero it divides by zero for every input.
\<close>

theorem calc_pressure_defined:
  assumes "2 \<le> par_p1 c" "-204800 \<le> t" "t \<le> 435200" "par_p1 d = 0"
  shows "(\<exists>p. calc_pressure c t adc = Some p \<and> 0 \<le> p \<and> p < 4294967296) \<and> calc_pressure d u adc = None"
proof -
  have "-102400 \<le> asr t 1" "asr t 1 \<le> 217600" using assms(2,3) by (simp_all add: asr_def)
  then have "\<bar>press_var1 c t\<bar> \<le> 10813" by (intro press_var1_bound) linarith
  then have a: "21955 \<le> 32768 + press_var1 c t" "32768 + press_var1 c t \<le> 43581" by linarith+
  have p1: "2 \<le> uint (par_p1 c)" "uint (par_p1 c) \<le> 65535"
    using assms(1) u16_range [of "par_p1 c"] by (simp_all add: word_le_def)
  have m: "43910 \<le> (32768 + press_var1 c t) * uint (par_p1 c)" using mult_mono [OF a(1) p1(1)] a by simp
  have "(32768 + press_var1 c t) * uint (par_p1 c) \<le> 43581 * 65535" using mult_mono [OF a(2) p1(2)] p1 by simp
  then have w: "wrap64 ((32768 + press_var1 c t) * uint (par_p1 c)) = (32768 + press_var1 c t) * uint (par_p1 c)"
    by (intro wrap64_id) (use m in linarith)+
  have "1 \<le> asr ((32768 + press_var1 c t) * uint (par_p1 c)) 15" using asr_mono [OF m, of 15] by (simp add: asr_def)
  then have "calc_pressure c t adc \<noteq> None" unfolding calc_pressure_None_iff w by simp
  moreover have "calc_pressure c t adc = Some p \<Longrightarrow> 0 \<le> p \<and> p < 4294967296" for p
    using uwrap32_range by (auto simp: calc_pressure_def Let_def split: if_splits)
  moreover have "calc_pressure d u adc = None" using assms(4) by (simp add: calc_pressure_None_iff wrap64_def)
  ultimately show ?thesis by blast
qed

theorem calc_pressure_defined_witness:
  "calc_pressure sample_calib 135883 350000 \<noteq> None \<and> calc_pressure (sample_calib\<lparr>par_p1 := 0\<rparr>) 135883 350000 = None"
proof -
  have "2 \<le> par_p1 sample_calib" by (simp add: sample_calib_def)
  from calc_pressure_defined [OF this, of 135883 "sample_calib\<lparr>par_p1 := 0\<rparr>" 350000 135883] show ?thesis by auto
qed

section \<open>Humidity\<close>

text \<open>
  The humidity is capped.  For every calibration, temperature and reading, overflows
  included, \<open>calc_humidity\<close> is between 0 and 100000 milli-percent, and it is the unclamped
  value whenever that is in range.
\<close>

theorem calc_humidity_bounded:
  "calc_humidity c t adc = max 0 (min 100000 (hum_unclamped c t adc))
   \<and> 0 \<le> calc_humidity c t adc \<and> calc_humidity c t adc \<le> 100000"
  by (simp add: calc_humidity_def Let_def)

section \<open>The second set\<close>

lemma const_array_index: "unat (const_array1 i) < 32" "unat (const_array2 i) < 32"
  "unat (const_array2 i) = Suc (unat (const_array1 i))" "unat (const_array1 i) = 2 * unat (and i 15)"
proof -
  have "and i (mask 4) = and i 15" by (simp add: mask_eq_exp_minus_1)
  then have m: "and i 15 < 16" using and_mask_less_size [of 4 i] by (simp add: word_size)
  have lt: "unat (and i 15) < 16" using m by (simp add: word_less_nat_alt)
  then show e: "unat (const_array1 i) = 2 * unat (and i 15)"
    unfolding const_array1_def by (subst unat_mult_lem [THEN iffD1]) simp_all
  then show f: "unat (const_array2 i) = Suc (unat (const_array1 i))"
    using lt unfolding const_array2_def by (subst unat_add_lem [THEN iffD1]) simp_all
  show "unat (const_array1 i) < 32" "unat (const_array2 i) < 32" using lt e f by simp_all
qed

lemma const_array_zero:
  assumes "unat (and i 15) \<notin> {2, 3, 5, 6}"
  shows "const_array ! unat (const_array1 i) = 0 \<and> const_array ! unat (const_array2 i) = 0"
proof -
  have "unat (and i 15) < 16" using const_array_index [of i] by simp
  then have "unat (and i 15) \<in> {0, 1, 4, 7, 8, 9, 10, 11, 12, 13, 14, 15}" using assms by simp presburger
  then show ?thesis unfolding const_array_index(3) const_array_index(4) by (auto simp: const_array_def)
qed

text \<open>
  What the second set of formulas computes.  The gas formula indexes its table of 32
  entries within bounds for every range byte, but for all gas ranges except 2, 3, 5 and 6 both
  entries are 0 and so is the result; the pressure formula does not depend on \<open>par_p10\<close>, because
  it is divided by 131072 as an integer; the temperature formula only looks at the reading
  divided by 16384, so it cannot tell two readings of one such block apart.
\<close>

theorem second_formulas_degenerate:
  assumes "unat (and i 15) \<notin> {2, 3, 5, 6}" "uint a div 16384 = uint b div 16384"
  shows "unat (const_array1 j) < length const_array \<and> unat (const_array2 j) < length const_array
    \<and> bme680_compensate_gas c adc i = 0
    \<and> bme680_compensate_press (c\<lparr>par_p10 := x\<rparr>) t p = bme680_compensate_press c t p
    \<and> bme680_compensate_temp c a = bme680_compensate_temp c b"
proof -
  have "length const_array = 32" by (simp add: const_array_def)
  then have 1: "unat (const_array1 j) < length const_array \<and> unat (const_array2 j) < length const_array"
    using const_array_index [of j] by simp
  have 2: "bme680_compensate_gas c adc i = 0"
    using const_array_zero [OF assms(1)] by (simp add: bme680_compensate_gas_def Let_def wrap64_def uwrap32_def)
  have z: "uint y sdiv 131072 = 0" for y :: u8
    using u8_range [of y] by (simp add: signed_divide_int_def)
  have 3: "bme680_compensate_press (c\<lparr>par_p10 := x\<rparr>) t p = bme680_compensate_press c t p"
    unfolding bme680_compensate_press_def z by (simp cong: if_cong)
  have s: "uint y sdiv 16384 = uint y div 16384" for y :: u32
    by (cases "uint y = 0") (auto simp: signed_divide_int_def)
  have 4: "bme680_compensate_temp c a = bme680_compensate_temp c b"
    using assms(2) by (simp add: bme680_compensate_temp_def s)
  from 1 2 3 4 show ?thesis by blast
qed

theorem second_formulas_degenerate_witness:
  "bme680_compensate_gas sample_calib 700 0 = 0 \<and> bme680_compensate_temp sample_calib 500000 = bme680_compensate_temp sample_calib 507903
   \<and> snd (calc_temperature sample_calib 500000) \<noteq> snd (calc_temperature sample_calib 507903)"
proof -
  have "bme680_compensate_gas sample_calib 700 0 = 0 \<and> bme680_compensate_temp sample_calib 500000 = bme680_compensate_temp sample_calib 507903"
    using second_formulas_degenerate [of 0 500000 507903 0 sample_calib 700] by simp
  moreover have "snd (calc_temperature sample_calib 500000) \<noteq> snd (calc_temperature sample_calib 507903)"
    by code_simp
  ultimately show ?thesis by blast
qed

text \<open>
  The humidity formula of the second set.  Its result is between 0 and 100000 when it is
  defined; but since \<open>var3 >> 14 - calc_hum\<close> shifts by the difference, there are readings of
  a calibrated sensor for which the shift count is negative and the C code undefined.
\<close>

theorem compensate_hum_bounded_but_partial:
  "(\<forall>c t a h. bme680_compensate_hum c t a = Some h \<longrightarrow> 0 \<le> h \<and> h \<le> 100000)
   \<and> bme680_compensate_hum sample_calib 135883 20000 = None"
proof -
  have "bme680_compensate_hum c t a = Some h \<Longrightarrow> 0 \<le> h \<and> h \<le> 100000" for c t a h
    by (auto simp: bme680_compensate_hum_def Let_def split: if_splits)
  moreover have "bme680_compensate_hum sample_calib 135883 20000 = None"
    by code_simp
  ultimately show ?thesis by blast
qed

end
