(* ===== verification/Bme680_Core.thy ===== *)
theory Bme680_Core
  imports Compensation Bme680_Header
begin

unbundle bit_operations_syntax

text \<open>
  The IIO driver in \<open>bme680.c\<close>: calibration, mode, measurement, configuration, the
  \<open>read_raw\<close> and \<open>write_raw\<close> callbacks, the trigger handler and the probe.

  The register access functions are those of the kernel's regmap layer, a parameter: the
  record \<open>regmap\<close>, over a type of device states.  What \<open>bme680.c\<close> uses without any definition in
  the repository (masks and register numbers missing from \<open>bme680.h\<close>, the lookup tables) or from
  kernel headers (\<open>FIELD_PREP\<close>, \<open>FIELD_GET\<close>, \<open>get_unaligned_le16\<close>, \<open>ilog2\<close>, the IIO result
  codes) is the parameter record \<open>kernel_env\<close>.

  The whole of each callback runs under the mutex of the device structure, so a callback is a
  function on the pair of device state and device structure.
\<close>

record 'd regmap =
  regmap_read :: "u8 \<Rightarrow> 'd \<Rightarrow> 'd \<times> int \<times> u8"
  regmap_write :: "u8 \<Rightarrow> u8 \<Rightarrow> 'd \<Rightarrow> 'd \<times> int"
  regmap_bulk_read :: "u8 \<Rightarrow> nat \<Rightarrow> 'd \<Rightarrow> 'd \<times> int \<times> u8 list"
  regmap_update_bits :: "u8 \<Rightarrow> u8 \<Rightarrow> u8 \<Rightarrow> 'd \<Rightarrow> 'd \<times> int"

record kernel_env =
  BME680_MODE_MASK :: u8
  BME680_OSR_MASK :: u8
  BME680_FILTER_MASK :: u8
  BME680_FILTER_3 :: u8
  BME680_RSERROR_MASK :: u8
  BME680_CALIB_ADDR1 :: u8
  BME680_CALIB_ADDR2 :: u8
  BME680_CALIB_ADDR3 :: u8
  BME680_REG_MEAS_STATUS_0 :: u8
  BME680_ENABLE_GAS_MEAS_L :: u8
  BME680_ENABLE_HEATER :: u8
  BME680_CHIP_ID :: u8
  BME680_OSR_2X :: u8
  BME680_OSR_4X :: u8
  BME680_OSR_8X :: u8
  BME680_GAS_RANGE_RL_MASK :: u8
  lookup_k :: "nat \<Rightarrow> int"
  lookup_m :: "nat \<Rightarrow> int"
  FIELD_PREP :: "u8 \<Rightarrow> u8 \<Rightarrow> u8"
  FIELD_GET :: "u8 \<Rightarrow> u8 \<Rightarrow> u8"
  get_unaligned_le16 :: "u8 list \<Rightarrow> u16"
  ilog2 :: "int \<Rightarrow> int"
  IIO_VAL_INT :: int
  IIO_VAL_INT_PLUS_MICRO :: int


datatype bme680_op_mode = BME680_MODE_SLEEP | BME680_MODE_FORCED

fun mode_val :: "bme680_op_mode \<Rightarrow> u8" where
  "mode_val BME680_MODE_SLEEP = 0"
| "mode_val BME680_MODE_FORCED = 1"

record bme680_data =
  bme680 :: bme680_calib
  oversampling_temp :: u8
  oversampling_press :: u8
  oversampling_humid :: u8
  preheat_curr_mA :: u8
  heater_dur :: u16
  heater_temp :: u16
  temp_adc :: int
  pressure_adc :: u32
  humid_adc :: u16
  gas_adc :: u32
  gas_range :: u8
  t_fine :: int

section \<open>Calibration\<close>

text \<open>
  The three groups of assignments between the bulk reads.  A buffer is the list of bytes read;
  \<open>byte\<close> is the array access.
\<close>

definition byte :: "u8 list \<Rightarrow> nat \<Rightarrow> u8" where
  "byte buf i = (if i < length buf then buf ! i else 0)"

definition calib_part1 :: "kernel_env \<Rightarrow> u8 list \<Rightarrow> bme680_calib \<Rightarrow> bme680_calib" where
  "calib_part1 e buf c = c\<lparr>
     par_t2 := get_unaligned_le16 e (drop 0 buf), par_t3 := byte buf 2,
     par_p1 := get_unaligned_le16 e (drop 4 buf), par_p2 := get_unaligned_le16 e (drop 6 buf), par_p3 := byte buf 8,
     par_p4 := get_unaligned_le16 e (drop 10 buf), par_p5 := get_unaligned_le16 e (drop 12 buf),
     par_p6 := byte buf 15, par_p7 := byte buf 14,
     par_p8 := get_unaligned_le16 e (drop 18 buf), par_p9 := get_unaligned_le16 e (drop 20 buf), par_p10 := byte buf 22\<rparr>"

definition calib_part2 :: "kernel_env \<Rightarrow> u8 list \<Rightarrow> bme680_calib \<Rightarrow> bme680_calib" where
  "calib_part2 e buf2 c = c\<lparr>
     par_h2 := push_bit 4 (ucast (byte buf2 0)) OR (drop_bit 4 (ucast (byte buf2 1)) AND 0x0f),
     par_h1 := push_bit 4 (ucast (byte buf2 1)) OR (ucast (byte buf2 1) AND 0x0f),
     par_h3 := byte buf2 3, par_h4 := byte buf2 4, par_h5 := byte buf2 5, par_h6 := byte buf2 6, par_h7 := byte buf2 7,
     par_t1 := get_unaligned_le16 e (drop 8 buf2), par_gh2 := get_unaligned_le16 e (drop 10 buf2),
     par_gh1 := byte buf2 12, par_gh3 := byte buf2 13\<rparr>"

definition calib_part3 :: "kernel_env \<Rightarrow> u8 list \<Rightarrow> bme680_calib \<Rightarrow> bme680_calib" where
  "calib_part3 e buf3 c = c\<lparr>
     res_heat_val := byte buf3 0, res_heat_range := FIELD_GET e (BME680_RSERROR_MASK e) (byte buf3 2),
     range_sw_err := FIELD_GET e (BME680_RSERROR_MASK e) (byte buf3 4)\<rparr>"

text \<open>One bulk read followed by its assignments; the error returns skip the rest.\<close>

definition calib_group ::
  "'d regmap \<Rightarrow> u8 \<Rightarrow> nat \<Rightarrow> (u8 list \<Rightarrow> bme680_calib \<Rightarrow> bme680_calib) \<Rightarrow> 'd \<times> bme680_calib \<Rightarrow> ('d \<times> bme680_calib) \<times> int" where
  "calib_group rm reg len assign s = (case s of (d, c) \<Rightarrow>
     (case regmap_bulk_read rm reg len d of (d', ret, buf) \<Rightarrow>
        if ret < 0 then ((d', c), ret) else ((d', assign buf c), 0)))"

definition bme680_read_calib :: "kernel_env \<Rightarrow> 'd regmap \<Rightarrow> 'd \<times> bme680_calib \<Rightarrow> ('d \<times> bme680_calib) \<times> int" where
  "bme680_read_calib e rm = steps
     [calib_group rm (BME680_CALIB_ADDR1 e) 23 (calib_part1 e),
      calib_group rm (BME680_CALIB_ADDR2 e) 14 (calib_part2 e),
      calib_group rm (BME680_CALIB_ADDR3 e) 5 (calib_part3 e)]"

section \<open>Mode and measurement\<close>

definition bme680_set_mode :: "kernel_env \<Rightarrow> 'd regmap \<Rightarrow> u8 \<Rightarrow> 'd \<Rightarrow> 'd \<times> int" where
  "bme680_set_mode e rm mode d =
     (case regmap_read rm BME680_REG_CTRL_MEAS d of (d', ret, tmp) \<Rightarrow>
        if ret < 0 then (d', ret)
        else regmap_write rm BME680_REG_CTRL_MEAS
               ((tmp AND NOT (BME680_MODE_MASK e)) OR FIELD_PREP e (BME680_MODE_MASK e) mode) d')"

definition bme680_get_mode :: "kernel_env \<Rightarrow> 'd regmap \<Rightarrow> 'd \<Rightarrow> 'd \<times> int \<times> u8" where
  "bme680_get_mode e rm d =
     (case regmap_read rm BME680_REG_CTRL_MEAS d of (d', ret, val) \<Rightarrow>
        if ret < 0 then (d', ret, 0) else (d', 0, FIELD_GET e (BME680_MODE_MASK e) val))"

text \<open>The polling loop of \<open>bme680_wait_for_eoc\<close>; the argument is the number of tries left.\<close>

fun eoc_loop :: "kernel_env \<Rightarrow> 'd regmap \<Rightarrow> nat \<Rightarrow> 'd \<Rightarrow> 'd \<times> int" where
  "eoc_loop e rm 0 d = (d, - ETIMEDOUT)"
| "eoc_loop e rm (Suc tries) d =
     (case regmap_read rm (BME680_REG_MEAS_STATUS_0 e) d of (d', ret, status) \<Rightarrow>
        if ret < 0 then (d', ret)
        else if status AND BME680_NEW_DATA_MSK = 0 then (d', 0)
        else eoc_loop e rm tries d')"

definition bme680_wait_for_eoc :: "kernel_env \<Rightarrow> 'd regmap \<Rightarrow> 'd \<Rightarrow> 'd \<times> int" where
  "bme680_wait_for_eoc e rm d = eoc_loop e rm 10 d"

definition adc20 :: "u8 \<Rightarrow> u8 \<Rightarrow> u8 \<Rightarrow> u32" where
  "adc20 msb lsb xlsb = push_bit 12 (ucast msb) OR push_bit 4 (ucast lsb) OR drop_bit 4 (ucast xlsb)"

definition store_raw :: "u8 list \<Rightarrow> bme680_data \<Rightarrow> bme680_data" where
  "store_raw buf data = data\<lparr>
     pressure_adc := adc20 (byte buf 0) (byte buf 1) (byte buf 2),
     temp_adc := sint (adc20 (byte buf 3) (byte buf 4) (byte buf 5)),
     humid_adc := push_bit 8 (ucast (byte buf 6)) OR ucast (byte buf 7),
     gas_adc := push_bit 8 (ucast (byte buf 9)) OR ucast (byte buf 10),
     gas_range := byte buf 11 AND BME680_GAS_RANGE_MASK\<rparr>"

definition bme680_read_raw_data :: "kernel_env \<Rightarrow> 'd regmap \<Rightarrow> 'd \<times> bme680_data \<Rightarrow> ('d \<times> bme680_data) \<times> int" where
  "bme680_read_raw_data e rm s = (case s of (d, data) \<Rightarrow>
     (case bme680_wait_for_eoc e rm d of (d1, ret) \<Rightarrow>
        if ret < 0 then ((d1, data), ret)
        else (case regmap_bulk_read rm (BME680_REG_MEAS_STATUS_0 e) 15 d1 of (d2, ret, buf) \<Rightarrow>
                if ret < 0 then ((d2, data), ret) else ((d2, store_raw buf data), 0))))"

section \<open>Configuration\<close>

definition bme680_set_oversampling :: "kernel_env \<Rightarrow> 'd regmap \<Rightarrow> u8 \<Rightarrow> u8 \<Rightarrow> 'd \<Rightarrow> 'd \<times> int" where
  "bme680_set_oversampling e rm osr reg = regmap_update_bits rm reg (BME680_OSR_MASK e) (FIELD_PREP e (BME680_OSR_MASK e) osr)"

definition bme680_set_gas_config :: "kernel_env \<Rightarrow> 'd regmap \<Rightarrow> bme680_data \<Rightarrow> 'd \<Rightarrow> 'd \<times> int" where
  "bme680_set_gas_config e rm data = steps
     [regmap_write rm BME680_REG_GAS_WAIT_0 (ucast (heater_dur data)),
      regmap_write rm BME680_REG_RES_HEAT_0 (res_heat_val (bme680 data)),
      regmap_write rm BME680_REG_CTRL_GAS_1 (BME680_ENABLE_GAS_MEAS_L e OR BME680_ENABLE_HEATER e)]"

definition bme680_chip_config :: "kernel_env \<Rightarrow> 'd regmap \<Rightarrow> bme680_data \<Rightarrow> 'd \<Rightarrow> 'd \<times> int" where
  "bme680_chip_config e rm data = steps
     [bme680_set_oversampling e rm (oversampling_temp data) BME680_REG_CTRL_MEAS,
      bme680_set_oversampling e rm (oversampling_press data) BME680_REG_CTRL_MEAS,
      bme680_set_oversampling e rm (oversampling_humid data) BME680_REG_CTRL_HUM,
      regmap_update_bits rm BME680_REG_CONFIG (BME680_FILTER_MASK e) (FIELD_PREP e (BME680_FILTER_MASK e) (BME680_FILTER_3 e)),
      bme680_set_gas_config e rm data]"

section \<open>The IIO callbacks\<close>

datatype iio_chan_type = IIO_TEMP | IIO_PRESSURE | IIO_HUMIDITYRELATIVE | IIO_RESISTANCE | IIO_TIMESTAMP

datatype iio_chan_info = IIO_CHAN_INFO_RAW | IIO_CHAN_INFO_PROCESSED | IIO_CHAN_INFO_OVERSAMPLING_RATIO
  | IIO_CHAN_INFO_SAMP_FREQ | IIO_CHAN_INFO_HEATER_TEMP | IIO_CHAN_INFO_HEATER_DUR

definition gas_resistance :: "kernel_env \<Rightarrow> bme680_data \<Rightarrow> int option" where
  "gas_resistance e data =
     (if gas_range data AND BME680_GAS_RANGE_RL_MASK e \<noteq> 0
      then calc_gas_resistance_low (lookup_k e) (lookup_m e) (bme680 data) (uint (ucast (gas_adc data) :: u16)) (gas_range data)
      else calc_gas_resistance_high (bme680 data) (uint (ucast (gas_adc data) :: u16)) (gas_range data))"

text \<open>
  The inner switch of \<open>bme680_read_raw\<close>.  \<open>out\<close> is what the pointers \<open>val\<close> and \<open>val2\<close> refer to;
  the result is \<open>None\<close> when a formula divides by zero.
\<close>

fun read_processed :: "kernel_env \<Rightarrow> iio_chan_type \<Rightarrow> bme680_data \<Rightarrow> int \<times> int \<Rightarrow> (bme680_data \<times> int \<times> int \<times> int) option" where
  "read_processed e IIO_TEMP data out =
     (let (tf, t) = calc_temperature (bme680 data) (temp_adc data);
          data = data\<lparr>t_fine := tf\<rparr>;
          (tf2, t2) = calc_temperature (bme680 data) (temp_adc data)
      in Some (data\<lparr>t_fine := tf2\<rparr>, IIO_VAL_INT_PLUS_MICRO e, t sdiv 10, t2 smod 10 * 100000))"
| "read_processed e IIO_PRESSURE data out =
     (case calc_pressure (bme680 data) (t_fine data) (uint (pressure_adc data)) of
        None \<Rightarrow> None
      | Some p \<Rightarrow> Some (data, IIO_VAL_INT_PLUS_MICRO e, p div 1000, p mod 1000 * 1000))"
| "read_processed e IIO_HUMIDITYRELATIVE data out =
     (let h = calc_humidity (bme680 data) (t_fine data) (uint (humid_adc data))
      in Some (data, IIO_VAL_INT_PLUS_MICRO e, h div 1000, h mod 1000 * 1000))"
| "read_processed e IIO_RESISTANCE data out =
     (case gas_resistance e data of None \<Rightarrow> None | Some g \<Rightarrow> Some (data, IIO_VAL_INT e, wrap32 g, snd out))"
| "read_processed e IIO_TIMESTAMP data out = Some (data, - EINVAL, fst out, snd out)"

definition bme680_read_raw ::
  "kernel_env \<Rightarrow> 'd regmap \<Rightarrow> iio_chan_type \<Rightarrow> iio_chan_info \<Rightarrow> int \<times> int \<Rightarrow> 'd \<times> bme680_data
    \<Rightarrow> (('d \<times> bme680_data) \<times> int \<times> int \<times> int) option" where
  "bme680_read_raw e rm chan info out s = (case s of (d, data) \<Rightarrow>
     (case bme680_get_mode e rm d of (d1, ret, mode) \<Rightarrow>
        if ret < 0 then Some ((d1, data), ret, out)
        else (case (if mode = mode_val BME680_MODE_SLEEP then bme680_set_mode e rm (mode_val BME680_MODE_FORCED) d1 else (d1, 0)) of
          (d2, ret) \<Rightarrow>
            if ret < 0 then Some ((d2, data), ret, out)
            else (case bme680_read_raw_data e rm (d2, data) of (s3, ret) \<Rightarrow>
              if ret < 0 then Some (s3, ret, out)
              else if info = IIO_CHAN_INFO_PROCESSED
                then (case read_processed e chan (snd s3) out of
                        None \<Rightarrow> None | Some (data', ret, v, v2) \<Rightarrow> Some ((fst s3, data'), ret, v, v2))
                else Some (s3, - EINVAL, out)))))"

definition bme680_write_raw ::
  "kernel_env \<Rightarrow> 'd regmap \<Rightarrow> iio_chan_type \<Rightarrow> int \<Rightarrow> iio_chan_info \<Rightarrow> 'd \<times> bme680_data \<Rightarrow> ('d \<times> bme680_data) \<times> int" where
  "bme680_write_raw e rm chan val info s = (case s of (d, data) \<Rightarrow>
     (case info of
        IIO_CHAN_INFO_OVERSAMPLING_RATIO \<Rightarrow>
          (case (case chan of
                   IIO_TEMP \<Rightarrow> Some (data\<lparr>oversampling_temp := word_of_int (ilog2 e val)\<rparr>)
                 | IIO_PRESSURE \<Rightarrow> Some (data\<lparr>oversampling_press := word_of_int (ilog2 e val)\<rparr>)
                 | IIO_HUMIDITYRELATIVE \<Rightarrow> Some (data\<lparr>oversampling_humid := word_of_int (ilog2 e val)\<rparr>)
                 | _ \<Rightarrow> None) of
             None \<Rightarrow> (s, - EINVAL)
           | Some data' \<Rightarrow> (case bme680_chip_config e rm data' d of (d', ret) \<Rightarrow> ((d', data'), ret)))
      | IIO_CHAN_INFO_HEATER_TEMP \<Rightarrow>
          (let data' = data\<lparr>heater_temp := word_of_int val\<rparr>
           in case bme680_set_gas_config e rm data' d of (d', ret) \<Rightarrow> ((d', data'), ret))
      | IIO_CHAN_INFO_HEATER_DUR \<Rightarrow>
          (let data' = data\<lparr>heater_dur := word_of_int val\<rparr>
           in case bme680_set_gas_config e rm data' d of (d', ret) \<Rightarrow> ((d', data'), ret))
      | _ \<Rightarrow> (s, - EINVAL)))"

text \<open>\<open>parsed\<close> is the result of \<open>kstrtoint\<close> on the buffer: an error number or the value.\<close>

definition bme680_heater_current_store ::
  "kernel_env \<Rightarrow> 'd regmap \<Rightarrow> int + int \<Rightarrow> int \<Rightarrow> 'd \<times> bme680_data \<Rightarrow> ('d \<times> bme680_data) \<times> int" where
  "bme680_heater_current_store e rm parsed count s = (case s of (d, data) \<Rightarrow>
     (case parsed of
        Inl ret \<Rightarrow> (s, ret)
      | Inr val \<Rightarrow>
          (let data' = data\<lparr>preheat_curr_mA := word_of_int val\<rparr>
           in case bme680_set_gas_config e rm data' d of (d', ret) \<Rightarrow> ((d', data'), if ret < 0 then ret else count))))"

text \<open>
  \<open>bme680_trigger_handler\<close>: the last component is what is pushed to the buffers, if anything is.
\<close>

definition bme680_trigger_handler :: "kernel_env \<Rightarrow> 'd regmap \<Rightarrow> 'd \<times> bme680_data \<Rightarrow> (('d \<times> bme680_data) \<times> int option) option" where
  "bme680_trigger_handler e rm s =
     (case bme680_read_raw_data e rm s of ((d, data), ret) \<Rightarrow>
        if ret < 0 then Some ((d, data), None)
        else (let (tf, temp) = calc_temperature (bme680 data) (temp_adc data);
                  data = data\<lparr>t_fine := tf\<rparr>
              in case calc_pressure (bme680 data) (t_fine data) (uint (pressure_adc data)) of
                   None \<Rightarrow> None
                 | Some press \<Rightarrow> (case gas_resistance e data of
                     None \<Rightarrow> None | Some gas \<Rightarrow> Some ((d, data), Some temp))))"

section \<open>Probe\<close>

text \<open>
  The results of the kernel services the probe calls, in the order of the calls; \<open>raw\<close> is the
  zeroed structure that \<open>devm_iio_device_alloc\<close> returns.
\<close>

record probe_env =
  pe_alloc :: bool
  pe_regulators :: int
  pe_buffer :: int
  pe_trig_alloc :: bool
  pe_trig_register :: int
  pe_pm_active :: int
  pe_register :: int

definition probe_defaults :: "kernel_env \<Rightarrow> bme680_data \<Rightarrow> bme680_data" where
  "probe_defaults e data = data\<lparr>oversampling_humid := BME680_OSR_2X e, oversampling_press := BME680_OSR_4X e,
     oversampling_temp := BME680_OSR_8X e, heater_temp := 320, heater_dur := 150\<rparr>"

definition probe_tail :: "probe_env \<Rightarrow> int" where
  "probe_tail p =
     (if pe_buffer p < 0 then pe_buffer p
      else if \<not> pe_trig_alloc p then - ENOMEM
      else if pe_trig_register p \<noteq> 0 then pe_trig_register p
      else if pe_pm_active p \<noteq> 0 then pe_pm_active p
      else pe_register p)"

definition check_chip_id :: "kernel_env \<Rightarrow> 'd regmap \<Rightarrow> 'd \<Rightarrow> 'd \<times> int" where
  "check_chip_id e rm d =
     (case regmap_read rm BME680_REG_CHIP_ID d of (d', ret, chip) \<Rightarrow>
        if ret < 0 then (d', ret) else if chip \<noteq> BME680_CHIP_ID e then (d', - ENODEV) else (d', 0))"

definition probe_setup :: "kernel_env \<Rightarrow> 'd regmap \<Rightarrow> probe_env \<Rightarrow> 'd \<times> bme680_data \<Rightarrow> ('d \<times> bme680_data) \<times> int" where
  "probe_setup e rm p = steps
     [\<lambda>(d, data). (case regmap_write rm BME680_REG_SOFT_RESET BME680_CMD_SOFTRESET d of (d', ret) \<Rightarrow> ((d', data), ret)),
      \<lambda>(d, data). (case check_chip_id e rm d of (d', ret) \<Rightarrow> ((d', data), ret)),
      \<lambda>(d, data). (case bme680_read_calib e rm (d, bme680 data) of ((d', c), ret) \<Rightarrow> ((d', data\<lparr>bme680 := c\<rparr>), ret)),
      \<lambda>(d, data). (case bme680_chip_config e rm data d of (d', ret) \<Rightarrow> ((d', data), ret))]"

definition bme680_probe :: "kernel_env \<Rightarrow> 'd regmap \<Rightarrow> probe_env \<Rightarrow> bme680_data \<Rightarrow> 'd \<Rightarrow> ('d \<times> bme680_data) \<times> int" where
  "bme680_probe e rm p raw d =
     (if \<not> pe_alloc p then ((d, raw), - ENOMEM)
      else (case probe_setup e rm p (d, probe_defaults e raw) of ((d1, data), ret) \<Rightarrow>
        if ret < 0 then ((d1, data), ret)
        else if pe_regulators p \<noteq> 0 then ((d1, data), pe_regulators p)
        else (case bme680_set_mode e rm (mode_val BME680_MODE_SLEEP) d1 of (d2, ret) \<Rightarrow>
          if ret < 0 then ((d2, data), ret) else ((d2, data), probe_tail p))))"

section \<open>Thresholds\<close>

text \<open>
  \<open>check_threshold_task\<close>: the alerts sent for the entry taken from the fifo, if there was one.
  The comparison of the \<open>s32\<close> temperature with a \<open>u32\<close> threshold converts it to unsigned.
\<close>

record thresholds =
  threshold_temp :: u32
  threshold_press :: u32
  threshold_hum :: u32
  threshold_gas :: u32

record fifo_entry =
  fe_temp :: int
  fe_pressure :: u32
  fe_humidity :: u32
  fe_gas_res :: u32

definition check_threshold_task :: "thresholds \<Rightarrow> fifo_entry option \<Rightarrow> string list" where
  "check_threshold_task th got = (case got of
      None \<Rightarrow> []
    | Some f \<Rightarrow>
        (if uwrap32 (fe_temp f) > uint (threshold_temp th) then [''Temperature threshold exceeded''] else [])
        @ (if fe_pressure f > threshold_press th then [''Pressure threshold exceeded''] else [])
        @ (if fe_humidity f > threshold_hum th then [''Humidity threshold exceeded''] else [])
        @ (if fe_gas_res f > threshold_gas th then [''Gas threshold exceeded''] else []))"

text \<open>
  One round of \<open>bme680_poll_thread\<close>.  It calls \<open>bme680_read_raw_data\<close> with a second argument for
  the entry; no such function exists, so the read is a parameter, as is \<open>kfifo_put\<close>.
\<close>

record poll_state =
  pl_fifo :: "fifo_entry list"
  pl_completions :: nat
  pl_errors :: int

definition poll_round :: "(fifo_entry \<Rightarrow> fifo_entry list \<Rightarrow> fifo_entry list) \<Rightarrow> int \<times> fifo_entry \<Rightarrow> poll_state \<Rightarrow> poll_state" where
  "poll_round kfifo_put got s = (case got of (ret, fifo) \<Rightarrow>
     if ret = 0 then s\<lparr>pl_fifo := kfifo_put fifo (pl_fifo s), pl_completions := Suc (pl_completions s)\<rparr>
     else s\<lparr>pl_errors := wrap32 (pl_errors s + 1)\<rparr>)"

section \<open>What is relied on of the kernel\<close>

text \<open>
  A regmap over a device whose registers just store: reads return the stored byte, writes
  replace it, \<open>regmap_update_bits\<close> replaces the bits of the mask, a bulk read returns
  consecutive registers, and nothing fails.  \<open>get\<close> is the content of the registers.
\<close>

definition plain_regmap :: "'d regmap \<Rightarrow> ('d \<Rightarrow> u8 \<Rightarrow> u8) \<Rightarrow> bool" where
  "plain_regmap rm get \<longleftrightarrow>
     (\<forall>reg d. regmap_read rm reg d = (d, 0, get d reg))
     \<and> (\<forall>reg v d. snd (regmap_write rm reg v d) = 0 \<and> get (fst (regmap_write rm reg v d)) = (get d)(reg := v))
     \<and> (\<forall>reg m v d. snd (regmap_update_bits rm reg m v d) = 0
          \<and> get (fst (regmap_update_bits rm reg m v d)) = (get d)(reg := (get d reg AND NOT m) OR (v AND m)))
     \<and> (\<forall>reg n d. regmap_bulk_read rm reg n d = (d, 0, map (\<lambda>i. get d (reg + of_nat i)) [0..<n]))"

definition file_regmap :: "(u8 \<Rightarrow> u8) regmap" where
  "file_regmap = \<lparr>regmap_read = (\<lambda>reg d. (d, 0, d reg)), regmap_write = (\<lambda>reg v d. (d(reg := v), 0)),
     regmap_bulk_read = (\<lambda>reg n d. (d, 0, map (\<lambda>i. d (reg + of_nat i)) [0..<n])),
     regmap_update_bits = (\<lambda>reg m v d. (d(reg := (d reg AND NOT m) OR (v AND m)), 0))\<rparr>"

lemma plain_file_regmap: "plain_regmap file_regmap (\<lambda>d. d)"
  by (simp add: plain_regmap_def file_regmap_def)

lemma plain_read: "plain_regmap rm get \<Longrightarrow> regmap_read rm reg d = (d, 0, get d reg)"
  by (simp add: plain_regmap_def)

lemma plain_bulk: "plain_regmap rm get \<Longrightarrow> regmap_bulk_read rm reg n d = (d, 0, map (\<lambda>i. get d (reg + of_nat i)) [0..<n])"
  by (simp add: plain_regmap_def)

lemma plain_write:
  assumes "plain_regmap rm get"
  obtains d' where "regmap_write rm reg v d = (d', 0)" "get d' = (get d)(reg := v)"
  using assms unfolding plain_regmap_def by (metis prod.collapse)

lemma plain_update:
  assumes "plain_regmap rm get"
  obtains d' where "regmap_update_bits rm reg m v d = (d', 0)" "get d' = (get d)(reg := (get d reg AND NOT m) OR (v AND m))"
  using assms unfolding plain_regmap_def by (metis prod.collapse)

text \<open>
  \<open>FIELD_PREP\<close> puts a value into the bits of a mask and nowhere else, \<open>FIELD_GET\<close> looks at the
  bits of the mask only, and they are inverse on the values given.
\<close>

definition field_ok :: "kernel_env \<Rightarrow> u8 \<Rightarrow> u8 set \<Rightarrow> bool" where
  "field_ok e m V \<longleftrightarrow> (\<forall>v. FIELD_PREP e m v AND m = FIELD_PREP e m v) \<and> (\<forall>r. FIELD_GET e m (r AND m) = FIELD_GET e m r)
     \<and> (\<forall>v \<in> V. FIELD_GET e m (FIELD_PREP e m v) = v)"

lemma masked_or:
  fixes p m x :: "'a::len word"
  assumes "p AND m = p"
  shows "((x AND NOT m) OR p) AND m = p" "((x AND NOT m) OR p) AND NOT m = x AND NOT m"
proof -
  have b: "bit p n \<Longrightarrow> bit m n" for n using assms by (metis bit_and_iff)
  show "((x AND NOT m) OR p) AND m = p" by (rule bit_word_eqI) (auto simp: bit_simps dest: b)
  show "((x AND NOT m) OR p) AND NOT m = x AND NOT m" by (rule bit_word_eqI) (auto simp: bit_simps dest: b)
qed

text \<open>A concrete environment for the witnesses: the mode in bits 0 and 1, oversampling in bits 5 to 7.\<close>

definition shift_of :: "u8 \<Rightarrow> nat" where
  "shift_of m = (if m = 0xE0 then 5 else if m = 0x1C then 2 else if m = 0xF0 then 4 else 0)"

definition sample_env :: kernel_env where
  "sample_env = \<lparr>BME680_MODE_MASK = 0x03, BME680_OSR_MASK = 0xE0, BME680_FILTER_MASK = 0x1C, BME680_FILTER_3 = 2,
     BME680_RSERROR_MASK = 0xF0, BME680_CALIB_ADDR1 = 0x8A, BME680_CALIB_ADDR2 = 0xE1, BME680_CALIB_ADDR3 = 0,
     BME680_REG_MEAS_STATUS_0 = 0x1D, BME680_ENABLE_GAS_MEAS_L = 0x10, BME680_ENABLE_HEATER = 0, BME680_CHIP_ID = 0x61,
     BME680_OSR_2X = 2, BME680_OSR_4X = 3, BME680_OSR_8X = 4, BME680_GAS_RANGE_RL_MASK = 0,
     lookup_k = (\<lambda>_. 0), lookup_m = (\<lambda>_. 0),
     FIELD_PREP = (\<lambda>m v. push_bit (shift_of m) v AND m), FIELD_GET = (\<lambda>m r. drop_bit (shift_of m) (r AND m)),
     get_unaligned_le16 = (\<lambda>buf. ucast (byte buf 0) OR push_bit 8 (ucast (byte buf 1))),
     ilog2 = (\<lambda>x. x), IIO_VAL_INT = 1, IIO_VAL_INT_PLUS_MICRO = 2\<rparr>"

lemma sample_mode_field: "field_ok sample_env (BME680_MODE_MASK sample_env) {0, 1}"
  by (auto simp: field_ok_def sample_env_def shift_of_def and.assoc)

section \<open>Properties\<close>

lemma set_get_mode:
  assumes "plain_regmap rm get" "field_ok e (BME680_MODE_MASK e) {0, 1}"
  shows "\<exists>d'. bme680_set_mode e rm (mode_val mode) d = (d', 0) \<and> bme680_get_mode e rm d' = (d', 0, mode_val mode)
    \<and> get d' BME680_REG_CTRL_MEAS AND NOT (BME680_MODE_MASK e) = get d BME680_REG_CTRL_MEAS AND NOT (BME680_MODE_MASK e)
    \<and> (\<forall>reg. reg \<noteq> BME680_REG_CTRL_MEAS \<longrightarrow> get d' reg = get d reg)"
proof -
  let ?m = "BME680_MODE_MASK e" and ?p = "FIELD_PREP e (BME680_MODE_MASK e) (mode_val mode)"
  let ?v = "(get d BME680_REG_CTRL_MEAS AND NOT ?m) OR ?p"
  obtain d' where w: "regmap_write rm BME680_REG_CTRL_MEAS ?v d = (d', 0)" "get d' = (get d)(BME680_REG_CTRL_MEAS := ?v)"
    using plain_write [OF assms(1)] by blast
  have p: "?p AND ?m = ?p" and g: "\<And>r. FIELD_GET e ?m (r AND ?m) = FIELD_GET e ?m r" and i: "FIELD_GET e ?m ?p = mode_val mode"
    using assms(2) by (cases mode; simp add: field_ok_def)+
  have in_m: "?v AND ?m = ?p" and out_m: "?v AND NOT ?m = get d BME680_REG_CTRL_MEAS AND NOT ?m"
    using masked_or [OF p] by simp_all
  have "FIELD_GET e ?m ?v = mode_val mode" using g [of ?v] in_m i by simp
  then show ?thesis
    using w out_m by (intro exI [of _ d']) (simp add: bme680_set_mode_def bme680_get_mode_def plain_read [OF assms(1)])
qed

text \<open>
  The operating mode survives a round trip.  On a register file, with \<open>FIELD_PREP\<close> and
  \<open>FIELD_GET\<close> inverse on the mode field, \<open>bme680_set_mode\<close> succeeds, \<open>bme680_get_mode\<close> then returns
  the mode that was set, and the control register keeps every bit outside the mode field and
  every other register its value.
\<close>

theorem mode_roundtrip:
  assumes "plain_regmap rm get" "field_ok e (BME680_MODE_MASK e) {0, 1}"
  shows "\<exists>d'. bme680_set_mode e rm (mode_val mode) d = (d', 0) \<and> bme680_get_mode e rm d' = (d', 0, mode_val mode)
    \<and> get d' BME680_REG_CTRL_MEAS AND NOT (BME680_MODE_MASK e) = get d BME680_REG_CTRL_MEAS AND NOT (BME680_MODE_MASK e)
    \<and> (\<forall>reg. reg \<noteq> BME680_REG_CTRL_MEAS \<longrightarrow> get d' reg = get d reg)"
  by (rule set_get_mode [OF assms])

theorem mode_roundtrip_witness:
  "\<exists>d'. bme680_set_mode sample_env file_regmap (mode_val BME680_MODE_FORCED) (\<lambda>_. 0xAC) = (d', 0)
     \<and> bme680_get_mode sample_env file_regmap d' = (d', 0, 1)"
  using mode_roundtrip [OF plain_file_regmap sample_mode_field, of BME680_MODE_FORCED "\<lambda>_. 0xAC"] by auto

subsection \<open>Configuration\<close>

lemma gas_config_plain:
  assumes "plain_regmap rm get"
  obtains d' where "bme680_set_gas_config e rm data d = (d', 0)"
    "get d' = (get d)(BME680_REG_GAS_WAIT_0 := ucast (heater_dur data), BME680_REG_RES_HEAT_0 := res_heat_val (bme680 data),
       BME680_REG_CTRL_GAS_1 := BME680_ENABLE_GAS_MEAS_L e OR BME680_ENABLE_HEATER e)"
proof -
  obtain d1 where 1: "regmap_write rm BME680_REG_GAS_WAIT_0 (ucast (heater_dur data)) d = (d1, 0)"
    "get d1 = (get d)(BME680_REG_GAS_WAIT_0 := ucast (heater_dur data))" using plain_write [OF assms] by blast
  obtain d2 where 2: "regmap_write rm BME680_REG_RES_HEAT_0 (res_heat_val (bme680 data)) d1 = (d2, 0)"
    "get d2 = (get d1)(BME680_REG_RES_HEAT_0 := res_heat_val (bme680 data))" using plain_write [OF assms] by blast
  obtain d3 where 3: "regmap_write rm BME680_REG_CTRL_GAS_1 (BME680_ENABLE_GAS_MEAS_L e OR BME680_ENABLE_HEATER e) d2 = (d3, 0)"
    "get d3 = (get d2)(BME680_REG_CTRL_GAS_1 := BME680_ENABLE_GAS_MEAS_L e OR BME680_ENABLE_HEATER e)" using plain_write [OF assms] by blast
  show ?thesis by (rule that [of d3]) (simp_all add: bme680_set_gas_config_def 1 2 3)
qed

text \<open>The registers after a configuration, in terms of the registers before.\<close>

definition config_regs :: "kernel_env \<Rightarrow> bme680_data \<Rightarrow> (u8 \<Rightarrow> u8) \<Rightarrow> u8 \<Rightarrow> u8" where
  "config_regs e data r =
     (let set = \<lambda>reg m v r. r(reg := (r reg AND NOT m) OR (FIELD_PREP e m v AND m));
          r = set BME680_REG_CTRL_MEAS (BME680_OSR_MASK e) (oversampling_temp data) r;
          r = set BME680_REG_CTRL_MEAS (BME680_OSR_MASK e) (oversampling_press data) r;
          r = set BME680_REG_CTRL_HUM (BME680_OSR_MASK e) (oversampling_humid data) r;
          r = set BME680_REG_CONFIG (BME680_FILTER_MASK e) (BME680_FILTER_3 e) r
      in r(BME680_REG_GAS_WAIT_0 := ucast (heater_dur data), BME680_REG_RES_HEAT_0 := res_heat_val (bme680 data),
           BME680_REG_CTRL_GAS_1 := BME680_ENABLE_GAS_MEAS_L e OR BME680_ENABLE_HEATER e))"

lemma chip_config_plain:
  assumes "plain_regmap rm get"
  obtains d' where "bme680_chip_config e rm data d = (d', 0)" "get d' = config_regs e data (get d)"
proof -
  let ?m = "BME680_OSR_MASK e" and ?f = "BME680_FILTER_MASK e"
  obtain d1 where 1: "regmap_update_bits rm BME680_REG_CTRL_MEAS ?m (FIELD_PREP e ?m (oversampling_temp data)) d = (d1, 0)"
    "get d1 = (get d)(BME680_REG_CTRL_MEAS := (get d BME680_REG_CTRL_MEAS AND NOT ?m) OR (FIELD_PREP e ?m (oversampling_temp data) AND ?m))"
    using plain_update [OF assms] by blast
  obtain d2 where 2: "regmap_update_bits rm BME680_REG_CTRL_MEAS ?m (FIELD_PREP e ?m (oversampling_press data)) d1 = (d2, 0)"
    "get d2 = (get d1)(BME680_REG_CTRL_MEAS := (get d1 BME680_REG_CTRL_MEAS AND NOT ?m) OR (FIELD_PREP e ?m (oversampling_press data) AND ?m))"
    using plain_update [OF assms] by blast
  obtain d3 where 3: "regmap_update_bits rm BME680_REG_CTRL_HUM ?m (FIELD_PREP e ?m (oversampling_humid data)) d2 = (d3, 0)"
    "get d3 = (get d2)(BME680_REG_CTRL_HUM := (get d2 BME680_REG_CTRL_HUM AND NOT ?m) OR (FIELD_PREP e ?m (oversampling_humid data) AND ?m))"
    using plain_update [OF assms] by blast
  obtain d4 where 4: "regmap_update_bits rm BME680_REG_CONFIG ?f (FIELD_PREP e ?f (BME680_FILTER_3 e)) d3 = (d4, 0)"
    "get d4 = (get d3)(BME680_REG_CONFIG := (get d3 BME680_REG_CONFIG AND NOT ?f) OR (FIELD_PREP e ?f (BME680_FILTER_3 e) AND ?f))"
    using plain_update [OF assms] by blast
  obtain d5 where 5: "bme680_set_gas_config e rm data d4 = (d5, 0)"
    "get d5 = (get d4)(BME680_REG_GAS_WAIT_0 := ucast (heater_dur data), BME680_REG_RES_HEAT_0 := res_heat_val (bme680 data),
       BME680_REG_CTRL_GAS_1 := BME680_ENABLE_GAS_MEAS_L e OR BME680_ENABLE_HEATER e)" using gas_config_plain [OF assms] by blast
  show ?thesis
  proof (rule that [of d5])
    show "bme680_chip_config e rm data d = (d5, 0)"
      by (simp add: bme680_chip_config_def bme680_set_oversampling_def 1(1) 2(1) 3(1) 4(1) 5(1))
    show "get d5 = config_regs e data (get d)"
      unfolding 5(2) 4(2) 3(2) 2(2) 1(2) config_regs_def Let_def ..
  qed
qed

text \<open>
  The temperature oversampling setting is lost.  \<open>bme680_chip_config\<close> writes the
  temperature and the pressure setting to the same bits of the same register, one after the
  other.  On a register file the configuration succeeds, the field ends with the pressure
  setting, and no register depends on the temperature setting at all.
\<close>

theorem chip_config_drops_temp_oversampling:
  assumes "plain_regmap rm get"
  shows "snd (bme680_chip_config e rm data d) = 0
    \<and> get (fst (bme680_chip_config e rm data d)) BME680_REG_CTRL_MEAS AND BME680_OSR_MASK e
        = FIELD_PREP e (BME680_OSR_MASK e) (oversampling_press data) AND BME680_OSR_MASK e
    \<and> get (fst (bme680_chip_config e rm (data\<lparr>oversampling_temp := x\<rparr>) d)) = get (fst (bme680_chip_config e rm data d))"
proof -
  let ?m = "BME680_OSR_MASK e"
  obtain d1 where 1: "bme680_chip_config e rm data d = (d1, 0)" "get d1 = config_regs e data (get d)"
    using chip_config_plain [OF assms] by blast
  obtain d2 where 2: "bme680_chip_config e rm (data\<lparr>oversampling_temp := x\<rparr>) d = (d2, 0)"
    "get d2 = config_regs e (data\<lparr>oversampling_temp := x\<rparr>) (get d)"
    using chip_config_plain [OF assms] by blast
  have am: "((y AND NOT ?m) OR (v AND ?m)) AND NOT ?m = y AND NOT ?m" "((y AND NOT ?m) OR (v AND ?m)) AND ?m = v AND ?m" for y v :: u8
    by (rule masked_or, simp add: and.assoc)+
  have "config_regs e (data\<lparr>oversampling_temp := x\<rparr>) r = config_regs e data r" for r
    by (simp add: config_regs_def Let_def am)
  moreover have "config_regs e data r BME680_REG_CTRL_MEAS AND ?m = FIELD_PREP e ?m (oversampling_press data) AND ?m" for r
    by (simp add: config_regs_def Let_def am)
  ultimately show ?thesis using 1 2 by simp
qed

definition zero_data :: bme680_data where
  "zero_data = \<lparr>bme680 = sample_calib, oversampling_temp = 4, oversampling_press = 3, oversampling_humid = 2,
     preheat_curr_mA = 0, heater_dur = 150, heater_temp = 320, temp_adc = 0, pressure_adc = 0, humid_adc = 0,
     gas_adc = 0, gas_range = 0, t_fine = 0\<rparr>"

theorem chip_config_drops_temp_oversampling_witness:
  "fst (bme680_chip_config sample_env file_regmap zero_data (\<lambda>_. 0)) BME680_REG_CTRL_MEAS AND 0xE0 = 0x60"
  using chip_config_drops_temp_oversampling [OF plain_file_regmap, of sample_env zero_data "\<lambda>_. 0"]
  by (simp add: sample_env_def zero_data_def shift_of_def)

text \<open>
  The heater settings do not reach the chip.  For every bus, whatever temperature is
  written through \<open>IIO_CHAN_INFO_HEATER_TEMP\<close> and whatever current through the sysfs attribute,
  the bus sees the same accesses with the same results: only the heater duration, cut to 8 bits,
  is ever written.
\<close>

theorem heater_settings_unused:
  "fst (fst (bme680_write_raw e rm chan v IIO_CHAN_INFO_HEATER_TEMP (d, data)))
     = fst (fst (bme680_write_raw e rm chan w IIO_CHAN_INFO_HEATER_TEMP (d, data)))
   \<and> snd (bme680_write_raw e rm chan v IIO_CHAN_INFO_HEATER_TEMP (d, data)) = snd (bme680_set_gas_config e rm data d)
   \<and> fst (fst (bme680_heater_current_store e rm (Inr v) n (d, data))) = fst (bme680_set_gas_config e rm data d)
   \<and> fst (fst (bme680_write_raw e rm chan (v + 256) IIO_CHAN_INFO_HEATER_DUR (d, data)))
     = fst (fst (bme680_write_raw e rm chan v IIO_CHAN_INFO_HEATER_DUR (d, data)))"
proof -
  have 1: "bme680_set_gas_config e rm (data\<lparr>heater_temp := x\<rparr>) = bme680_set_gas_config e rm data"
    "bme680_set_gas_config e rm (data\<lparr>preheat_curr_mA := y\<rparr>) = bme680_set_gas_config e rm data" for x y
    by (simp_all add: bme680_set_gas_config_def fun_eq_iff)
  have dur: "(ucast x :: u8) = ucast y \<Longrightarrow> bme680_set_gas_config e rm (data\<lparr>heater_dur := x\<rparr>) = bme680_set_gas_config e rm (data\<lparr>heater_dur := y\<rparr>)" for x y
    by (simp add: bme680_set_gas_config_def fun_eq_iff)
  have u: "(ucast (word_of_int x :: u16) :: u8) = word_of_int x" for x
    by (simp add: ucast_down_wi is_down)
  have "(word_of_int (v + 256) :: u8) = word_of_int v"
    by (simp add: word_of_int_eq_iff take_bit_eq_mod del: of_int_add)
  then have "(ucast (word_of_int (v + 256) :: u16) :: u8) = ucast (word_of_int v :: u16)" unfolding u .
  then have 2: "bme680_set_gas_config e rm (data\<lparr>heater_dur := word_of_int (v + 256)\<rparr>) = bme680_set_gas_config e rm (data\<lparr>heater_dur := word_of_int v\<rparr>)"
    using dur by blast
  show ?thesis by (simp add: bme680_write_raw_def bme680_heater_current_store_def 1 2 Let_def split: prod.splits del: of_int_add)
qed

subsection \<open>Measurement\<close>

text \<open>The n-th successive read of the status register, from 0.\<close>

fun nth_status :: "kernel_env \<Rightarrow> 'd regmap \<Rightarrow> nat \<Rightarrow> 'd \<Rightarrow> int \<times> u8" where
  "nth_status e rm 0 d = snd (regmap_read rm (BME680_REG_MEAS_STATUS_0 e) d)"
| "nth_status e rm (Suc n) d = nth_status e rm n (fst (regmap_read rm (BME680_REG_MEAS_STATUS_0 e) d))"

definition new_data_seen :: "kernel_env \<Rightarrow> 'd regmap \<Rightarrow> nat \<Rightarrow> 'd \<Rightarrow> bool" where
  "new_data_seen e rm n d \<longleftrightarrow> 0 \<le> fst (nth_status e rm n d) \<and> snd (nth_status e rm n d) AND BME680_NEW_DATA_MSK \<noteq> 0"

lemma new_data_seen_Suc:
  "new_data_seen e rm (Suc n) d = new_data_seen e rm n (fst (regmap_read rm (BME680_REG_MEAS_STATUS_0 e) d))"
  by (simp add: new_data_seen_def)

lemma eoc_loop_result:
  "snd (eoc_loop e rm tries d) =
     (if \<forall>n < tries. new_data_seen e rm n d then - ETIMEDOUT
      else (let n = (LEAST n. n < tries \<and> \<not> new_data_seen e rm n d)
            in min 0 (fst (nth_status e rm n d))))"
proof (induction tries arbitrary: d)
  case 0
  show ?case by simp
next
  case (Suc tries)
  obtain d' ret st where r: "regmap_read rm (BME680_REG_MEAS_STATUS_0 e) d = (d', ret, st)" by (metis prod_cases3)
  show ?case
  proof (cases "new_data_seen e rm 0 d")
    case True
    then have step: "eoc_loop e rm (Suc tries) d = eoc_loop e rm tries d'" by (simp add: r new_data_seen_def)
    have all: "(\<forall>n < Suc tries. new_data_seen e rm n d) \<longleftrightarrow> (\<forall>n < tries. new_data_seen e rm n d')"
      using True by (simp add: All_less_Suc2 new_data_seen_Suc r)
    show ?thesis
    proof (cases "\<forall>n < tries. new_data_seen e rm n d'")
      case True
      then show ?thesis using Suc.IH [of d'] all step by simp
    next
      case False
      then obtain k where k: "k < tries \<and> \<not> new_data_seen e rm k d'" by blast
      have least: "(LEAST n. n < Suc tries \<and> \<not> new_data_seen e rm n d) = Suc (LEAST n. n < tries \<and> \<not> new_data_seen e rm n d')"
        using k True Least_Suc [of "\<lambda>n. n < Suc tries \<and> \<not> new_data_seen e rm n d" "Suc k"]
        by (simp add: new_data_seen_Suc r)
      have nall: "\<not> (\<forall>n < Suc tries. new_data_seen e rm n d)" using all False by blast
      show ?thesis unfolding if_not_P [OF nall] step Let_def least
        by (simp only: Suc.IH if_not_P [OF False] Let_def nth_status.simps r fst_conv)
    qed
  next
    case False
    then have "(LEAST n. n < Suc tries \<and> \<not> new_data_seen e rm n d) = 0" by (intro Least_equality) auto
    moreover have "snd (eoc_loop e rm (Suc tries) d) = min 0 (fst (nth_status e rm 0 d))"
      using False by (auto simp: r new_data_seen_def)
    ultimately show ?thesis using False by (auto simp: Let_def)
  qed
qed

text \<open>
  C23: what \<open>bme680_wait_for_eoc\<close> waits for.  The status register is read at most ten times.
  The result is a timeout exactly when all ten reads show the new-data bit set; otherwise it is
  decided by the first read that fails or shows the bit clear: its error, or success.  So a
  sensor that reports a finished measurement is reported as a timeout, and one that reports
  none is read at once.
\<close>

theorem wait_for_eoc_result:
  "snd (bme680_wait_for_eoc e rm d) =
     (if \<forall>n < 10. new_data_seen e rm n d then - ETIMEDOUT
      else min 0 (fst (nth_status e rm (LEAST n. n < 10 \<and> \<not> new_data_seen e rm n d) d)))
   \<and> (0 \<le> fst (nth_status e rm 0 d) \<and> snd (nth_status e rm 0 d) AND BME680_NEW_DATA_MSK = 0
       \<longrightarrow> snd (bme680_wait_for_eoc e rm d) = 0)"
proof -
  obtain d' ret st where r: "regmap_read rm (BME680_REG_MEAS_STATUS_0 e) d = (d', ret, st)" by (metis prod_cases3)
  have "snd (bme680_wait_for_eoc e rm d) = 0" if "0 \<le> fst (nth_status e rm 0 d)" "snd (nth_status e rm 0 d) AND BME680_NEW_DATA_MSK = 0"
    using that eoc_loop.simps(2) [of e rm 9 d] by (simp add: bme680_wait_for_eoc_def r)
  then show ?thesis using eoc_loop_result [of e rm 10 d] unfolding bme680_wait_for_eoc_def Let_def by blast
qed

lemma nth_status_file: "nth_status e file_regmap n d = (0, d (BME680_REG_MEAS_STATUS_0 e))"
  by (induction n) (simp_all add: file_regmap_def)

theorem wait_for_eoc_result_witness:
  "snd (bme680_wait_for_eoc sample_env file_regmap (\<lambda>_. 0x80)) = - ETIMEDOUT
   \<and> snd (bme680_wait_for_eoc sample_env file_regmap (\<lambda>_. 0)) = 0"
  using wait_for_eoc_result [of sample_env file_regmap "\<lambda>_. 0x80"] wait_for_eoc_result [of sample_env file_regmap "\<lambda>_. 0"]
  by (simp add: new_data_seen_def nth_status_file Least_equality del: nth_status.simps)

lemma uint_or_disjoint: "x AND y = 0 \<Longrightarrow> uint (x OR y) = uint x + uint y"
  by (metis unsigned_and_eq unsigned_or_eq unsigned_0 disjunctive_add_eq_or)

lemma uint_adc20: "uint (adc20 a b c) = uint a * 4096 + uint b * 16 + uint c div 16"
proof -
  have u: "uint a < 256" "uint b < 256" "uint c < 256" "0 \<le> uint a" "0 \<le> uint b" "0 \<le> uint c"
    using u8_range [of a] u8_range [of b] u8_range [of c] by simp_all
  have "uint (push_bit 12 (ucast a :: u32)) = uint a * 4096"
    unfolding unsigned_push_bit_eq unsigned_ucast_eq using u by (simp add: take_bit_eq_mod push_bit_eq_mult)
  moreover have "uint (push_bit 4 (ucast b :: u32)) = uint b * 16"
    unfolding unsigned_push_bit_eq unsigned_ucast_eq using u by (simp add: take_bit_eq_mod push_bit_eq_mult)
  moreover have "uint (drop_bit 4 (ucast c :: u32)) = uint c div 16"
    unfolding unsigned_drop_bit_eq unsigned_ucast_eq using u by (simp add: take_bit_eq_mod drop_bit_eq_div)
  moreover have bl: "bit x k \<Longrightarrow> k < 8" for x :: u8 and k using bit_imp_le_length [of x k] by simp
  have "push_bit 4 (ucast b :: u32) AND drop_bit 4 (ucast c) = 0" 
    "push_bit 12 (ucast a :: u32) AND (push_bit 4 (ucast b) OR drop_bit 4 (ucast c)) = 0"
    by (rule bit_word_eqI, auto simp: bit_simps dest!: bl)+
  ultimately show ?thesis
    unfolding adc20_def or.assoc by (simp add: uint_or_disjoint)
qed

lemma adc20_range: "uint (adc20 a b c) < 1048576" "sint (adc20 a b c) = uint (adc20 a b c)"
proof -
  show lt: "uint (adc20 a b c) < 1048576"
    using u8_range [of a] u8_range [of b] u8_range [of c] unfolding uint_adc20 by simp
  then show "sint (adc20 a b c) = uint (adc20 a b c)"
    by (simp add: sint_uint signed_take_bit_eq_if_positive bit_uint_iff bit_iff_odd take_bit_int_eq_self)
qed

lemma gas_range_small: "unat (x AND BME680_GAS_RANGE_MASK :: u8) < 16"
  using const_array_index [of x] by simp

text \<open>What a successful read leaves: all readings within the widths of the sensor's converters.\<close>

definition adc_ok :: "bme680_data \<Rightarrow> bool" where
  "adc_ok data \<longleftrightarrow> 0 \<le> temp_adc data \<and> temp_adc data < 1048576 \<and> uint (pressure_adc data) < 1048576
     \<and> uint (gas_adc data) < 65536 \<and> unat (gas_range data) < 16"

lemma store_raw_ok: "adc_ok (store_raw buf data)" "bme680 (store_raw buf data) = bme680 data" "t_fine (store_raw buf data) = t_fine data"
proof -
  have "uint (push_bit 8 (ucast a :: u32) OR ucast b) < 65536" for a b :: u8
  proof -
    have bl: "bit x k \<Longrightarrow> k < 8" for x :: u8 and k using bit_imp_le_length [of x k] by simp
    have "push_bit 8 (ucast a :: u32) AND ucast b = 0" by (rule bit_word_eqI, auto simp: bit_simps dest!: bl)
    moreover have "uint (push_bit 8 (ucast a :: u32)) = uint a * 256" "uint (ucast b :: u32) = uint b"
      unfolding unsigned_push_bit_eq unsigned_ucast_eq using u8_range [of a] u8_range [of b]
      by (simp_all add: take_bit_eq_mod push_bit_eq_mult)
    ultimately show ?thesis using u8_range [of a] u8_range [of b] by (simp add: uint_or_disjoint)
  qed
  then show "adc_ok (store_raw buf data)" by (simp add: adc_ok_def store_raw_def adc20_range gas_range_small)
qed (simp_all add: store_raw_def)

lemma read_raw_data_ok:
  assumes "bme680_read_raw_data e rm (d, data) = ((d', data'), ret)"
  shows "if ret < 0 then data' = data else adc_ok data' \<and> bme680 data' = bme680 data \<and> t_fine data' = t_fine data"
  using assms by (auto simp: bme680_read_raw_data_def store_raw_ok split: prod.splits if_splits)

text \<open>
  C22: raw readings are within range, or nothing changes.  For every bus, when
  \<open>bme680_read_raw_data\<close> succeeds the temperature and pressure readings have 20 bits, the gas
  reading 16 and the gas range 4, so that the table index and the shift of the gas formulas are
  in bounds; when it fails the device structure is unchanged.  On a register file whose status
  register is the one of \<open>bme680.h\<close> (0x1D), the pressure reading is assembled from registers
  0x1D to 0x1F, not from the registers 0x1F to 0x21 the header gives for it.
\<close>

theorem read_raw_data_in_range:
  assumes "bme680_read_raw_data e rm (d, data) = ((d', data'), ret)"
  shows "(if ret < 0 then data' = data
     else 0 \<le> temp_adc data' \<and> temp_adc data' < 1048576 \<and> uint (pressure_adc data') < 1048576
       \<and> uint (gas_adc data') < 65536 \<and> unat (gas_range data') < 16 \<and> bme680 data' = bme680 data)
   \<and> (plain_regmap rm get \<and> BME680_REG_MEAS_STATUS_0 e = 0x1D \<and> 0 \<le> ret
       \<longrightarrow> uint (pressure_adc data') = uint (get d 0x1D) * 4096 + uint (get d 0x1E) * 16 + uint (get d 0x1F) div 16)"
proof -
  have "uint (pressure_adc data') = uint (get d 0x1D) * 4096 + uint (get d 0x1E) * 16 + uint (get d 0x1F) div 16"
    if p: "plain_regmap rm get" and reg: "BME680_REG_MEAS_STATUS_0 e = 0x1D" and "0 \<le> ret"
  proof -
    have "fst (eoc_loop e rm n x) = x" for n x by (induction n) (simp_all add: plain_read [OF p])
    then obtain r where w: "bme680_wait_for_eoc e rm d = (d, r)" by (metis bme680_wait_for_eoc_def prod.collapse)
    have "data' = store_raw (map (\<lambda>i. get d (0x1D + of_nat i)) [0..<15]) data"
      using assms \<open>0 \<le> ret\<close> by (auto simp: bme680_read_raw_data_def w plain_bulk [OF p] reg split: if_splits)
    then show ?thesis by (simp add: store_raw_def uint_adc20 byte_def)
  qed
  then show ?thesis using read_raw_data_ok [OF assms] by (auto simp: adc_ok_def split: if_splits)
qed

theorem read_raw_data_in_range_witness:
  "\<exists>data' ret. bme680_read_raw_data sample_env file_regmap ((\<lambda>_. 0x12), zero_data) = (((\<lambda>_. 0x12), data'), ret)
     \<and> 0 \<le> ret \<and> uint (pressure_adc data') = 0x12 * 4096 + 0x12 * 16 + 1 \<and> unat (gas_range data') < 16"
proof -
  obtain d' data' ret where r: "bme680_read_raw_data sample_env file_regmap ((\<lambda>_. 0x12), zero_data) = ((d', data'), ret)"
    by (metis prod.collapse)
  have ok: "0 \<le> ret" "d' = (\<lambda>_. 0x12)"
    using r eoc_loop.simps(2) [of sample_env file_regmap 9 "\<lambda>_. 0x12"]
    by (auto simp: bme680_read_raw_data_def bme680_wait_for_eoc_def file_regmap_def split: if_splits)
  from read_raw_data_in_range [OF r, of "\<lambda>d. d"] ok plain_file_regmap show ?thesis
    using r by (simp add: sample_env_def)
qed

subsection \<open>The callbacks\<close>

text \<open>A call of \<open>bme680_read_raw\<close> that does not end in a bus error went through a successful raw read.\<close>

lemma read_raw_cases:
  assumes "bme680_read_raw e rm chan info out (d, data) = Some ((d', data'), ret, v, v2)"
  shows "(ret < 0 \<and> (v, v2) = out \<and> (data' = data \<or> adc_ok data'))
    \<or> (info = IIO_CHAN_INFO_PROCESSED \<and> (\<exists>raw. adc_ok raw \<and> bme680 raw = bme680 data \<and> t_fine raw = t_fine data
         \<and> read_processed e chan raw out = Some (data', ret, v, v2)))"
proof -
  obtain d1 r1 mode where g: "bme680_get_mode e rm d = (d1, r1, mode)" by (metis prod_cases3)
  obtain d2 r2 where f: "(if mode = mode_val BME680_MODE_SLEEP then bme680_set_mode e rm (mode_val BME680_MODE_FORCED) d1 else (d1, 0)) = (d2, r2)"
    by fastforce
  obtain d3 data3 r3 where r: "bme680_read_raw_data e rm (d2, data) = ((d3, data3), r3)" by (metis prod.collapse)
  have eq: "bme680_read_raw e rm chan info out (d, data) =
     (if r1 < 0 then Some ((d1, data), r1, out) else if r2 < 0 then Some ((d2, data), r2, out)
      else if r3 < 0 then Some ((d3, data3), r3, out)
      else if info = IIO_CHAN_INFO_PROCESSED
        then (case read_processed e chan data3 out of None \<Rightarrow> None | Some (data', ret, v, v2) \<Rightarrow> Some ((d3, data'), ret, v, v2))
        else Some ((d3, data3), - EINVAL, out))"
    unfolding bme680_read_raw_def prod.case g f r snd_conv fst_conv ..
  have "if r3 < 0 then data3 = data else adc_ok data3 \<and> bme680 data3 = bme680 data \<and> t_fine data3 = t_fine data"
    by (rule read_raw_data_ok [OF r])
  then show ?thesis using assms unfolding eq by (auto split: if_splits option.splits)
qed

lemma trunc_recombine: "10 * (t sdiv 10) + (t smod 10 * 100000) div 100000 = (t :: int)" "\<bar>t smod 10 * 100000\<bar> \<le> 900000"
proof -
  have "t smod 10 = t - (t sdiv 10) * 10" using sdiv_mult_smod_eq [of t 10] by linarith
  then show "10 * (t sdiv 10) + (t smod 10 * 100000) div 100000 = t" by simp
  have "\<bar>t smod 10\<bar> < 10" using smod_int_range [of 10 t] by auto
  then show "\<bar>t smod 10 * 100000\<bar> \<le> 900000" by (simp add: abs_mult)
qed

text \<open>
  C5: a temperature read returns the compensated temperature.  For every bus and calibration,
  when \<open>bme680_read_raw\<close> of the processed temperature does not fail, the device structure holds
  a 20-bit reading, \<open>t_fine\<close> is the exact value of the formula on it, and the two integers
  returned stand for the value of \<open>calc_temperature\<close>: ten times the first plus the second in
  units of 100000, with the second below one million in absolute value.  Every other
  \<open>info\<close> than the processed value, the raw value the channels advertise included, fails.
\<close>

theorem read_raw_temperature:
  assumes "bme680_read_raw e rm IIO_TEMP info out (d, data) = Some ((d', data'), ret, v, v2)" "0 \<le> ret"
  shows "info = IIO_CHAN_INFO_PROCESSED \<and> ret = IIO_VAL_INT_PLUS_MICRO e
    \<and> bme680 data' = bme680 data \<and> adc_ok data'
    \<and> t_fine data' = t_fine_spec (bme680 data) (temp_adc data')
    \<and> 10 * v + v2 div 100000 = snd (calc_temperature (bme680 data) (temp_adc data')) \<and> \<bar>v2\<bar> \<le> 900000"
proof -
  obtain raw where raw: "info = IIO_CHAN_INFO_PROCESSED" "adc_ok raw" "bme680 raw = bme680 data"
    "read_processed e IIO_TEMP raw out = Some (data', ret, v, v2)"
    using read_raw_cases [OF assms(1)] assms(2) by auto
  let ?c = "calc_temperature (bme680 data) (temp_adc raw)"
  have res: "data' = raw\<lparr>t_fine := fst ?c\<rparr>" "ret = IIO_VAL_INT_PLUS_MICRO e" "v = snd ?c sdiv 10" "v2 = snd ?c smod 10 * 100000"
    using raw(3,4) by (auto simp: Let_def split: prod.splits)
  have "fst ?c = t_fine_spec (bme680 data) (temp_adc raw)"
    using raw(2) by (simp add: adc_ok_def t_fine_exact)
  then show ?thesis
    using raw res trunc_recombine [of "snd ?c"] by (simp add: adc_ok_def)
qed

lemma eoc_clear:
  assumes "d (BME680_REG_MEAS_STATUS_0 e) AND BME680_NEW_DATA_MSK = 0"
  shows "bme680_wait_for_eoc e file_regmap d = (d, 0)"
  using assms eoc_loop.simps(2) [of e file_regmap 9 d] by (simp add: bme680_wait_for_eoc_def file_regmap_def)

lemma read_raw_sample:
  "\<exists>data' ret v v2. bme680_read_raw sample_env file_regmap IIO_TEMP IIO_CHAN_INFO_PROCESSED (0, 0) ((\<lambda>_. 0x12), zero_data)
     = Some (((\<lambda>_. 0x12), data'), ret, v, v2) \<and> 0 \<le> ret"
proof -
  have "bme680_wait_for_eoc sample_env file_regmap (\<lambda>_. 0x12) = ((\<lambda>_. 0x12), 0)" by (rule eoc_clear) simp
  then show ?thesis
    by (simp add: bme680_read_raw_def bme680_get_mode_def bme680_read_raw_data_def file_regmap_def sample_env_def shift_of_def
        drop_bit_0 Let_def split: prod.splits)
qed

theorem read_raw_temperature_witness:
  "\<exists>data' ret v v2. bme680_read_raw sample_env file_regmap IIO_TEMP IIO_CHAN_INFO_PROCESSED (0, 0) ((\<lambda>_. 0x12), zero_data)
     = Some (((\<lambda>_. 0x12), data'), ret, v, v2) \<and> ret = 2 \<and> adc_ok data'
     \<and> 10 * v + v2 div 100000 = snd (calc_temperature sample_calib (temp_adc data'))"
proof -
  obtain data' ret v v2 where r: "bme680_read_raw sample_env file_regmap IIO_TEMP IIO_CHAN_INFO_PROCESSED (0, 0) ((\<lambda>_. 0x12), zero_data)
     = Some (((\<lambda>_. 0x12), data'), ret, v, v2)" "0 \<le> ret" using read_raw_sample by blast
  from read_raw_temperature [OF r] r(1) show ?thesis by (auto simp: sample_env_def zero_data_def)
qed

text \<open>
  C37: pressure and humidity are compensated with an old temperature.  For every bus a
  successful read of the processed pressure or humidity leaves \<open>t_fine\<close> as it was, although
  the call has just stored a new temperature reading: the value returned uses the temperature
  of the last temperature read, or 0 when there was none.
\<close>

theorem read_raw_stale_t_fine:
  assumes "bme680_read_raw e rm chan info out (d, data) = Some ((d', data'), ret, v, v2)" "0 \<le> ret"
    "chan = IIO_PRESSURE \<or> chan = IIO_HUMIDITYRELATIVE"
  shows "t_fine data' = t_fine data
    \<and> (chan = IIO_HUMIDITYRELATIVE \<longrightarrow> 1000 * v + v2 div 1000 = calc_humidity (bme680 data) (t_fine data) (uint (humid_adc data')))
    \<and> (chan = IIO_PRESSURE \<longrightarrow> calc_pressure (bme680 data) (t_fine data) (uint (pressure_adc data')) = Some (1000 * v + v2 div 1000))"
proof -
  have "(info = IIO_CHAN_INFO_PROCESSED \<and> (\<exists>raw. adc_ok raw \<and> bme680 raw = bme680 data \<and> t_fine raw = t_fine data
         \<and> read_processed e chan raw out = Some (data', ret, v, v2)))"
    using read_raw_cases [OF assms(1)] assms(2) by auto
  then show ?thesis using assms(3) by (auto simp: Let_def split: option.splits)
qed

theorem read_raw_stale_t_fine_witness:
  "\<exists>data' ret v v2. bme680_read_raw sample_env file_regmap IIO_HUMIDITYRELATIVE IIO_CHAN_INFO_PROCESSED (0, 0) ((\<lambda>_. 0x12), zero_data)
     = Some (((\<lambda>_. 0x12), data'), ret, v, v2) \<and> t_fine data' = 0
     \<and> 1000 * v + v2 div 1000 = calc_humidity sample_calib 0 (uint (humid_adc data'))"
proof -
  have "bme680_wait_for_eoc sample_env file_regmap (\<lambda>_. 0x12) = ((\<lambda>_. 0x12), 0)" by (rule eoc_clear) simp
  then have "\<exists>data' ret v v2. bme680_read_raw sample_env file_regmap IIO_HUMIDITYRELATIVE IIO_CHAN_INFO_PROCESSED (0, 0) ((\<lambda>_. 0x12), zero_data)
     = Some (((\<lambda>_. 0x12), data'), ret, v, v2) \<and> 0 \<le> ret"
    by (simp add: bme680_read_raw_def bme680_get_mode_def bme680_read_raw_data_def file_regmap_def sample_env_def shift_of_def Let_def)
  then obtain data' ret v v2 where r: "bme680_read_raw sample_env file_regmap IIO_HUMIDITYRELATIVE IIO_CHAN_INFO_PROCESSED (0, 0) ((\<lambda>_. 0x12), zero_data)
     = Some (((\<lambda>_. 0x12), data'), ret, v, v2)" "0 \<le> ret" by blast
  from read_raw_stale_t_fine [OF r] r(1) show ?thesis by (auto simp: zero_data_def)
qed

subsection \<open>Calibration, probe, thresholds\<close>

text \<open>
  The calibration value \<open>par_h1\<close> is read from the wrong byte.  It is assembled from byte 1
  of the second block alone, eight bits and again its low four, and byte 2 of the block, where
  the chip keeps the high part of \<open>par_h1\<close>, influences no calibration value at all.  When all
  three bulk reads succeed, \<open>bme680_read_calib\<close> returns 0 with every field assigned; when one
  fails, its error number is returned.
\<close>

theorem read_calib_h1:
  "par_h1 (calib_part2 e buf c) = push_bit 4 (ucast (byte buf 1)) OR (ucast (byte buf 1) AND 0x0f)
   \<and> calib_part2 e (buf[2 := x]) c = calib_part2 e buf c
   \<and> (let (d1, r1, b1) = regmap_bulk_read rm (BME680_CALIB_ADDR1 e) 23 d;
          (d2, r2, b2) = regmap_bulk_read rm (BME680_CALIB_ADDR2 e) 14 d1;
          (d3, r3, b3) = regmap_bulk_read rm (BME680_CALIB_ADDR3 e) 5 d2
      in bme680_read_calib e rm (d, c) =
         (if r1 < 0 then ((d1, c), r1)
          else if r2 < 0 then ((d2, calib_part1 e b1 c), r2)
          else if r3 < 0 then ((d3, calib_part2 e b2 (calib_part1 e b1 c)), r3)
          else ((d3, calib_part3 e b3 (calib_part2 e b2 (calib_part1 e b1 c))), 0)))"
proof -
  have "byte (buf[2 := x]) i = byte buf i" if "i \<noteq> 2" for i using that by (simp add: byte_def)
  moreover have "drop 8 (buf[2 := x]) = drop 8 buf" "drop 10 (buf[2 := x]) = drop 10 buf" by (simp_all add: drop_update_cancel)
  ultimately show ?thesis
    by (simp add: calib_part2_def bme680_read_calib_def calib_group_def split: prod.splits)
qed

text \<open>
  C24: probing a foreign chip changes nothing but the reset register.  On a register file whose
  identification register is not the expected one the probe returns \<open>-ENODEV\<close>, and only the
  soft reset was written.  On the right chip, when every kernel service succeeds, it returns 0
  with the chip configured and in sleep mode.
\<close>

theorem probe_correct:
  assumes "plain_regmap rm get" "field_ok e (BME680_MODE_MASK e) {0, 1}" "pe_alloc p"
  shows "(get d BME680_REG_CHIP_ID \<noteq> BME680_CHIP_ID e \<longrightarrow>
      snd (bme680_probe e rm p raw d) = - ENODEV
      \<and> get (fst (fst (bme680_probe e rm p raw d))) = (get d)(BME680_REG_SOFT_RESET := BME680_CMD_SOFTRESET))
    \<and> (get d BME680_REG_CHIP_ID = BME680_CHIP_ID e \<and> pe_regulators p = 0 \<longrightarrow>
      snd (bme680_probe e rm p raw d) = probe_tail p
      \<and> (\<exists>d'. fst (fst (bme680_probe e rm p raw d)) = d' \<and> bme680_get_mode e rm d' = (d', 0, mode_val BME680_MODE_SLEEP)))"
proof -
  obtain d1 where d1: "regmap_write rm BME680_REG_SOFT_RESET BME680_CMD_SOFTRESET d = (d1, 0)"
    "get d1 = (get d)(BME680_REG_SOFT_RESET := BME680_CMD_SOFTRESET)" using plain_write [OF assms(1)] by blast
  have chip: "check_chip_id e rm d1 = (d1, if get d BME680_REG_CHIP_ID \<noteq> BME680_CHIP_ID e then - ENODEV else 0)"
    by (simp add: check_chip_id_def plain_read [OF assms(1)] d1(2))
  have calib: "\<exists>c'. bme680_read_calib e rm (x, c) = ((x, c'), 0)" for x c
    by (simp add: bme680_read_calib_def calib_group_def plain_bulk [OF assms(1)])
  show ?thesis
  proof (cases "get d BME680_REG_CHIP_ID = BME680_CHIP_ID e")
    case False
    then show ?thesis using assms(3) d1 chip by (simp add: bme680_probe_def probe_setup_def)
  next
    case True
    obtain c' where c': "bme680_read_calib e rm (d1, bme680 (probe_defaults e raw)) = ((d1, c'), 0)" using calib by blast
    let ?data = "(probe_defaults e raw)\<lparr>bme680 := c'\<rparr>"
    obtain d2 where d2: "bme680_chip_config e rm ?data d1 = (d2, 0)" using chip_config_plain [OF assms(1)] by blast
    obtain d3 where d3: "bme680_set_mode e rm (mode_val BME680_MODE_SLEEP) d2 = (d3, 0)"
      "bme680_get_mode e rm d3 = (d3, 0, mode_val BME680_MODE_SLEEP)" using set_get_mode [OF assms(1,2)] by blast
    have "probe_setup e rm p (d, probe_defaults e raw) = ((d2, ?data), 0)"
      using True by (simp add: probe_setup_def d1(1) chip c' d2)
    then show ?thesis using assms(3) True d3 by (simp add: bme680_probe_def)
  qed
qed

definition services_ok :: probe_env where
  "services_ok = \<lparr>pe_alloc = True, pe_regulators = 0, pe_buffer = 0, pe_trig_alloc = True, pe_trig_register = 0,
     pe_pm_active = 0, pe_register = 0\<rparr>"

theorem probe_correct_witness:
  "snd (bme680_probe sample_env file_regmap services_ok zero_data (\<lambda>_. 0)) = - ENODEV
   \<and> snd (bme680_probe sample_env file_regmap services_ok zero_data (\<lambda>_. 0x61)) = 0"
proof -
  have a: "pe_alloc services_ok" "pe_regulators services_ok = 0" "probe_tail services_ok = 0" by (simp_all add: services_ok_def probe_tail_def)
  show ?thesis
    using probe_correct [OF plain_file_regmap sample_mode_field a(1), of "\<lambda>_. 0" zero_data]
      probe_correct [OF plain_file_regmap sample_mode_field a(1), of "\<lambda>_. 0x61" zero_data] a
    by (simp add: sample_env_def)
qed

text \<open>
  Threshold alerts, and the alert every frost raises.  For a non-negative temperature the
  task sends exactly the alerts of the values above their thresholds; but the temperature is
  compared as an unsigned number, so a negative one raises the temperature alert for every
  threshold below 2147483648.
\<close>

theorem threshold_alerts:
  assumes "-2147483648 \<le> fe_temp f" "fe_temp f \<le> 2147483647"
  shows "(''Temperature threshold exceeded'' \<in> set (check_threshold_task th (Some f))
     \<longleftrightarrow> (if 0 \<le> fe_temp f then uint (threshold_temp th) < fe_temp f else uint (threshold_temp th) < fe_temp f + 4294967296))
    \<and> (fe_temp f < 0 \<and> uint (threshold_temp th) < 2147483648
     \<longrightarrow> ''Temperature threshold exceeded'' \<in> set (check_threshold_task th (Some f)))"
proof -
  have neg: "uwrap32 x = x + 4294967296" if "-2147483648 \<le> x" "x < 0" for x
    unfolding uwrap32_def by (rule int_mod_pos_eq [of _ _ "-1"]) (use that in simp_all)
  have "uwrap32 (fe_temp f) = (if 0 \<le> fe_temp f then fe_temp f else fe_temp f + 4294967296)"
    using assms neg by (simp add: uwrap32_def)
  then show ?thesis using assms(1) by (auto simp: check_threshold_task_def)
qed

definition frost :: fifo_entry where
  "frost = \<lparr>fe_temp = - 5, fe_pressure = 90000, fe_humidity = 40, fe_gas_res = 1000\<rparr>"

theorem threshold_alerts_witness:
  "''Temperature threshold exceeded''
     \<in> set (check_threshold_task \<lparr>threshold_temp = 40, threshold_press = 110000, threshold_hum = 80, threshold_gas = 50000\<rparr> (Some frost))"
  using threshold_alerts [of frost "\<lparr>threshold_temp = 40, threshold_press = 110000, threshold_hum = 80, threshold_gas = 50000\<rparr>"]
  by (simp add: frost_def)

end
