(* ===== verification/Decimal.thy ===== *)
theory Decimal
  imports Prelude
begin

text \<open>
  Decimal numbers as strings: the conversion \<open>%d\<close> of the C output functions and \<open>atoi\<close>, and that
  reading back what was written gives the number.
\<close>

definition is_digit :: "char \<Rightarrow> bool" where
  "is_digit c \<longleftrightarrow> c \<in> set ''0123456789''"

definition digit_val :: "char \<Rightarrow> int" where
  "digit_val c = of_char c - 48"

definition digit_char :: "nat \<Rightarrow> char" where
  "digit_char d = ''0123456789'' ! d"

text \<open>\<open>atoi\<close>: white space, an optional sign, decimal digits; no overflow occurs for up to nine digits.\<close>

definition decimal :: "string \<Rightarrow> int" where
  "decimal s = foldl (\<lambda>n c. n * 10 + digit_val c) 0 (takeWhile is_digit s)"

definition c_isspace :: "char \<Rightarrow> bool" where
  "c_isspace c \<longleftrightarrow> c \<in> {CHR '' '', CHR 0x09, CHR 0x0A, CHR 0x0B, CHR 0x0C, CHR 0x0D}"

definition atoi :: "string \<Rightarrow> int" where
  "atoi s = (case dropWhile c_isspace s of
      [] \<Rightarrow> 0
    | c # cs \<Rightarrow> if c = CHR ''-'' then - decimal cs else if c = CHR ''+'' then decimal cs else decimal (c # cs))"

text \<open>\<open>%d\<close>: the digits of the absolute value, after a sign if the number is negative.\<close>

fun show_nat :: "nat \<Rightarrow> string" where
  "show_nat n = (if n < 10 then [digit_char n] else show_nat (n div 10) @ [digit_char (n mod 10)])"

declare show_nat.simps [simp del]

definition show_int :: "int \<Rightarrow> string" where
  "show_int x = (if x < 0 then CHR ''-'' # show_nat (nat (- x)) else show_nat (nat x))"

section \<open>Round trip\<close>

lemma digit_cases: "d < 10 \<Longrightarrow> d \<in> {0, 1, 2, 3, 4, 5, 6, 7, 8, 9 :: nat}"
  by auto

lemma digit_char_digit: "d < 10 \<Longrightarrow> is_digit (digit_char d)"
  by (drule digit_cases) (auto simp: is_digit_def digit_char_def)

lemma digit_val_char: "d < 10 \<Longrightarrow> digit_val (digit_char d) = int d"
  by (drule digit_cases) (auto simp: digit_val_def digit_char_def)

lemma show_nat_digits: "list_all is_digit (show_nat n)"
  by (induction n rule: show_nat.induct) (subst show_nat.simps, auto simp: digit_char_digit)

lemma show_nat_nonempty: "show_nat n \<noteq> []"
  by (subst show_nat.simps) simp

lemma show_nat_value: "foldl (\<lambda>n c. n * 10 + digit_val c) 0 (show_nat n) = int n"
proof (induction n rule: show_nat.induct)
  case (1 n)
  show ?case
  proof (cases "n < 10")
    case True
    then show ?thesis by (subst show_nat.simps) (simp add: digit_val_char)
  next
    case False
    then have "foldl (\<lambda>n c. n * 10 + digit_val c) 0 (show_nat n) = int (n div 10) * 10 + int (n mod 10)"
      using 1 by (subst show_nat.simps) (simp add: digit_val_char)
    then show ?thesis by (simp add: zdiv_int zmod_int)
  qed
qed

lemma takeWhile_digits: "list_all is_digit ds \<Longrightarrow> r = [] \<or> \<not> is_digit (hd r) \<Longrightarrow> takeWhile is_digit (ds @ r) = ds"
  by (induction ds) (auto simp: takeWhile_eq_Nil_iff)

lemma decimal_show_nat: "r = [] \<or> \<not> is_digit (hd r) \<Longrightarrow> decimal (show_nat n @ r) = int n"
  unfolding decimal_def by (simp add: takeWhile_digits show_nat_digits show_nat_value)

lemma digit_no_space: "is_digit c \<Longrightarrow> \<not> c_isspace c \<and> c \<noteq> CHR ''-'' \<and> c \<noteq> CHR ''+''"
  by (auto simp: is_digit_def c_isspace_def)

text \<open>\<open>atoi\<close> reads back every printed number, whatever follows it that is not a digit.\<close>

lemma atoi_show_int: "r = [] \<or> \<not> is_digit (hd r) \<Longrightarrow> atoi (show_int x @ r) = x"
proof (cases "x < 0")
  case True
  moreover assume "r = [] \<or> \<not> is_digit (hd r)"
  ultimately show ?thesis by (simp add: atoi_def show_int_def decimal_show_nat c_isspace_def)
next
  case False
  moreover assume r: "r = [] \<or> \<not> is_digit (hd r)"
  obtain c cs where c: "show_nat (nat x) = c # cs" "is_digit c"
    using show_nat_nonempty [of "nat x"] show_nat_digits [of "nat x"] by (cases "show_nat (nat x)") auto
  ultimately show ?thesis
    using decimal_show_nat [OF r, of "nat x"] digit_no_space [OF c(2)] by (simp add: atoi_def show_int_def)
qed

lemma atoi_show_int_only [simp]: "atoi (show_int x) = x"
  using atoi_show_int [of "[]" x] by simp

end
