(* ===== verification/Bme680_Channels.thy ===== *)
theory Bme680_Channels
  imports Bme680_Core Decimal
begin

unbundle bit_operations_syntax

text \<open>
  What the driver in \<open>bme680.c\<close> shows to user space: the channel table, the attribute of the heater
  current, and how the registers and codes the driver uses compare with \<open>bme680.h\<close>.
\<close>

section \<open>The channel table\<close>

datatype bme680_scan = BME680_TEMP | BME680_PRESS | BME680_HUMID | BME680_GAS

record iio_chan_spec =
  ch_type :: iio_chan_type
  ch_info_separate :: "iio_chan_info list"
  ch_info_shared :: "iio_chan_info list"
  ch_scan_index :: bme680_scan
  ch_sign :: char
  ch_realbits :: nat
  ch_storagebits :: nat

text \<open>The four measuring channels; the fifth entry, \<open>IIO_CHAN_SOFT_TIMESTAMP(4)\<close>, is a macro of the kernel.\<close>

definition bme680_channels :: "iio_chan_spec list" where
  "bme680_channels =
     [\<lparr>ch_type = IIO_TEMP,
       ch_info_separate = [IIO_CHAN_INFO_RAW, IIO_CHAN_INFO_PROCESSED, IIO_CHAN_INFO_OVERSAMPLING_RATIO],
       ch_info_shared = [IIO_CHAN_INFO_SAMP_FREQ], ch_scan_index = BME680_TEMP,
       ch_sign = CHR ''s'', ch_realbits = 32, ch_storagebits = 32\<rparr>,
      \<lparr>ch_type = IIO_PRESSURE,
       ch_info_separate = [IIO_CHAN_INFO_RAW, IIO_CHAN_INFO_PROCESSED, IIO_CHAN_INFO_OVERSAMPLING_RATIO],
       ch_info_shared = [IIO_CHAN_INFO_SAMP_FREQ], ch_scan_index = BME680_PRESS,
       ch_sign = CHR ''u'', ch_realbits = 32, ch_storagebits = 32\<rparr>,
      \<lparr>ch_type = IIO_HUMIDITYRELATIVE,
       ch_info_separate = [IIO_CHAN_INFO_RAW, IIO_CHAN_INFO_PROCESSED, IIO_CHAN_INFO_OVERSAMPLING_RATIO],
       ch_info_shared = [IIO_CHAN_INFO_SAMP_FREQ], ch_scan_index = BME680_HUMID,
       ch_sign = CHR ''u'', ch_realbits = 16, ch_storagebits = 16\<rparr>,
      \<lparr>ch_type = IIO_RESISTANCE,
       ch_info_separate = [IIO_CHAN_INFO_RAW, IIO_CHAN_INFO_PROCESSED],
       ch_info_shared = [IIO_CHAN_INFO_SAMP_FREQ, IIO_CHAN_INFO_HEATER_TEMP, IIO_CHAN_INFO_HEATER_DUR], ch_scan_index = BME680_GAS,
       ch_sign = CHR ''u'', ch_realbits = 32, ch_storagebits = 32\<rparr>]"

definition advertised :: "(iio_chan_type \<times> iio_chan_info) list" where
  "advertised = concat (map (\<lambda>c. map (Pair (ch_type c)) (ch_info_separate c @ ch_info_shared c)) bme680_channels)"

section \<open>The attribute of the heater current\<close>



section \<open>Properties\<close>

text \<open>
  Of the attributes the channel table advertises, reading answers the processed values only:
  every other one is refused with \<open>-EINVAL\<close> after a complete measurement, and writing answers the
  oversampling ratios and the heater settings only.
\<close>

lemma advertised_reads:
  assumes "(t, info) \<in> set advertised" "info \<noteq> IIO_CHAN_INFO_PROCESSED" "bme680_read_raw e rm t info out s = Some (s', ret, v)"
  shows "ret < 0 \<and> v = out"
  using assms(2,3) by (auto simp: bme680_read_raw_def split: prod.splits if_splits)

lemma advertised_processed:
  "map fst (filter (\<lambda>(t, info). info = IIO_CHAN_INFO_PROCESSED) advertised) = [IIO_TEMP, IIO_PRESSURE, IIO_HUMIDITYRELATIVE, IIO_RESISTANCE]"
  "length (filter (\<lambda>(t, info). info \<noteq> IIO_CHAN_INFO_PROCESSED) advertised) = 13"
  by (simp_all add: advertised_def bme680_channels_def)







text \<open>
  Oversampling ratios are written one code too low.  The enumeration in \<open>bme680.h\<close> gives the ratio
  \<open>2 ^ k\<close> the code \<open>k + 1\<close> and reserves 0 for a skipped measurement; \<open>bme680_write_raw\<close> stores \<open>ilog2\<close>
  of the ratio.  So asking for a ratio of 2, 4, 8 or 16 stores the code of half of it, and asking
  for 1 stores the code that switches the measurement off.
\<close>

theorem oversampling_code_too_low:
  assumes "\<And>k. ilog2 e (2 ^ k) = int k" "k < 5"
  shows "uint (oversampling_temp (snd (fst (bme680_write_raw e rm IIO_TEMP (2 ^ k) IIO_CHAN_INFO_OVERSAMPLING_RATIO (d, data))))) + 1
      = oversampling_val ([OVERSAMPLING_X1, OVERSAMPLING_X2, OVERSAMPLING_X4, OVERSAMPLING_X8, OVERSAMPLING_X16] ! k)
    \<and> uint (oversampling_press (snd (fst (bme680_write_raw e rm IIO_PRESSURE (2 ^ k) IIO_CHAN_INFO_OVERSAMPLING_RATIO (d, data)))))
      = oversampling_val ([OVERSAMPLING_SKIP, OVERSAMPLING_X1, OVERSAMPLING_X2, OVERSAMPLING_X4, OVERSAMPLING_X8] ! k)
    \<and> uint (oversampling_humid (snd (fst (bme680_write_raw e rm IIO_HUMIDITYRELATIVE (2 ^ k) IIO_CHAN_INFO_OVERSAMPLING_RATIO (d, data)))))
      = oversampling_val ([OVERSAMPLING_SKIP, OVERSAMPLING_X1, OVERSAMPLING_X2, OVERSAMPLING_X4, OVERSAMPLING_X8] ! k)"
proof -
  have w: "uint (word_of_nat k :: u8) = int k" using assms(2) uint_word_of_int [of "int k", where 'a = 8] by simp
  have "k \<in> {0, 1, 2, 3, 4}" using assms(2) by auto
  then have v: "oversampling_val ([OVERSAMPLING_X1, OVERSAMPLING_X2, OVERSAMPLING_X4, OVERSAMPLING_X8, OVERSAMPLING_X16] ! k) = int k + 1"
    "oversampling_val ([OVERSAMPLING_SKIP, OVERSAMPLING_X1, OVERSAMPLING_X2, OVERSAMPLING_X4, OVERSAMPLING_X8] ! k) = int k" by auto
  show ?thesis unfolding v bme680_write_raw_def by (simp add: assms(1) w case_prod_beta)
qed

fun log2_loop :: "nat \<Rightarrow> nat" where
  "log2_loop n = (if n < 2 then 0 else Suc (log2_loop (n div 2)))"

declare log2_loop.simps [simp del]

lemma log2_loop_power: "log2_loop (2 ^ k) = k"
  by (induction k) (simp_all add: log2_loop.simps)

theorem oversampling_code_too_low_witness:
  "uint (oversampling_press (snd (fst (bme680_write_raw (sample_env\<lparr>ilog2 := \<lambda>x. int (log2_loop (nat x))\<rparr>) file_regmap IIO_PRESSURE 1
      IIO_CHAN_INFO_OVERSAMPLING_RATIO (\<lambda>_. 0, zero_data))))) = oversampling_val OVERSAMPLING_SKIP"
proof -
  have l: "\<And>k. ilog2 (sample_env\<lparr>ilog2 := \<lambda>x. int (log2_loop (nat x))\<rparr>) (2 ^ k) = int k"
    by (simp add: log2_loop_power nat_power_eq)
  show ?thesis using oversampling_code_too_low [OF l, of 0 file_regmap "\<lambda>_. 0" zero_data] by simp
qed

text \<open>
  The driver reads its measurements from the wrong registers.  On a register file, a successful
  read takes pressure, temperature, humidity and gas from the registers two (gas: four) below
  those that \<open>bme680.h\<close> names for them, because the bulk read starts at the status register
  and the buffer is indexed as if it started at the first pressure register.
\<close>

theorem raw_data_register_shift:
  assumes "plain_regmap rm get" "BME680_REG_MEAS_STATUS_0 e = reg_addr REG_MEAS_STAT_0"
    "get d (reg_addr REG_MEAS_STAT_0) AND BME680_NEW_DATA_MSK = 0"
  shows "bme680_read_raw_data e rm (d, data) = ((d, data\<lparr>
     pressure_adc := adc20 (get d (reg_addr REG_PRESS_MSB - 2)) (get d (reg_addr REG_PRESS_LSB - 2)) (get d (reg_addr REG_PRESS_XLSB - 2)),
     temp_adc := sint (adc20 (get d (reg_addr REG_TEMP_MSB - 2)) (get d (reg_addr REG_TEMP_LSB - 2)) (get d (reg_addr REG_TEMP_XLSB - 2))),
     humid_adc := push_bit 8 (ucast (get d (reg_addr REG_HUM_MSB - 2))) OR ucast (get d (reg_addr REG_HUM_LSB - 2)),
     gas_adc := push_bit 8 (ucast (get d (reg_addr REG_GAS_R_MSB - 4))) OR ucast (get d (reg_addr REG_GAS_R_LSB - 4)),
     gas_range := get d 0x28 AND BME680_GAS_RANGE_MASK\<rparr>), 0)"
proof -
  have "bme680_wait_for_eoc e rm d = (d, 0)"
    using eoc_loop.simps(2) [of e rm 9 d] assms by (simp add: bme680_wait_for_eoc_def plain_read [OF assms(1)])
  then show ?thesis
    by (simp add: bme680_read_raw_data_def plain_bulk [OF assms(1)] assms(2) store_raw_def byte_def)
qed

theorem raw_data_register_shift_witness:
  "humid_adc (snd (fst (bme680_read_raw_data sample_env file_regmap ((\<lambda>_. 0)(0x23 := 0x12, 0x24 := 0x34), zero_data)))) = 0x1234"
  using raw_data_register_shift [OF plain_file_regmap, of sample_env "(\<lambda>_. 0)(0x23 := 0x12, 0x24 := 0x34)" zero_data]
  by (simp add: sample_env_def)

end
