(* ===== verification/Bme680_Spi.thy ===== *)
theory Bme680_Spi
  imports Bme680_Core
begin

text \<open>
  \<open>bme680_spi.c\<close>: register access over SPI.  The chip has seven address bits there; a page bit in
  the status register selects which half of the 8-bit address range they mean, and the driver
  caches the selected page in its bus context.  The transfer functions \<open>spi_write\<close> and
  \<open>spi_write_then_read\<close> belong to the kernel and are parameters, as is the mask
  \<open>BME680_SPI_MEM_PAGE_BIT\<close>, which the sources do not define.
\<close>

record 'd spi =
  spi_write :: "u8 list \<Rightarrow> 'd \<Rightarrow> 'd \<times> int"
  spi_write_then_read :: "u8 list \<Rightarrow> nat \<Rightarrow> 'd \<Rightarrow> 'd \<times> int \<times> u8 list"

text \<open>The state of an access is the device and the cached page \<open>current_page\<close>.\<close>

definition page_of :: "u8 \<Rightarrow> u8" where
  "page_of reg = (if reg AND 0x80 \<noteq> 0 then 0 else 1)"

definition bme680_regmap_spi_select_page :: "u8 \<Rightarrow> 'd spi \<Rightarrow> u8 \<Rightarrow> 'd \<times> u8 \<Rightarrow> ('d \<times> u8) \<times> int" where
  "bme680_regmap_spi_select_page PAGE_BIT spi reg s = (case s of (d, current_page) \<Rightarrow>
     (let page = page_of reg in
      if page = current_page then (s, 0)
      else (case spi_write_then_read spi [BME680_REG_STATUS] 1 d of (d1, ret, rx) \<Rightarrow>
        if ret < 0 then ((d1, current_page), ret)
        else (let status = byte rx 0;
                  v = (if page \<noteq> 0 then status OR PAGE_BIT else status AND NOT PAGE_BIT)
              in case spi_write spi [BME680_REG_STATUS, v] d1 of (d2, ret) \<Rightarrow>
                   if ret < 0 then ((d2, current_page), ret) else ((d2, page), 0)))))"

definition bme680_regmap_spi_write :: "u8 \<Rightarrow> 'd spi \<Rightarrow> u8 \<Rightarrow> u8 \<Rightarrow> 'd \<times> u8 \<Rightarrow> ('d \<times> u8) \<times> int" where
  "bme680_regmap_spi_write PAGE_BIT spi reg val s =
     (case bme680_regmap_spi_select_page PAGE_BIT spi reg s of ((d, page), ret) \<Rightarrow>
        if ret \<noteq> 0 then ((d, page), ret)
        else (case spi_write spi [reg AND NOT 0x80, val] d of (d', ret) \<Rightarrow> ((d', page), ret)))"

definition bme680_regmap_spi_read :: "u8 \<Rightarrow> 'd spi \<Rightarrow> u8 \<Rightarrow> nat \<Rightarrow> 'd \<times> u8 \<Rightarrow> ('d \<times> u8) \<times> int \<times> u8 list" where
  "bme680_regmap_spi_read PAGE_BIT spi reg val_size s =
     (case bme680_regmap_spi_select_page PAGE_BIT spi reg s of ((d, page), ret) \<Rightarrow>
        if ret \<noteq> 0 then ((d, page), ret, [])
        else (case spi_write_then_read spi [reg OR 0x80] val_size d of (d', ret, rx) \<Rightarrow> ((d', page), ret, rx)))"

text \<open>The accessors without page selection; they run with \<open>bme680_spi_lock\<close> held.\<close>

definition bme680_spi_reg_read :: "'d spi \<Rightarrow> u8 \<Rightarrow> 'd \<Rightarrow> 'd \<times> int \<times> u8" where
  "bme680_spi_reg_read spi reg d =
     (case spi_write_then_read spi [reg OR 0x80] 1 d of (d', ret, rx) \<Rightarrow>
        if ret < 0 then (d', ret, 0) else (d', 0, byte rx 0))"

definition bme680_spi_reg_write :: "'d spi \<Rightarrow> u8 \<Rightarrow> u8 \<Rightarrow> 'd \<Rightarrow> 'd \<times> int" where
  "bme680_spi_reg_write spi reg val d =
     (case spi_write spi [reg AND NOT 0x80, val] d of (d', ret) \<Rightarrow> if ret < 0 then (d', ret) else (d', 0))"

text \<open>
  \<open>bme680_spi_probe\<close>: the allocation and the regmap set-up are inputs; a fresh context has the
  page value 0xff.  The core probe is passed the regmap the kernel builds from the two functions
  above, which is the parameter \<open>core_probe\<close>.
\<close>

definition bme680_spi_probe :: "bool \<Rightarrow> int \<Rightarrow> ('d \<times> u8 \<Rightarrow> ('d \<times> u8) \<times> int) \<Rightarrow> 'd \<Rightarrow> ('d \<times> u8) option \<times> int" where
  "bme680_spi_probe alloc regmap_err core_probe d =
     (if \<not> alloc then (None, - ENOMEM)
      else if regmap_err \<noteq> 0 then (Some (d, 0xff), regmap_err)
      else (case core_probe (d, 0xff) of (s, ret) \<Rightarrow> (Some s, ret)))"

section \<open>The chip on the other end\<close>

text \<open>
  The address a seven-bit address means in a page, and the SPI protocol as far as it is relied
  on.  \<open>page\<close> is the page the chip has selected, \<open>get\<close> the content of its registers, and \<open>stor\<close> says
  which registers are plain storage; nothing is asked of the others, the read-only, reset and
  measurement registers.  Of the storage registers it is asked that a write command stores its
  byte in the selected page and changes no other of them, that a read command returns the
  register, and that the two accesses of the page selection, the read of the status register,
  which the driver sends without the read bit, and its write, leave them alone; the write
  selects the page.  The two addresses of the status register are not storage.
\<close>

definition full_addr :: "u8 \<Rightarrow> u8 \<Rightarrow> u8" where
  "full_addr p a = (if p = 0 then a OR 0x80 else a AND NOT 0x80)"

definition is_status :: "u8 \<Rightarrow> bool" where
  "is_status reg \<longleftrightarrow> reg AND NOT 0x80 = BME680_REG_STATUS"

definition spi_chip :: "u8 \<Rightarrow> 'd spi \<Rightarrow> ('d \<Rightarrow> u8) \<Rightarrow> ('d \<Rightarrow> u8 \<Rightarrow> u8) \<Rightarrow> (u8 \<Rightarrow> bool) \<Rightarrow> bool" where
  "spi_chip PAGE_BIT spi page get stor \<longleftrightarrow>
     (\<forall>d. page d = 0 \<or> page d = 1) \<and> (\<forall>r. stor r \<longrightarrow> \<not> is_status r)
     \<and> (\<forall>a v d. a AND 0x80 = 0 \<and> stor (full_addr (page d) a) \<longrightarrow>
          snd (spi_write spi [a, v] d) = 0 \<and> page (fst (spi_write spi [a, v] d)) = page d
          \<and> (\<forall>r. stor r \<longrightarrow> get (fst (spi_write spi [a, v] d)) r = (if r = full_addr (page d) a then v else get d r)))
     \<and> (\<forall>v d. snd (spi_write spi [BME680_REG_STATUS, v] d) = 0
          \<and> page (fst (spi_write spi [BME680_REG_STATUS, v] d)) = (if v AND PAGE_BIT \<noteq> 0 then 1 else 0)
          \<and> (\<forall>r. stor r \<longrightarrow> get (fst (spi_write spi [BME680_REG_STATUS, v] d)) r = get d r))
     \<and> (\<forall>a d. a AND 0x80 \<noteq> 0 \<and> stor (full_addr (page d) a) \<longrightarrow>
          snd (spi_write_then_read spi [a] 1 d) = (0, [get d (full_addr (page d) a)])
          \<and> page (fst (spi_write_then_read spi [a] 1 d)) = page d
          \<and> (\<forall>r. stor r \<longrightarrow> get (fst (spi_write_then_read spi [a] 1 d)) r = get d r))
     \<and> (\<forall>d. fst (snd (spi_write_then_read spi [BME680_REG_STATUS] 1 d)) = 0
          \<and> (\<forall>r. stor r \<longrightarrow> get (fst (spi_write_then_read spi [BME680_REG_STATUS] 1 d)) r = get d r))"

definition page_ok :: "('d \<Rightarrow> u8) \<Rightarrow> 'd \<times> u8 \<Rightarrow> bool" where
  "page_ok page s \<longleftrightarrow> snd s = 0xff \<or> snd s = page (fst s)"

lemma bit7_cases: "reg AND 0x80 = 0 \<or> reg AND 0x80 = (0x80 :: u8)"
proof (cases "bit reg 7")
  case True
  then have "reg AND 0x80 = 0x80"
    using and_exp_eq_0_iff_not_bit [of reg 7] by (intro bit_word_eqI) (auto simp: bit_simps numeral_eq_Suc less_Suc_eq)
  then show ?thesis ..
next
  case False
  then show ?thesis using and_exp_eq_0_iff_not_bit [of reg 7] by simp
qed

lemma addr_roundtrip: "full_addr (page_of reg) (reg AND NOT 0x80) = reg" "full_addr (page_of reg) (reg OR 0x80) = reg"
proof -
  have a: "(reg AND NOT m) OR (reg AND m) = reg" "reg OR (reg AND m) = reg" "(reg OR m) AND NOT m = reg AND NOT m" for m
    by (rule bit_word_eqI, auto simp: bit_simps)+
  have high: "(reg AND NOT 0x80) OR 0x80 = reg \<and> reg OR 0x80 = reg" if "reg AND 0x80 = 0x80"
    using a(1,2) [of "0x80"] that by simp
  have low: "reg AND NOT 0x80 = reg \<and> (reg OR 0x80) AND NOT 0x80 = reg" if "reg AND 0x80 = 0"
    using a(1,3) [of "0x80"] that by simp
  show "full_addr (page_of reg) (reg AND NOT 0x80) = reg" "full_addr (page_of reg) (reg OR 0x80) = reg"
    using bit7_cases [of reg] high low by (auto simp: full_addr_def page_of_def)
qed

lemma chip_write:
  assumes "spi_chip PAGE_BIT spi page get stor" "a AND 0x80 = 0" "stor (full_addr (page d) a)"
  obtains d' where "spi_write spi [a, v] d = (d', 0)" "page d' = page d"
    "\<And>r. stor r \<Longrightarrow> get d' r = (if r = full_addr (page d) a then v else get d r)"
proof -
  have "snd (spi_write spi [a, v] d) = 0 \<and> page (fst (spi_write spi [a, v] d)) = page d
      \<and> (\<forall>r. stor r \<longrightarrow> get (fst (spi_write spi [a, v] d)) r = (if r = full_addr (page d) a then v else get d r))"
    using assms unfolding spi_chip_def by blast
  then show ?thesis by (intro that [of "fst (spi_write spi [a, v] d)"]) (auto simp: prod_eq_iff)
qed

lemma chip_status_write:
  assumes "spi_chip PAGE_BIT spi page get stor"
  obtains d' where "spi_write spi [BME680_REG_STATUS, v] d = (d', 0)" "page d' = (if v AND PAGE_BIT \<noteq> 0 then 1 else 0)"
    "\<And>r. stor r \<Longrightarrow> get d' r = get d r"
proof -
  let ?w = "spi_write spi [BME680_REG_STATUS, v] d"
  have "snd ?w = 0 \<and> page (fst ?w) = (if v AND PAGE_BIT \<noteq> 0 then 1 else 0) \<and> (\<forall>r. stor r \<longrightarrow> get (fst ?w) r = get d r)"
    using assms unfolding spi_chip_def by blast
  then show ?thesis by (intro that [of "fst ?w"]) (auto simp: prod_eq_iff)
qed

lemma chip_read:
  assumes "spi_chip PAGE_BIT spi page get stor" "a AND 0x80 \<noteq> 0" "stor (full_addr (page d) a)"
  obtains d' where "spi_write_then_read spi [a] 1 d = (d', 0, [get d (full_addr (page d) a)])" "page d' = page d"
    "\<And>r. stor r \<Longrightarrow> get d' r = get d r"
proof -
  let ?w = "spi_write_then_read spi [a] 1 d"
  have "snd ?w = (0, [get d (full_addr (page d) a)]) \<and> page (fst ?w) = page d \<and> (\<forall>r. stor r \<longrightarrow> get (fst ?w) r = get d r)"
    using assms unfolding spi_chip_def by blast
  then show ?thesis by (intro that [of "fst ?w"]) (auto simp: prod_eq_iff)
qed

lemma chip_status_read:
  assumes "spi_chip PAGE_BIT spi page get stor"
  obtains d' rx where "spi_write_then_read spi [BME680_REG_STATUS] 1 d = (d', 0, rx)" "\<And>r. stor r \<Longrightarrow> get d' r = get d r"
proof -
  let ?w = "spi_write_then_read spi [BME680_REG_STATUS] 1 d"
  have "fst (snd ?w) = 0 \<and> (\<forall>r. stor r \<longrightarrow> get (fst ?w) r = get d r)"
    using assms unfolding spi_chip_def by blast
  then show ?thesis by (intro that [of "fst ?w" "snd (snd ?w)"]) (auto simp: prod_eq_iff)
qed

text \<open>Selecting a page leaves the chip in that page and the storage registers as they were.\<close>

lemma select_page_ok:
  assumes "spi_chip PAGE_BIT spi page get stor" "page_ok page s" "PAGE_BIT \<noteq> 0"
  obtains d' where "bme680_regmap_spi_select_page PAGE_BIT spi reg s = ((d', page_of reg), 0)" "page d' = page_of reg"
    "\<And>r. stor r \<Longrightarrow> get d' r = get (fst s) r"
proof (cases "page_of reg = snd s")
  case True
  then have "page (fst s) = page_of reg" using assms(2) by (auto simp: page_ok_def page_of_def split: if_splits)
  with True show ?thesis by (intro that [of "fst s"]) (auto simp: bme680_regmap_spi_select_page_def split: prod.splits)
next
  case False
  obtain d1 rx where r: "spi_write_then_read spi [BME680_REG_STATUS] 1 (fst s) = (d1, 0, rx)"
    "\<And>r. stor r \<Longrightarrow> get d1 r = get (fst s) r" using chip_status_read [OF assms(1)] by blast
  let ?v = "if page_of reg \<noteq> 0 then byte rx 0 OR PAGE_BIT else byte rx 0 AND NOT PAGE_BIT"
  obtain d2 where w: "spi_write spi [BME680_REG_STATUS, ?v] d1 = (d2, 0)" "page d2 = (if ?v AND PAGE_BIT \<noteq> 0 then 1 else 0)"
    "\<And>r. stor r \<Longrightarrow> get d2 r = get d1 r" using chip_status_write [OF assms(1)] by blast
  have "(x OR PAGE_BIT) AND PAGE_BIT = PAGE_BIT" "(x AND NOT PAGE_BIT) AND PAGE_BIT = 0" for x
    by (rule bit_word_eqI, auto simp: bit_simps)+
  then have "page d2 = page_of reg" using w(2) assms(3) by (simp add: page_of_def split: if_splits)
  moreover have "bme680_regmap_spi_select_page PAGE_BIT spi reg s = ((d2, page_of reg), 0)"
    using False r(1) w(1) by (cases s) (simp add: bme680_regmap_spi_select_page_def Let_def)
  ultimately show ?thesis using r(2) w(3) by (intro that [of d2]) simp_all
qed

text \<open>One read and one write of a storage register through the functions of the driver.\<close>

lemma spi_read_ok:
  assumes "spi_chip PAGE_BIT spi page get stor" "page_ok page s" "PAGE_BIT \<noteq> 0" "stor reg"
  obtains s' where "bme680_regmap_spi_read PAGE_BIT spi reg 1 s = (s', 0, [get (fst s) reg])" "page_ok page s'"
    "\<And>r. stor r \<Longrightarrow> get (fst s') r = get (fst s) r"
proof -
  obtain d1 where d1: "bme680_regmap_spi_select_page PAGE_BIT spi reg s = ((d1, page_of reg), 0)" "page d1 = page_of reg"
    "\<And>r. stor r \<Longrightarrow> get d1 r = get (fst s) r" using select_page_ok [OF assms(1-3)] by blast
  have hi: "(reg OR 0x80) AND 0x80 \<noteq> 0" by (simp add: bit.conj_disj_distrib2)
  have at: "full_addr (page d1) (reg OR 0x80) = reg" unfolding d1(2) by (rule addr_roundtrip)
  obtain d2 where d2: "spi_write_then_read spi [reg OR 0x80] 1 d1 = (d2, 0, [get d1 reg])" "page d2 = page d1"
    "\<And>r. stor r \<Longrightarrow> get d2 r = get d1 r" using chip_read [OF assms(1) hi, of d1] at assms(4) by metis
  have "bme680_regmap_spi_read PAGE_BIT spi reg 1 s = ((d2, page_of reg), 0, [get (fst s) reg])"
    using d1(3) [OF assms(4)] unfolding bme680_regmap_spi_read_def d1(1) prod.case d2(1) by simp
  then show ?thesis by (rule that [of "(d2, page_of reg)"]) (simp_all add: d1 d2 page_ok_def)
qed

lemma spi_write_ok:
  assumes "spi_chip PAGE_BIT spi page get stor" "page_ok page s" "PAGE_BIT \<noteq> 0" "stor reg"
  obtains s' where "bme680_regmap_spi_write PAGE_BIT spi reg v s = (s', 0)" "page_ok page s'"
    "\<And>r. stor r \<Longrightarrow> get (fst s') r = (if r = reg then v else get (fst s) r)"
proof -
  obtain d1 where d1: "bme680_regmap_spi_select_page PAGE_BIT spi reg s = ((d1, page_of reg), 0)" "page d1 = page_of reg"
    "\<And>r. stor r \<Longrightarrow> get d1 r = get (fst s) r" using select_page_ok [OF assms(1-3)] by blast
  have low: "(reg AND NOT 0x80) AND 0x80 = 0" by (simp add: and.assoc)
  have at: "full_addr (page d1) (reg AND NOT 0x80) = reg" unfolding d1(2) by (rule addr_roundtrip)
  obtain d2 where d2: "spi_write spi [reg AND NOT 0x80, v] d1 = (d2, 0)" "page d2 = page d1"
    "\<And>r. stor r \<Longrightarrow> get d2 r = (if r = reg then v else get d1 r)" using chip_write [OF assms(1) low, of d1] at assms(4) by metis
  have "bme680_regmap_spi_write PAGE_BIT spi reg v s = ((d2, page_of reg), 0)"
    unfolding bme680_regmap_spi_write_def d1(1) prod.case d2(1) by simp
  then show ?thesis by (rule that [of "(d2, page_of reg)"]) (simp_all add: d1 d2 page_ok_def)
qed

section \<open>Properties\<close>

text \<open>
  A chip that follows the protocol: its page and its registers.  All but the status register, the
  read-only chip identification and the reset register are storage.
\<close>

definition model_chip :: "(u8 \<times> (u8 \<Rightarrow> u8)) spi" where
  "model_chip = \<lparr>spi_write = (\<lambda>tx d. if hd tx = BME680_REG_STATUS then ((if tx ! 1 AND 0x10 \<noteq> 0 then 1 else 0, snd d), 0)
        else if full_addr (fst d) (hd tx) \<in> {BME680_REG_CHIP_ID, BME680_REG_SOFT_RESET} then (d, 0)
        else ((fst d, (snd d)(full_addr (fst d) (hd tx) := tx ! 1)), 0)),
     spi_write_then_read = (\<lambda>tx n d. (d, 0, [snd d (full_addr (fst d) (hd tx))]))\<rparr>"

definition model_stor :: "u8 \<Rightarrow> bool" where
  "model_stor r \<longleftrightarrow> \<not> is_status r \<and> r \<notin> {BME680_REG_CHIP_ID, BME680_REG_SOFT_RESET}"

definition chip_page :: "u8 \<times> (u8 \<Rightarrow> u8) \<Rightarrow> u8" where
  "chip_page d = (if fst d = 0 then 0 else 1)"

lemma model_chip_ok: "spi_chip 0x10 model_chip chip_page snd model_stor"
  by (auto simp: spi_chip_def model_chip_def model_stor_def chip_page_def full_addr_def is_status_def)

text \<open>
  C38: a write to the status register through the register map misdirects the accesses after it.
  The driver caches the page it selected last and does not look at what is written.  On every
  chip that follows the protocol, a write to address 0x73 of a value without the page bit
  succeeds and leaves the chip in page 0 with page 1 cached.  The next read of a register below
  0x80 is then answered with the content of the register 0x80 higher, if that is storage.
\<close>

theorem spi_status_write_misdirects:
  assumes "spi_chip PAGE_BIT spi page get stor" "page_ok page s" "PAGE_BIT \<noteq> 0" "v AND PAGE_BIT = 0" "reg AND 0x80 = 0" "stor (reg OR 0x80)"
  shows "\<exists>s' s''. bme680_regmap_spi_write PAGE_BIT spi BME680_REG_STATUS v s = (s', 0) \<and> page (fst s') = 0 \<and> snd s' = 1 \<and> \<not> page_ok page s'
    \<and> bme680_regmap_spi_read PAGE_BIT spi reg 1 s' = (s'', 0, [get (fst s) (reg OR 0x80)])"
proof -
  obtain d1 where d1: "bme680_regmap_spi_select_page PAGE_BIT spi BME680_REG_STATUS s = ((d1, 1), 0)"
    "\<And>r. stor r \<Longrightarrow> get d1 r = get (fst s) r"
    using select_page_ok [OF assms(1-3), of BME680_REG_STATUS] by (auto simp: page_of_def)
  obtain d2 where d2: "spi_write spi [BME680_REG_STATUS, v] d1 = (d2, 0)" "page d2 = 0" "\<And>r. stor r \<Longrightarrow> get d2 r = get d1 r"
    using chip_status_write [OF assms(1), of v d1] assms(4) by auto
  have w: "bme680_regmap_spi_write PAGE_BIT spi BME680_REG_STATUS v s = ((d2, 1), 0)"
    using d1(1) d2(1) by (simp add: bme680_regmap_spi_write_def)
  have sel: "bme680_regmap_spi_select_page PAGE_BIT spi reg (d2, 1) = ((d2, 1), 0)"
    using assms(5) by (simp add: bme680_regmap_spi_select_page_def page_of_def)
  have hi: "(reg OR 0x80) AND 0x80 \<noteq> 0" by (simp add: bit.conj_disj_distrib2)
  have at: "full_addr (page d2) (reg OR 0x80) = reg OR 0x80" by (simp add: d2(2) full_addr_def or.assoc)
  obtain d3 where "spi_write_then_read spi [reg OR 0x80] 1 d2 = (d3, 0, [get d2 (reg OR 0x80)])"
    using chip_read [OF assms(1) hi, of d2] at assms(6) by metis
  then show ?thesis using w sel d1(2) d2 assms(6)
    by (intro exI [of _ "(d2, 1)"] exI [of _ "(d3, 1)"]) (simp add: bme680_regmap_spi_read_def page_ok_def)
qed

theorem spi_status_write_misdirects_witness:
  "\<exists>s' s''. bme680_regmap_spi_write 0x10 model_chip BME680_REG_STATUS 0 ((1, \<lambda>r. r), 1) = (s', 0) \<and> \<not> page_ok chip_page s'
     \<and> bme680_regmap_spi_read 0x10 model_chip 0x1D 1 s' = (s'', 0, [0x9D])"
proof -
  have "page_ok chip_page ((1, \<lambda>r. r), 1)" "model_stor (0x1D OR 0x80)" by (simp_all add: page_ok_def chip_page_def model_stor_def is_status_def)
  from spi_status_write_misdirects [OF model_chip_ok this(1) _ _ _ this(2), of 0] show ?thesis by simp blast
qed

text \<open>
  Page selection is cached and never claims a page it did not select.  For every SPI
  controller, an access to a register of the cached page makes no extra transfer; when a transfer
  of the selection fails its error is returned, nothing else is sent and the cached page stays.
  The selection addresses the status register with the read bit clear, while every other read
  sends its address with that bit set.
\<close>

lemma spi_select_page_cached:
  "(page_of reg = p \<longrightarrow> bme680_regmap_spi_select_page PAGE_BIT spi reg (d, p) = ((d, p), 0))
   \<and> (bme680_regmap_spi_select_page PAGE_BIT spi reg (d, p) = ((d', p'), ret) \<longrightarrow>
        (if ret < 0 then p' = p \<and> (\<forall>v. bme680_regmap_spi_write PAGE_BIT spi reg v (d, p) = ((d', p), ret)) else p' = page_of reg \<and> ret = 0))
   \<and> BME680_REG_STATUS AND 0x80 = 0 \<and> (reg OR 0x80) AND 0x80 = 0x80"
  by (auto simp: bme680_regmap_spi_select_page_def bme680_regmap_spi_write_def Let_def bit.conj_disj_distrib2
      split: prod.splits if_splits)

end
