(* ===== verification/Bme680_I2c.thy ===== *)
theory Bme680_I2c
  imports Bme680_Spi
begin

text \<open>
  \<open>bme680_i2c.c\<close>, the power management and driver tables of \<open>bme680_spi.c\<close>, and the entry points of
  the core that both bus drivers call.  The mutex \<open>bme680_i2c_lock\<close> is declared in \<open>bme680.h\<close> and
  defined in \<open>bme680.c\<close>; \<open>bme680_i2c.c\<close> includes that header and defines a static mutex of the same name
  again, which C does not allow.  The name is read here as the header declares it, one mutex
  shared by the two files.  The state records which of the three mutexes involved
  the calling thread holds; kernel mutexes are not recursive, so a thread that takes one it holds
  never continues, which is the value \<open>None\<close>.  The probe of the core, \<open>bme680_probe\<close>, is an argument,
  so that both buses can pass theirs.
\<close>

record 's drv =
  dv_lock :: bool
  dv_spi_lock :: bool
  dv_data_lock :: bool
  dv_dev :: 's
  dv_timer :: bool
  dv_thread :: bool

definition mutex_lock :: "'s drv \<Rightarrow> 's drv option" where
  "mutex_lock s = (if dv_lock s then None else Some (s\<lparr>dv_lock := True\<rparr>))"

definition mutex_unlock :: "'s drv \<Rightarrow> 's drv" where
  "mutex_unlock s = s\<lparr>dv_lock := False\<rparr>"

definition bme680_core_probe :: "('s \<Rightarrow> 's \<times> int) \<Rightarrow> 's drv \<Rightarrow> ('s drv \<times> int) option" where
  "bme680_core_probe probe s = (case mutex_lock s of
      None \<Rightarrow> None
    | Some s1 \<Rightarrow> (case probe (dv_dev s1) of (d, ret) \<Rightarrow> Some (mutex_unlock (s1\<lparr>dv_dev := d\<rparr>), ret)))"

definition bme680_core_remove :: "'s drv \<Rightarrow> ('s drv \<times> int) option" where
  "bme680_core_remove s = (case mutex_lock s of
      None \<Rightarrow> None
    | Some s1 \<Rightarrow> Some (mutex_unlock (s1\<lparr>dv_timer := False, dv_thread := False\<rparr>), 0))"

text \<open>Suspend and resume of the core take and release the device's own mutex and do nothing else.\<close>

definition bme680_core_suspend :: "'s drv \<Rightarrow> ('s drv \<times> int) option" where
  "bme680_core_suspend s = (if dv_data_lock s then None else Some (s\<lparr>dv_data_lock := True\<rparr>\<lparr>dv_data_lock := False\<rparr>, 0))"

definition bme680_core_resume :: "'s drv \<Rightarrow> ('s drv \<times> int) option" where
  "bme680_core_resume s = (if dv_data_lock s then None else Some (s\<lparr>dv_data_lock := True\<rparr>\<lparr>dv_data_lock := False\<rparr>, 0))"

text \<open>
  The register accessors; \<open>smbus\<close> is the kernel's SMBus call.  Nothing connects them to a regmap: the
  probe creates its map without a bus and from \<open>bme680_i2c_regmap_config\<close>, which names no accessors,
  and no other code mentions them.
\<close>

definition bme680_i2c_reg_read :: "(u8 \<Rightarrow> 'd \<Rightarrow> 'd \<times> int) \<Rightarrow> u8 \<Rightarrow> 'd \<Rightarrow> 'd \<times> int \<times> int option" where
  "bme680_i2c_reg_read smbus reg d = (case smbus reg d of (d', ret) \<Rightarrow> if ret < 0 then (d', ret, None) else (d', 0, Some ret))"

definition bme680_i2c_reg_write :: "(u8 \<Rightarrow> u8 \<Rightarrow> 'd \<Rightarrow> 'd \<times> int) \<Rightarrow> u8 \<Rightarrow> u8 \<Rightarrow> 'd \<Rightarrow> 'd \<times> int" where
  "bme680_i2c_reg_write smbus reg val d = (case smbus reg val d of (d', ret) \<Rightarrow> if ret < 0 then (d', ret) else (d', 0))"

definition bme680_i2c_probe :: "bool \<Rightarrow> int \<Rightarrow> ('s \<Rightarrow> 's \<times> int) \<Rightarrow> 's drv \<Rightarrow> ('s drv \<times> int) option" where
  "bme680_i2c_probe alloc regmap_err probe s =
     (if \<not> alloc then Some (s, - ENOMEM)
      else if regmap_err \<noteq> 0 then Some (s, regmap_err)
      else case mutex_lock s of
          None \<Rightarrow> None
        | Some s1 \<Rightarrow> (case bme680_core_probe probe s1 of
            None \<Rightarrow> None
          | Some (s2, ret) \<Rightarrow> if ret \<noteq> 0 then Some (mutex_unlock s2, ret) else Some (mutex_unlock s2, 0)))"

definition bme680_i2c_remove :: "'s drv \<Rightarrow> ('s drv \<times> int) option" where
  "bme680_i2c_remove s = (case mutex_lock s of
      None \<Rightarrow> None
    | Some s1 \<Rightarrow> (case bme680_core_remove s1 of None \<Rightarrow> None | Some (s2, ret) \<Rightarrow> Some (mutex_unlock s2, 0)))"

definition bme680_i2c_suspend :: "'s drv \<Rightarrow> ('s drv \<times> int) option" where
  "bme680_i2c_suspend s = (case mutex_lock s of
      None \<Rightarrow> None
    | Some s1 \<Rightarrow> (case bme680_core_suspend s1 of None \<Rightarrow> None | Some (s2, ret) \<Rightarrow> Some (mutex_unlock s2, 0)))"

definition bme680_i2c_resume :: "'s drv \<Rightarrow> ('s drv \<times> int) option" where
  "bme680_i2c_resume s = (case mutex_lock s of
      None \<Rightarrow> None
    | Some s1 \<Rightarrow> (case bme680_core_resume s1 of None \<Rightarrow> None | Some (s2, ret) \<Rightarrow> Some (mutex_unlock s2, 0)))"

definition bme680_spi_remove :: "'s drv \<Rightarrow> ('s drv \<times> int) option" where
  "bme680_spi_remove s = bme680_core_remove s"

definition bme680_spi_suspend :: "'s drv \<Rightarrow> ('s drv \<times> int) option" where
  "bme680_spi_suspend s =
     (if dv_spi_lock s then None
      else case bme680_core_suspend (s\<lparr>dv_spi_lock := True\<rparr>) of
          None \<Rightarrow> None
        | Some (s2, ret) \<Rightarrow> Some (s2\<lparr>dv_spi_lock := False\<rparr>, 0))"

definition bme680_spi_resume :: "'s drv \<Rightarrow> ('s drv \<times> int) option" where
  "bme680_spi_resume s =
     (if dv_spi_lock s then None
      else case bme680_core_resume (s\<lparr>dv_spi_lock := True\<rparr>) of
          None \<Rightarrow> None
        | Some (s2, ret) \<Rightarrow> Some (s2\<lparr>dv_spi_lock := False\<rparr>, 0))"

section \<open>Driver tables\<close>

text \<open>
  The static tables the kernel reads: the regmap configurations, and what each driver registers.
  \<open>bd_suspend\<close> and \<open>bd_resume\<close> are the entries of its power-management table; the SPI driver names
  the table of the core, \<open>bme680_dev_pm_ops\<close>, whose entries are kernel functions and a parameter.
\<close>

record regmap_config =
  reg_bits :: nat
  val_bits :: nat
  max_register :: nat
  use_single_read :: bool
  use_single_write :: bool

definition bme680_spi_regmap_config :: regmap_config where
  "bme680_spi_regmap_config = \<lparr>reg_bits = 8, val_bits = 8, max_register = 0xFF, use_single_read = True, use_single_write = True\<rparr>"

definition bme680_i2c_regmap_config :: regmap_config where
  "bme680_i2c_regmap_config = \<lparr>reg_bits = 8, val_bits = 8, max_register = 0xFF, use_single_read = False, use_single_write = False\<rparr>"

record 's pm_ops =
  pm_suspend :: "'s drv \<Rightarrow> ('s drv \<times> int) option"
  pm_resume :: "'s drv \<Rightarrow> ('s drv \<times> int) option"

definition bme680_i2c_pm_ops :: "'s pm_ops" where
  "bme680_i2c_pm_ops = \<lparr>pm_suspend = bme680_i2c_suspend, pm_resume = bme680_i2c_resume\<rparr>"

definition bme680_spi_pm_ops :: "'s pm_ops" where
  "bme680_spi_pm_ops = \<lparr>pm_suspend = bme680_spi_suspend, pm_resume = bme680_spi_resume\<rparr>"

definition bme680_i2c_id :: "string list" where
  "bme680_i2c_id = [''bme680'']"

definition bme680_i2c_of_match :: "string list" where
  "bme680_i2c_of_match = [''bosch,bme680'']"

definition bme680_spi_id :: "string list" where
  "bme680_spi_id = [''bme680'']"

definition bme680_of_match :: "string list" where
  "bme680_of_match = [''bosch,bme680'']"

record 's bus_driver =
  bd_name :: string
  bd_of_match_table :: "string list"
  bd_pm :: "'s pm_ops"
  bd_remove :: "('s drv \<Rightarrow> ('s drv \<times> int) option) option"
  bd_id_table :: "string list"

definition bme680_i2c_driver :: "'s bus_driver" where
  "bme680_i2c_driver = \<lparr>bd_name = ''bme680_i2c'', bd_of_match_table = bme680_i2c_of_match, bd_pm = bme680_i2c_pm_ops,
     bd_remove = Some bme680_i2c_remove, bd_id_table = bme680_i2c_id\<rparr>"

definition bme680_spi_driver :: "'s pm_ops \<Rightarrow> 's bus_driver" where
  "bme680_spi_driver bme680_dev_pm_ops = \<lparr>bd_name = ''bme680_spi'', bd_of_match_table = bme680_of_match, bd_pm = bme680_dev_pm_ops,
     bd_remove = None, bd_id_table = bme680_spi_id\<rparr>"

definition bme680_i2c_init :: "('s bus_driver \<Rightarrow> int) \<Rightarrow> int" where
  "bme680_i2c_init i2c_add_driver = i2c_add_driver bme680_i2c_driver"

definition bme680_i2c_exit :: "('s bus_driver \<Rightarrow> 'k) \<Rightarrow> 'k" where
  "bme680_i2c_exit i2c_del_driver = i2c_del_driver bme680_i2c_driver"

text \<open>What the kernel does when a device is unbound: it calls the driver's remove function, if there is one.\<close>

definition driver_unbind :: "'s bus_driver \<Rightarrow> 's drv \<Rightarrow> ('s drv \<times> int) option" where
  "driver_unbind drv s = (case bd_remove drv of None \<Rightarrow> Some (s, 0) | Some f \<Rightarrow> f s)"

section \<open>Properties\<close>

text \<open>
  The I2C driver waits for itself.  \<open>bme680_i2c_probe\<close> and \<open>bme680_i2c_remove\<close> hold
  \<open>bme680_i2c_lock\<close> when they call the core, which takes the same mutex.  So the probe returns
  only when an allocation fails, and the removal never; over SPI, where the bus driver does not
  take the mutex, the core's probe runs, its result is passed on, and the removal stops the timer
  and the polling thread.
\<close>

theorem i2c_driver_self_deadlock:
  "bme680_i2c_probe True 0 probe s = None \<and> bme680_i2c_remove s = None
   \<and> bme680_i2c_probe False e probe s = Some (s, - ENOMEM)
   \<and> bme680_core_probe probe (s\<lparr>dv_lock := False\<rparr>) = Some (s\<lparr>dv_lock := False, dv_dev := fst (probe (dv_dev s))\<rparr>, snd (probe (dv_dev s)))
   \<and> bme680_spi_remove (s\<lparr>dv_lock := False\<rparr>) = Some (s\<lparr>dv_lock := False, dv_timer := False, dv_thread := False\<rparr>, 0)"
  by (auto simp: bme680_i2c_probe_def bme680_i2c_remove_def bme680_spi_remove_def bme680_core_probe_def bme680_core_remove_def
      mutex_lock_def mutex_unlock_def split: prod.splits)

text \<open>
  Locks are balanced: every entry point of the two bus drivers and of the core that returns
  leaves the thread with the mutexes it held before.  Suspend and resume return 0 and change
  nothing, for a thread that holds none of the mutexes.
\<close>

definition held_mutexes :: "'s drv \<Rightarrow> bool \<times> bool \<times> bool" where
  "held_mutexes s = (dv_lock s, dv_spi_lock s, dv_data_lock s)"

lemma entry_points_balanced:
  assumes "f \<in> {bme680_core_probe probe, bme680_core_remove, bme680_core_suspend, bme680_core_resume, bme680_i2c_probe al er probe,
      bme680_i2c_remove, bme680_i2c_suspend, bme680_i2c_resume, bme680_spi_remove, bme680_spi_suspend, bme680_spi_resume}"
    "f s = Some (s', ret)"
  shows "held_mutexes s' = held_mutexes s"
  using assms
  by (auto simp: held_mutexes_def bme680_core_probe_def bme680_core_remove_def bme680_core_suspend_def bme680_core_resume_def bme680_i2c_probe_def
      bme680_i2c_remove_def bme680_i2c_suspend_def bme680_i2c_resume_def bme680_spi_remove_def bme680_spi_suspend_def
      bme680_spi_resume_def mutex_lock_def mutex_unlock_def split: if_splits option.splits prod.splits)

lemma suspend_resume_neutral:
  assumes "held_mutexes s = (False, False, False)"
  shows "bme680_i2c_suspend s = Some (s, 0)" "bme680_i2c_resume s = Some (s, 0)"
    "bme680_spi_suspend s = Some (s, 0)" "bme680_spi_resume s = Some (s, 0)"
  using assms
  by (simp_all add: held_mutexes_def bme680_core_suspend_def bme680_core_resume_def bme680_i2c_suspend_def bme680_i2c_resume_def
      bme680_spi_suspend_def bme680_spi_resume_def mutex_lock_def mutex_unlock_def)

text \<open>
  The SPI driver registers no remove function: unbinding an SPI device leaves the threshold timer
  and the polling thread running, where \<open>bme680_spi_remove\<close> would stop them; unbinding an I2C device
  never returns.
\<close>

lemma unbind_leaves_spi_running:
  "driver_unbind (bme680_spi_driver pm) s = Some (s, 0)" "driver_unbind bme680_i2c_driver s = None"
  "\<not> dv_lock s \<Longrightarrow> \<exists>s'. bme680_spi_remove s = Some (s', 0) \<and> \<not> dv_timer s' \<and> \<not> dv_thread s'"
  by (simp_all add: driver_unbind_def bme680_spi_driver_def bme680_i2c_driver_def bme680_i2c_remove_def bme680_spi_remove_def
      bme680_core_remove_def mutex_lock_def mutex_unlock_def)

end
