(* ===== verification/Register_Bus.thy ===== *)
theory Register_Bus
  imports Bme680_I2c
begin

unbundle bit_operations_syntax

text \<open>
  The driver core on top of the SPI bus.  \<open>bme680.c\<close> reaches the chip through a regmap, and the
  regmap over SPI goes through \<open>bme680_regmap_spi_read\<close> and \<open>bme680_regmap_spi_write\<close> of
  \<open>bme680_spi.c\<close>.  Over I2C there is nothing to compose: \<open>bme680_i2c_probe\<close> creates its regmap without a
  bus and from a configuration without accessors, so that \<open>bme680_i2c_reg_read\<close> and
  \<open>bme680_i2c_reg_write\<close> are never called.

  The interfaces are locales.  \<open>register_bus\<close> is what a bus promises: single reads and writes of
  the registers it can address behave like a table, and keep its own condition (for SPI: the
  cached page).  \<open>register_map\<close> is what the core relies on of its regmap.  \<open>regmap_on_bus\<close> is a
  bus with a regmap that follows the kernel's documentation for a map without cache, and is a
  \<open>register_map\<close>.  The bus contract is interpreted for the functions of the SPI driver, the map
  contract in addition for a map that stores directly.
\<close>

section \<open>Register tables\<close>

definition agree_on :: "(u8 \<Rightarrow> bool) \<Rightarrow> (u8 \<Rightarrow> u8) \<Rightarrow> (u8 \<Rightarrow> u8) \<Rightarrow> bool" where
  "agree_on regs f g \<longleftrightarrow> (\<forall>q. regs q \<longrightarrow> f q = g q)"

lemma agree_on_refl [simp]: "agree_on regs f f"
  by (simp add: agree_on_def)

lemma agree_on_trans: "agree_on regs f g \<Longrightarrow> agree_on regs g h \<Longrightarrow> agree_on regs f h"
  by (simp add: agree_on_def)

lemma agree_on_sym: "agree_on regs f g \<Longrightarrow> agree_on regs g f"
  by (simp add: agree_on_def)

lemma agree_on_upd: "agree_on regs f g \<Longrightarrow> agree_on regs (f(r := v)) (g(r := v))"
  by (simp add: agree_on_def)

text \<open>Sequences of accesses, on a bus and on a table; the outcome of each access is recorded.\<close>

datatype bus_op = Rd u8 | Wr u8 u8

fun op_reg :: "bus_op \<Rightarrow> u8" where
  "op_reg (Rd r) = r"
| "op_reg (Wr r v) = r"

fun bus_run :: "(u8 \<Rightarrow> 's \<Rightarrow> 's \<times> int \<times> u8) \<Rightarrow> (u8 \<Rightarrow> u8 \<Rightarrow> 's \<Rightarrow> 's \<times> int) \<Rightarrow> bus_op list \<Rightarrow> 's \<Rightarrow> 's \<times> (int \<times> u8 option) list" where
  "bus_run rd wr [] s = (s, [])"
| "bus_run rd wr (Rd r # ops) s =
     (case rd r s of (s1, ret, v) \<Rightarrow> case bus_run rd wr ops s1 of (s2, outs) \<Rightarrow> (s2, (ret, Some v) # outs))"
| "bus_run rd wr (Wr r v # ops) s =
     (case wr r v s of (s1, ret) \<Rightarrow> case bus_run rd wr ops s1 of (s2, outs) \<Rightarrow> (s2, (ret, None) # outs))"

fun table_run :: "bus_op list \<Rightarrow> (u8 \<Rightarrow> u8) \<Rightarrow> (u8 \<Rightarrow> u8) \<times> (int \<times> u8 option) list" where
  "table_run [] f = (f, [])"
| "table_run (Rd r # ops) f = (case table_run ops f of (g, outs) \<Rightarrow> (g, (0, Some (f r)) # outs))"
| "table_run (Wr r v # ops) f = (case table_run ops (f(r := v)) of (g, outs) \<Rightarrow> (g, (0, None) # outs))"

section \<open>What a bus promises\<close>

locale register_bus =
  fixes rd :: "u8 \<Rightarrow> 's \<Rightarrow> 's \<times> int \<times> u8"
    and wr :: "u8 \<Rightarrow> u8 \<Rightarrow> 's \<Rightarrow> 's \<times> int"
    and content :: "'s \<Rightarrow> u8 \<Rightarrow> u8"
    and ok :: "'s \<Rightarrow> bool"
    and regs :: "u8 \<Rightarrow> bool"
  assumes rd_law: "\<lbrakk>ok s; regs r\<rbrakk> \<Longrightarrow> \<exists>s'. rd r s = (s', 0, content s r) \<and> ok s' \<and> agree_on regs (content s') (content s)"
    and wr_law: "\<lbrakk>ok s; regs r\<rbrakk> \<Longrightarrow> \<exists>s'. wr r v s = (s', 0) \<and> ok s' \<and> agree_on regs (content s') ((content s)(r := v))"
begin

lemma run_refines:
  "\<lbrakk>ok s; list_all (\<lambda>x. regs (op_reg x)) ops; agree_on regs (content s) f\<rbrakk>
    \<Longrightarrow> \<exists>s'. bus_run rd wr ops s = (s', snd (table_run ops f)) \<and> ok s' \<and> agree_on regs (content s') (fst (table_run ops f))"
proof (induction ops f arbitrary: s rule: table_run.induct)
  case (2 r ops f)
  then have "regs r" by simp
  with rd_law 2(2) obtain s1 where s1: "rd r s = (s1, 0, content s r)" "ok s1" "agree_on regs (content s1) (content s)" by blast
  have "content s r = f r" using 2(4) \<open>regs r\<close> by (simp add: agree_on_def)
  with 2(1) [OF s1(2) _ agree_on_trans [OF s1(3) 2(4)]] 2(3) s1(1) show ?case by (auto split: prod.splits)
next
  case (3 r v ops f)
  then have "regs r" by simp
  with wr_law 3(2) obtain s1 where s1: "wr r v s = (s1, 0)" "ok s1" "agree_on regs (content s1) ((content s)(r := v))" by blast
  with 3(1) [OF s1(2) _ agree_on_trans [OF s1(3) agree_on_upd [OF 3(4)]]] 3(3) show ?case
    by (auto simp del: fun_upd_apply split: prod.splits)
qed auto

end

section \<open>What the core relies on\<close>

definition upd_bits :: "u8 \<Rightarrow> u8 \<Rightarrow> u8 \<Rightarrow> u8" where
  "upd_bits m v x = (x AND NOT m) OR (v AND m)"

text \<open>The registers the core writes.\<close>

definition core_regs :: "u8 list" where
  "core_regs = [BME680_REG_CTRL_MEAS, BME680_REG_CTRL_HUM, BME680_REG_CONFIG, BME680_REG_GAS_WAIT_0, BME680_REG_RES_HEAT_0, BME680_REG_CTRL_GAS_1]"

locale register_map =
  fixes rm :: "'s regmap"
    and content :: "'s \<Rightarrow> u8 \<Rightarrow> u8"
    and ok :: "'s \<Rightarrow> bool"
    and regs :: "u8 \<Rightarrow> bool"
  assumes read_law: "\<lbrakk>ok s; regs r\<rbrakk> \<Longrightarrow> \<exists>s'. regmap_read rm r s = (s', 0, content s r) \<and> ok s' \<and> agree_on regs (content s') (content s)"
    and write_law: "\<lbrakk>ok s; regs r\<rbrakk> \<Longrightarrow> \<exists>s'. regmap_write rm r v s = (s', 0) \<and> ok s' \<and> agree_on regs (content s') ((content s)(r := v))"
    and update_law: "\<lbrakk>ok s; regs r\<rbrakk> \<Longrightarrow> \<exists>s'. regmap_update_bits rm r m v s = (s', 0) \<and> ok s'
          \<and> agree_on regs (content s') ((content s)(r := upd_bits m v (content s r)))"
    and reaches_core: "\<lbrakk>ok s; r \<in> set core_regs\<rbrakk> \<Longrightarrow> regs r"
begin

text \<open>\<open>sim g F\<close>: the call \<open>g\<close> succeeds and changes the registers as \<open>F\<close> changes a table.\<close>

definition sim :: "('s \<Rightarrow> 's \<times> int) \<Rightarrow> ((u8 \<Rightarrow> u8) \<Rightarrow> u8 \<Rightarrow> u8) \<Rightarrow> bool" where
  "sim g F \<longleftrightarrow> (\<forall>s f. ok s \<longrightarrow> agree_on regs (content s) f \<longrightarrow> (\<exists>s'. g s = (s', 0) \<and> ok s' \<and> agree_on regs (content s') (F f)))"

lemma simD: "\<lbrakk>sim g F; ok s\<rbrakk> \<Longrightarrow> \<exists>s'. g s = (s', 0) \<and> ok s' \<and> agree_on regs (content s') (F (content s))"
  by (auto simp: sim_def)

lemma sim_write: "r \<in> set core_regs \<Longrightarrow> sim (regmap_write rm r v) (\<lambda>f. f(r := v))"
  unfolding sim_def by (meson reaches_core write_law agree_on_trans agree_on_upd)

lemma sim_update:
  assumes "r \<in> set core_regs"
  shows "sim (regmap_update_bits rm r m v) (\<lambda>f. f(r := upd_bits m v (f r)))"
  unfolding sim_def
proof (intro allI impI)
  fix s f assume a: "ok s" "agree_on regs (content s) f"
  have r: "regs r" by (rule reaches_core [OF a(1) assms])
  with a have "content s r = f r" by (simp add: agree_on_def)
  with update_law [OF a(1) r, of m v] agree_on_upd [OF a(2)]
  show "\<exists>s'. regmap_update_bits rm r m v s = (s', 0) \<and> ok s' \<and> agree_on regs (content s') (f(r := upd_bits m v (f r)))"
    by (auto intro: agree_on_trans)
qed

lemma sim_Nil: "sim (steps []) (\<lambda>f. f)"
  by (simp add: sim_def)

lemma sim_Cons:
  assumes "sim g F" "sim (steps gs) G"
  shows "sim (steps (g # gs)) (\<lambda>f. G (F f))"
  unfolding sim_def
proof (intro allI impI)
  fix s f assume "ok s" "agree_on regs (content s) f"
  with assms(1) obtain s1 where s1: "g s = (s1, 0)" "ok s1" "agree_on regs (content s1) (F f)" unfolding sim_def by blast
  with assms(2) obtain s2 where "steps gs s1 = (s2, 0)" "ok s2" "agree_on regs (content s2) (G (F f))" unfolding sim_def by blast
  with s1 show "\<exists>s'. steps (g # gs) s = (s', 0) \<and> ok s' \<and> agree_on regs (content s') (G (F f))" by simp
qed

lemma core_reg: "BME680_REG_CTRL_MEAS \<in> set core_regs" "BME680_REG_CTRL_HUM \<in> set core_regs" "BME680_REG_CONFIG \<in> set core_regs"
  "BME680_REG_GAS_WAIT_0 \<in> set core_regs" "BME680_REG_RES_HEAT_0 \<in> set core_regs" "BME680_REG_CTRL_GAS_1 \<in> set core_regs"
  by (simp_all add: core_regs_def)

lemma sim_gas_config:
  "sim (bme680_set_gas_config e rm data)
     (\<lambda>f. f(BME680_REG_GAS_WAIT_0 := ucast (heater_dur data), BME680_REG_RES_HEAT_0 := res_heat_val (bme680 data),
            BME680_REG_CTRL_GAS_1 := BME680_ENABLE_GAS_MEAS_L e OR BME680_ENABLE_HEATER e))"
  unfolding bme680_set_gas_config_def
  by (rule sim_Cons [OF sim_write [OF core_reg(4)] sim_Cons [OF sim_write [OF core_reg(5)] sim_Cons [OF sim_write [OF core_reg(6)] sim_Nil]]])

lemma sim_chip_config: "sim (bme680_chip_config e rm data) (config_regs e data)"
  unfolding bme680_chip_config_def bme680_set_oversampling_def config_regs_def Let_def upd_bits_def [symmetric]
  by (rule sim_Cons [OF sim_update [OF core_reg(1)] sim_Cons [OF sim_update [OF core_reg(1)] sim_Cons [OF sim_update [OF core_reg(2)]
        sim_Cons [OF sim_update [OF core_reg(3)] sim_Cons [OF sim_gas_config sim_Nil]]]]])

lemmas chip_config_on = simD [OF sim_chip_config]

lemma set_get_mode_on:
  assumes "ok s" "field_ok e (BME680_MODE_MASK e) {0, 1}"
  shows "\<exists>s' s''. bme680_set_mode e rm (mode_val mode) s = (s', 0) \<and> ok s'
    \<and> bme680_get_mode e rm s' = (s'', 0, mode_val mode) \<and> ok s''
    \<and> content s' BME680_REG_CTRL_MEAS AND NOT (BME680_MODE_MASK e) = content s BME680_REG_CTRL_MEAS AND NOT (BME680_MODE_MASK e)
    \<and> (\<forall>r. regs r \<and> r \<noteq> BME680_REG_CTRL_MEAS \<longrightarrow> content s' r = content s r)"
proof -
  let ?m = "BME680_MODE_MASK e" and ?p = "FIELD_PREP e (BME680_MODE_MASK e) (mode_val mode)"
  let ?v = "(content s BME680_REG_CTRL_MEAS AND NOT ?m) OR ?p"
  have reg: "regs BME680_REG_CTRL_MEAS" by (rule reaches_core [OF assms(1) core_reg(1)])
  obtain s1 where s1: "regmap_read rm BME680_REG_CTRL_MEAS s = (s1, 0, content s BME680_REG_CTRL_MEAS)" "ok s1" "agree_on regs (content s1) (content s)"
    using read_law [OF assms(1) reg] by blast
  obtain s2 where s2: "regmap_write rm BME680_REG_CTRL_MEAS ?v s1 = (s2, 0)" "ok s2"
    "agree_on regs (content s2) ((content s1)(BME680_REG_CTRL_MEAS := ?v))" using write_law [OF s1(2) reg] by blast
  obtain s3 where s3: "regmap_read rm BME680_REG_CTRL_MEAS s2 = (s3, 0, content s2 BME680_REG_CTRL_MEAS)" "ok s3"
    using read_law [OF s2(2) reg] by blast
  have c2: "content s2 BME680_REG_CTRL_MEAS = ?v" "\<forall>r. regs r \<and> r \<noteq> BME680_REG_CTRL_MEAS \<longrightarrow> content s2 r = content s r"
    using s2(3) s1(3) reg by (auto simp: agree_on_def)
  have p: "?p AND ?m = ?p" and g: "\<And>r. FIELD_GET e ?m (r AND ?m) = FIELD_GET e ?m r" and i: "FIELD_GET e ?m ?p = mode_val mode"
    using assms(2) by (cases mode; simp add: field_ok_def)+
  have "FIELD_GET e ?m ?v = mode_val mode" using g [of ?v] masked_or(1) [OF p] i by simp
  with s1 s2 s3 c2 masked_or(2) [OF p] show ?thesis
    by (intro exI [of _ s2] exI [of _ s3]) (simp add: bme680_set_mode_def bme680_get_mode_def)
qed

end

section \<open>A regmap over a bus\<close>

text \<open>
  What the kernel documents of a regmap without cache: a read and a write are one access of the
  bus, and \<open>regmap_update_bits\<close> is a read followed by a write of the changed bits if they change.
\<close>

definition uncached_regmap ::
  "(u8 \<Rightarrow> 's \<Rightarrow> 's \<times> int \<times> u8) \<Rightarrow> (u8 \<Rightarrow> u8 \<Rightarrow> 's \<Rightarrow> 's \<times> int) \<Rightarrow> 's regmap \<Rightarrow> bool" where
  "uncached_regmap rd wr rm \<longleftrightarrow>
     (\<forall>r s. regmap_read rm r s = rd r s) \<and> (\<forall>r v s. regmap_write rm r v s = wr r v s)
     \<and> (\<forall>r m v s. regmap_update_bits rm r m v s = (case rd r s of (s1, ret, x) \<Rightarrow>
          if ret \<noteq> 0 then (s1, ret) else if upd_bits m v x = x then (s1, 0) else wr r (upd_bits m v x) s1))"

locale regmap_on_bus = register_bus rd wr content ok regs
  for rd :: "u8 \<Rightarrow> 's \<Rightarrow> 's \<times> int \<times> u8"
    and wr :: "u8 \<Rightarrow> u8 \<Rightarrow> 's \<Rightarrow> 's \<times> int"
    and content :: "'s \<Rightarrow> u8 \<Rightarrow> u8"
    and ok :: "'s \<Rightarrow> bool"
    and regs :: "u8 \<Rightarrow> bool" +
  fixes rm :: "'s regmap"
  assumes uncached: "ok s \<Longrightarrow> uncached_regmap rd wr rm"
    and addresses_core: "\<lbrakk>ok s; r \<in> set core_regs\<rbrakk> \<Longrightarrow> regs r"
begin

lemma update_on_bus:
  assumes "ok s" "regs r"
  shows "\<exists>s'. regmap_update_bits rm r m v s = (s', 0) \<and> ok s' \<and> agree_on regs (content s') ((content s)(r := upd_bits m v (content s r)))"
proof -
  obtain s1 where s1: "rd r s = (s1, 0, content s r)" "ok s1" "agree_on regs (content s1) (content s)"
    using rd_law [OF assms] by blast
  let ?y = "upd_bits m v (content s r)"
  have u: "regmap_update_bits rm r m v s = (if ?y = content s r then (s1, 0) else wr r ?y s1)"
    using uncached [OF assms(1)] by (simp add: uncached_regmap_def s1(1))
  show ?thesis
  proof (cases "?y = content s r")
    case True
    then show ?thesis using u s1 by (simp add: fun_upd_idem)
  next
    case False
    obtain s2 where "wr r ?y s1 = (s2, 0)" "ok s2" "agree_on regs (content s2) ((content s1)(r := ?y))"
      using wr_law [OF s1(2) assms(2)] by blast
    with False u agree_on_upd [OF s1(3)] show ?thesis by (auto intro: agree_on_trans)
  qed
qed

end

sublocale regmap_on_bus \<subseteq> register_map rm content ok regs
proof (unfold_locales, goal_cases)
  case (1 s r)
  then show ?case using rd_law uncached [of s] by (simp add: uncached_regmap_def)
next
  case (2 s r v)
  then show ?case using wr_law uncached [of s] by (simp add: uncached_regmap_def)
qed (use update_on_bus addresses_core in auto)

section \<open>The SPI bus\<close>

text \<open>The accesses the regmap makes through \<open>bme680_regmap_bus\<close>, one byte each.\<close>

definition spi_rd :: "u8 \<Rightarrow> 'd spi \<Rightarrow> u8 \<Rightarrow> 'd \<times> u8 \<Rightarrow> ('d \<times> u8) \<times> int \<times> u8" where
  "spi_rd PAGE_BIT spi r s = (case bme680_regmap_spi_read PAGE_BIT spi r 1 s of (s', ret, rx) \<Rightarrow> (s', ret, byte rx 0))"

text \<open>
  The condition of the bus: the chip follows the protocol, the cached page is unknown or right,
  and the registers the core writes are storage.  The last holds between conversions: the chip
  itself clears the mode bits when a conversion has ended, so that during one \<open>CTRL_MEAS\<close> is not
  plain storage.
\<close>

definition spi_ok ::
  "u8 \<Rightarrow> 'd spi \<Rightarrow> ('d \<Rightarrow> u8) \<Rightarrow> ('d \<Rightarrow> u8 \<Rightarrow> u8) \<Rightarrow> (u8 \<Rightarrow> bool) \<Rightarrow> 'd \<times> u8 \<Rightarrow> bool" where
  "spi_ok PAGE_BIT spi page get stor s \<longleftrightarrow> spi_chip PAGE_BIT spi page get stor \<and> PAGE_BIT \<noteq> 0 \<and> page_ok page s"

lemma spi_rd_ok:
  assumes "spi_ok PAGE_BIT spi page get stor s" "stor r"
  shows "\<exists>s'. spi_rd PAGE_BIT spi r s = (s', 0, get (fst s) r) \<and> spi_ok PAGE_BIT spi page get stor s' \<and> agree_on stor (get (fst s')) (get (fst s))"
proof -
  obtain s' where "bme680_regmap_spi_read PAGE_BIT spi r 1 s = (s', 0, [get (fst s) r])" "page_ok page s'"
    "\<And>q. stor q \<Longrightarrow> get (fst s') q = get (fst s) q"
    using spi_read_ok [of PAGE_BIT spi page get stor s r] assms unfolding spi_ok_def by blast
  then show ?thesis using assms(1) by (intro exI [of _ s']) (simp add: spi_rd_def spi_ok_def agree_on_def byte_def)
qed

lemma spi_wr_ok:
  assumes "spi_ok PAGE_BIT spi page get stor s" "stor r"
  shows "\<exists>s'. bme680_regmap_spi_write PAGE_BIT spi r v s = (s', 0) \<and> spi_ok PAGE_BIT spi page get stor s'
    \<and> agree_on stor (get (fst s')) ((get (fst s))(r := v))"
proof -
  obtain s' where "bme680_regmap_spi_write PAGE_BIT spi r v s = (s', 0)" "page_ok page s'"
    "\<And>q. stor q \<Longrightarrow> get (fst s') q = (if q = r then v else get (fst s) q)"
    using spi_write_ok [of PAGE_BIT spi page get stor s r v] assms unfolding spi_ok_def by blast
  then show ?thesis using assms(1) by (intro exI [of _ s']) (simp add: spi_ok_def agree_on_def)
qed

interpretation spi_bus: register_bus "spi_rd PAGE_BIT spi" "bme680_regmap_spi_write PAGE_BIT spi" "\<lambda>s. get (fst s)"
    "spi_ok PAGE_BIT spi page get stor" stor
  for PAGE_BIT spi page get stor
  by unfold_locales (use spi_rd_ok spi_wr_ok in blast)+

interpretation spi: regmap_on_bus "spi_rd PAGE_BIT spi" "bme680_regmap_spi_write PAGE_BIT spi" "\<lambda>s. get (fst s)"
    "\<lambda>s. spi_ok PAGE_BIT spi page get stor s \<and> (\<forall>r \<in> set core_regs. stor r)
       \<and> uncached_regmap (spi_rd PAGE_BIT spi) (bme680_regmap_spi_write PAGE_BIT spi) rm" stor rm
  for PAGE_BIT spi page get stor rm
proof (unfold_locales, goal_cases)
  case (1 s r) then show ?case using spi_bus.rd_law [of PAGE_BIT spi page get stor s r] by blast
next
  case (2 s r v) then show ?case using spi_bus.wr_law [of PAGE_BIT spi page get stor s r v] by blast
qed auto

interpretation direct: register_map rm get "\<lambda>d. plain_regmap rm get" "\<lambda>_. True" for rm get
proof (unfold_locales, goal_cases)
  case (1 s r) then show ?case by (simp add: plain_read)
next
  case (2 s r v) then show ?case using plain_write [of rm get r v s] by fastforce
next
  case (3 s r m v) then show ?case using plain_update [of rm get r m v s] by (fastforce simp: upd_bits_def)
qed simp

section \<open>Properties\<close>

text \<open>A regmap without cache over given bus functions; its bulk read makes one access per register.\<close>

fun bulk_by_single :: "(u8 \<Rightarrow> 's \<Rightarrow> 's \<times> int \<times> u8) \<Rightarrow> u8 \<Rightarrow> nat \<Rightarrow> 's \<Rightarrow> 's \<times> int \<times> u8 list" where
  "bulk_by_single rd r 0 s = (s, 0, [])"
| "bulk_by_single rd r (Suc n) s = (case rd r s of (s1, ret, v) \<Rightarrow>
     if ret \<noteq> 0 then (s1, ret, [])
     else (case bulk_by_single rd (r + 1) n s1 of (s2, ret, vs) \<Rightarrow> (s2, ret, v # vs)))"

definition bus_regmap :: "(u8 \<Rightarrow> 's \<Rightarrow> 's \<times> int \<times> u8) \<Rightarrow> (u8 \<Rightarrow> u8 \<Rightarrow> 's \<Rightarrow> 's \<times> int) \<Rightarrow> 's regmap" where
  "bus_regmap rd wr = \<lparr>regmap_read = rd, regmap_write = wr, regmap_bulk_read = bulk_by_single rd,
     regmap_update_bits = (\<lambda>r m v s. case rd r s of (s1, ret, x) \<Rightarrow>
       if ret \<noteq> 0 then (s1, ret) else if upd_bits m v x = x then (s1, 0) else wr r (upd_bits m v x) s1)\<rparr>"

lemma uncached_bus_regmap: "uncached_regmap rd wr (bus_regmap rd wr)"
  by (simp add: uncached_regmap_def bus_regmap_def)

text \<open>
  C9: paged access over SPI is a register table, for every sequence of accesses to storage
  registers.  The statement leaves out the registers that are not storage: the status register,
  at 0x73 and 0xF3, whose write misdirects later accesses (as shown in \<open>Bme680_Spi\<close>), and whatever the chip does not
  keep as written, such as its read-only, reset and measurement registers.  On a chip that follows
  the SPI protocol, from any context whose cached page is unknown or right, every sequence of
  single reads and writes of storage registers through the bus functions of the driver, in
  whatever order and in whatever pages, succeeds access by access, returns what a plain table
  of registers returns, leaves the storage registers as in that table, and the cached page right.
\<close>

theorem spi_sequences_refine_table:
  assumes "spi_chip PAGE_BIT spi page get stor" "PAGE_BIT \<noteq> 0" "page_ok page s" "list_all (\<lambda>x. stor (op_reg x)) ops"
  shows "\<exists>s'. bus_run (spi_rd PAGE_BIT spi) (bme680_regmap_spi_write PAGE_BIT spi) ops s = (s', snd (table_run ops (get (fst s))))
    \<and> page_ok page s' \<and> agree_on stor (get (fst s')) (fst (table_run ops (get (fst s))))"
  using spi_bus.run_refines [OF _ assms(4) agree_on_refl, of PAGE_BIT spi page get s] assms(1-3) by (auto simp: spi_ok_def)

theorem spi_sequences_refine_table_witness:
  "\<exists>s'. bus_run (spi_rd 0x10 model_chip) (bme680_regmap_spi_write 0x10 model_chip) [Wr 0xE2 0x61, Rd 0x1D, Wr 0x1D 5, Rd 0xE2, Rd 0x1D]
      ((1, \<lambda>_. 0x77), 0xff) = (s', [(0, None), (0, Some 0x77), (0, None), (0, Some 0x61), (0, Some 5)])"
  using spi_sequences_refine_table [OF model_chip_ok, of "((1, \<lambda>_. 0x77), 0xff)" "[Wr 0xE2 0x61, Rd 0x1D, Wr 0x1D 5, Rd 0xE2, Rd 0x1D]"]
  by (auto simp: page_ok_def model_stor_def is_status_def)

text \<open>
  C15: the core's configuration and mode calls work over the SPI bus.  With a regmap without
  cache over the bus functions of the SPI driver, on a chip on which the registers the core writes
  are storage, \<open>bme680_chip_config\<close> succeeds and leaves every storage register as \<open>config_regs\<close>
  says; a mode that \<open>bme680_set_mode\<close> sets afterwards is returned by \<open>bme680_get_mode\<close>, and setting
  it changes no other storage register and nothing of \<open>CTRL_MEAS\<close> outside the mode bits.
\<close>

theorem driver_over_spi:
  assumes "spi_chip PAGE_BIT spi page get stor" "PAGE_BIT \<noteq> 0" "page_ok page s" "\<forall>r \<in> set core_regs. stor r"
    "uncached_regmap (spi_rd PAGE_BIT spi) (bme680_regmap_spi_write PAGE_BIT spi) rm"
    "field_ok e (BME680_MODE_MASK e) {0, 1}"
  shows "\<exists>s1 s2 s3. bme680_chip_config e rm data s = (s1, 0) \<and> agree_on stor (get (fst s1)) (config_regs e data (get (fst s)))
    \<and> bme680_set_mode e rm (mode_val mode) s1 = (s2, 0) \<and> bme680_get_mode e rm s2 = (s3, 0, mode_val mode)
    \<and> (\<forall>r. stor r \<and> r \<noteq> BME680_REG_CTRL_MEAS \<longrightarrow> get (fst s2) r = get (fst s1) r)
    \<and> get (fst s2) BME680_REG_CTRL_MEAS AND NOT (BME680_MODE_MASK e) = get (fst s1) BME680_REG_CTRL_MEAS AND NOT (BME680_MODE_MASK e)
    \<and> page_ok page s3"
proof -
  have ok: "spi_ok PAGE_BIT spi page get stor s" using assms(1-3) by (simp add: spi_ok_def)
  then obtain s1 where s1: "bme680_chip_config e rm data s = (s1, 0)" "spi_ok PAGE_BIT spi page get stor s1"
    "agree_on stor (get (fst s1)) (config_regs e data (get (fst s)))"
    using spi.chip_config_on [of PAGE_BIT spi page get stor s rm e data] assms(4,5) by blast
  obtain s2 s3 where "bme680_set_mode e rm (mode_val mode) s1 = (s2, 0)" "bme680_get_mode e rm s2 = (s3, 0, mode_val mode)"
    "spi_ok PAGE_BIT spi page get stor s3" "\<forall>r. stor r \<and> r \<noteq> BME680_REG_CTRL_MEAS \<longrightarrow> get (fst s2) r = get (fst s1) r"
    "get (fst s2) BME680_REG_CTRL_MEAS AND NOT (BME680_MODE_MASK e) = get (fst s1) BME680_REG_CTRL_MEAS AND NOT (BME680_MODE_MASK e)"
    using spi.set_get_mode_on [of PAGE_BIT spi page get stor s1 rm e mode] assms(4-6) s1(2) by blast
  with s1 show ?thesis by (intro exI [of _ s1] exI [of _ s2] exI [of _ s3]) (simp add: spi_ok_def)
qed

theorem driver_over_spi_witness:
  "\<exists>s1 s2 s3. bme680_chip_config sample_env (bus_regmap (spi_rd 0x10 model_chip) (bme680_regmap_spi_write 0x10 model_chip)) zero_data ((0, \<lambda>_. 0), 0xff) = (s1, 0)
     \<and> bme680_set_mode sample_env (bus_regmap (spi_rd 0x10 model_chip) (bme680_regmap_spi_write 0x10 model_chip)) 1 s1 = (s2, 0)
     \<and> bme680_get_mode sample_env (bus_regmap (spi_rd 0x10 model_chip) (bme680_regmap_spi_write 0x10 model_chip)) s2 = (s3, 0, 1)"
  using driver_over_spi [OF model_chip_ok _ _ _ uncached_bus_regmap sample_mode_field,
      of "((0, \<lambda>_. 0), 0xff)" zero_data BME680_MODE_FORCED]
  by (auto simp: page_ok_def core_regs_def model_stor_def is_status_def)

end
