(* ===== verification/Timer.thy ===== *)
theory Timer
  imports Prelude
begin

text \<open>
  \<open>timer.c\<close>: a thread that calls a function, then sleeps until the absolute time it computed
  before the call.  \<open>long\<close> has 64 bits.
\<close>

record timespec =
  tv_sec :: int
  tv_nsec :: int

record timer =
  tm_callback :: nat
  tm_arg :: nat
  tm_interval_ms :: int
  tm_running :: int

text \<open>The deadline computed from the current time.\<close>

definition timer_deadline :: "timespec \<Rightarrow> int \<Rightarrow> timespec" where
  "timer_deadline now interval_ms =
     (let nsec = wrap64 (tv_nsec now + wrap64 (interval_ms * 1000000)) in
      if nsec \<ge> 1000000000
      then \<lparr>tv_sec = wrap64 (tv_sec now + nsec sdiv 1000000000), tv_nsec = nsec smod 1000000000\<rparr>
      else now\<lparr>tv_nsec := nsec\<rparr>)"

text \<open>
  The loop of \<open>timer_task\<close>: for every round the time the clock shows; the rounds end when
  \<open>running\<close> is cleared.  The result is the calls made, each with the deadline slept to after it.
\<close>

fun timer_task :: "timer \<Rightarrow> timespec list \<Rightarrow> (nat \<times> nat \<times> timespec) list" where
  "timer_task t [] = []"
| "timer_task t (now # nows) =
     (if tm_running t = 0 then []
      else (tm_callback t, tm_arg t, timer_deadline now (tm_interval_ms t)) # timer_task t nows)"

definition timer_init :: "addr option \<Rightarrow> int \<Rightarrow> (addr \<rightharpoonup> timer) \<Rightarrow> int \<Rightarrow> nat \<Rightarrow> nat \<Rightarrow> (addr \<rightharpoonup> timer) \<times> int" where
  "timer_init malloc pthread_create h interval_ms callback arg =
     (case malloc of
        None \<Rightarrow> (h, - ENOMEM)
      | Some a \<Rightarrow>
          if pthread_create \<noteq> 0 then (h(a := None), - 1)
          else alloc_local malloc h \<lparr>tm_callback = callback, tm_arg = arg, tm_interval_ms = interval_ms, tm_running = 1\<rparr>)"

text \<open>
  \<open>timer_destroy\<close> clears \<open>running\<close>, cancels the thread and joins it.  The thread ends by its loop test,
  or acts on the cancellation, which runs \<open>timer_cleanup\<close>: while it is being joined, or already before
  the joining thread reads \<open>timer->thread\<close>.  There is no result where a pointer is followed that refers
  to nothing.
\<close>

definition timer_cleanup :: "(addr \<rightharpoonup> timer) \<Rightarrow> addr \<Rightarrow> (addr \<rightharpoonup> timer)" where
  "timer_cleanup h t = h(t := None)"

datatype timer_end = LoopEnds | CancelledInJoin | CancelledBeforeJoin

definition timer_destroy :: "timer_end \<Rightarrow> (addr \<rightharpoonup> timer) \<Rightarrow> addr option \<Rightarrow> (addr \<rightharpoonup> timer) option" where
  "timer_destroy e h timer = (case timer of
      None \<Rightarrow> None
    | Some a \<Rightarrow> (case h a of
        None \<Rightarrow> None
      | Some t \<Rightarrow>
          (let h = h(a \<mapsto> t\<lparr>tm_running := 0\<rparr>);
               h1 = (if e = CancelledBeforeJoin then timer_cleanup h a else h)
           in if h1 a = None then None
              else Some (if e = CancelledInJoin then timer_cleanup h1 a else h1))))"

section \<open>Properties\<close>

lemma sdiv_smod_pos: "0 \<le> a \<Longrightarrow> a sdiv 1000000000 = a div 1000000000 \<and> a smod 1000000000 = a mod (1000000000 :: int)"
  by (cases "a = 0") (simp_all add: signed_divide_int_def signed_modulo_int_def)

text \<open>
  C29: the deadline is the time plus the interval, normalised.  For every clock value with
  nanoseconds below one second, and every non-negative interval that fits, the deadline has its
  nanoseconds below one second and lies exactly the interval after the clock value.
\<close>

theorem timer_deadline_exact:
  assumes "0 \<le> tv_nsec now" "tv_nsec now < 1000000000" "0 \<le> interval" "interval \<le> 9223372035854"
    "0 \<le> tv_sec now" "tv_sec now \<le> 4611686018427387904"
  shows "0 \<le> tv_nsec (timer_deadline now interval) \<and> tv_nsec (timer_deadline now interval) < 1000000000
    \<and> tv_sec (timer_deadline now interval) * 1000000000 + tv_nsec (timer_deadline now interval)
      = tv_sec now * 1000000000 + tv_nsec now + interval * 1000000"
proof -
  let ?n = "tv_nsec now + interval * 1000000"
  have b: "0 \<le> ?n" "?n \<le> 9223372036854775807" using assms by linarith+
  have w: "wrap64 (interval * 1000000) = interval * 1000000" by (rule wrap64_id) (use assms in linarith)+
  have w2: "wrap64 ?n = ?n" by (rule wrap64_id) (use b in linarith)+
  have "0 \<le> ?n div 1000000000" "?n div 1000000000 \<le> 9223372036" using b by simp_all
  then have w3: "wrap64 (tv_sec now + ?n div 1000000000) = tv_sec now + ?n div 1000000000"
    by (intro wrap64_id) (use assms in linarith)+
  show ?thesis
  proof (cases "?n \<ge> 1000000000")
    case True
    then have "timer_deadline now interval = \<lparr>tv_sec = tv_sec now + ?n div 1000000000, tv_nsec = ?n mod 1000000000\<rparr>"
      using sdiv_smod_pos [OF b(1)] by (simp add: timer_deadline_def w w2 w3 Let_def)
    then show ?thesis using div_mult_mod_eq [of ?n 1000000000] by (simp add: algebra_simps)
  next
    case False
    then show ?thesis using b by (simp add: timer_deadline_def w w2 Let_def)
  qed
qed

theorem timer_deadline_exact_witness:
  "timer_deadline \<lparr>tv_sec = 7, tv_nsec = 900000000\<rparr> 1500 = \<lparr>tv_sec = 9, tv_nsec = 400000000\<rparr>
   \<and> tv_nsec (timer_deadline \<lparr>tv_sec = 7, tv_nsec = 900000000\<rparr> 1500) < 1000000000"
  using timer_deadline_exact [of "\<lparr>tv_sec = 7, tv_nsec = 900000000\<rparr>" 1500]
  by (simp add: timer_deadline_def wrap64_def signed_divide_int_def signed_modulo_int_def)

text \<open>
  Destroying a live timer: only a thread that acts on the cancellation while it is being joined
  leaves no timer behind.
\<close>

lemma timer_destroy_paths:
  assumes "h a = Some t"
  shows "timer_destroy LoopEnds h (Some a) = Some (h(a \<mapsto> t\<lparr>tm_running := 0\<rparr>))"
    "timer_destroy CancelledInJoin h (Some a) = Some (h(a := None))" "timer_destroy CancelledBeforeJoin h (Some a) = None"
  using assms by (simp_all add: timer_destroy_def timer_cleanup_def Let_def)

lemma timer_init_frame: "malloc \<noteq> Some p \<Longrightarrow> fst (timer_init malloc pc h i cb arg) p = h p"
  by (auto simp: timer_init_def alloc_local_frame split: option.splits)

end
