(* ===== verification/Bme680_Ipc.thy ===== *)
theory Bme680_Ipc
  imports Bme680_Core Timer
begin

text \<open>
  \<open>bme680_ipc.c\<close>: alerts over netlink and a System V message queue, and the periodic threshold
  check.  The kernel calls are inputs.
\<close>

section \<open>Messages\<close>

text \<open>
  The text of a System V message: \<open>strncpy\<close> of at most 63 characters, padded with NUL
  characters, and a NUL in the last of the 64 places.  \<open>c_string\<close> is what a receiver reads.
\<close>

definition sysv_mtext :: "string \<Rightarrow> string" where
  "sysv_mtext msg = take 63 (msg @ replicate 63 (CHR 0x00)) @ [CHR 0x00]"

definition c_string :: "string \<Rightarrow> string" where
  "c_string buf = takeWhile (\<lambda>c. c \<noteq> CHR 0x00) buf"

text \<open>
  The retry loop of \<open>bme680_send_sysv_alert\<close>.  \<open>tries\<close> are the results of \<open>msgsnd\<close> in turn: 0, or
  an error number; \<open>slept\<close> the results of \<open>clock_nanosleep\<close>.  The result is the number of
  attempts made and whether the message was sent.
\<close>

fun sysv_loop :: "nat \<Rightarrow> (nat \<Rightarrow> int) \<Rightarrow> (nat \<Rightarrow> int) \<Rightarrow> nat \<Rightarrow> nat \<times> bool" where
  "sysv_loop 0 tries slept k = (k, False)"
| "sysv_loop (Suc retries) tries slept k =
     (if tries k = 0 then (Suc k, True)
      else if tries k \<noteq> EAGAIN then (Suc k, False)
      else if slept k = ETIMEDOUT then (Suc k, False)
      else sysv_loop retries tries slept (Suc k))"

definition bme680_send_sysv_alert :: "(nat \<Rightarrow> int) \<Rightarrow> (nat \<Rightarrow> int) \<Rightarrow> string \<Rightarrow> nat \<times> string option" where
  "bme680_send_sysv_alert tries slept msg =
     (case sysv_loop 3 tries slept 0 of (k, sent) \<Rightarrow> (k, if sent then Some (sysv_mtext msg) else None))"

text \<open>The netlink message: \<open>None\<close> when the buffer cannot be built or the call fails.\<close>

definition bme680_netlink_send :: "bool \<Rightarrow> bool \<Rightarrow> int \<Rightarrow> string \<Rightarrow> string option \<times> int" where
  "bme680_netlink_send new_ok put_ok unicast msg =
     (if \<not> new_ok then (None, - ENOMEM)
      else if \<not> put_ok then (None, - 90)
      else (if unicast < 0 then None else Some (msg @ [CHR 0x00]), unicast))"

definition bme680_send_netlink_alert :: "bool \<Rightarrow> bool \<Rightarrow> int \<Rightarrow> string \<Rightarrow> string option" where
  "bme680_send_netlink_alert new_ok put_ok multicast msg =
     (if \<not> new_ok \<or> \<not> put_ok \<or> multicast < 0 then None else Some (msg @ [CHR 0x00]))"

section \<open>Threshold checks\<close>

text \<open>
  The check driven by the kernel timer.  \<open>gets\<close> are the results of the successive \<open>kfifo_get\<close>
  calls; the result is the alerts and whether the timer is armed again.
\<close>

fun fifo_retry :: "nat \<Rightarrow> (nat \<Rightarrow> fifo_entry option) \<Rightarrow> nat \<Rightarrow> fifo_entry option" where
  "fifo_retry 0 gets k = None"
| "fifo_retry (Suc retries) gets k = (case gets k of Some f \<Rightarrow> Some f | None \<Rightarrow> fifo_retry retries gets (Suc k))"

definition ipc_check_threshold_task :: "thresholds \<Rightarrow> (nat \<Rightarrow> fifo_entry option) \<Rightarrow> string list \<times> bool" where
  "ipc_check_threshold_task th gets = (case fifo_retry 3 gets 0 of
      None \<Rightarrow> ([], False)
    | Some f \<Rightarrow> (check_threshold_task th (Some f), True))"

text \<open>A timer that is armed runs the check once per period, on the gets of that period.\<close>

fun timer_periods :: "thresholds \<Rightarrow> (nat \<Rightarrow> fifo_entry option) list \<Rightarrow> bool \<Rightarrow> string list list" where
  "timer_periods th [] armed = []"
| "timer_periods th (gets # periods) armed =
     (if armed then (case ipc_check_threshold_task th gets of (alerts, armed') \<Rightarrow> alerts # timer_periods th periods armed')
      else [] # timer_periods th periods False)"

text \<open>
  The check driven by the user timer, with the thresholds the sources do not define as
  parameters; an alert is the channel and the text.
\<close>

datatype alert = Netlink string | Sysv string

definition threshold_alert_task :: "int \<Rightarrow> int \<Rightarrow> int \<Rightarrow> int \<Rightarrow> bme680_data \<Rightarrow> alert list" where
  "threshold_alert_task THRESHOLD_TEMP THRESHOLD_GAS THRESHOLD_PRESSURE THRESHOLD_HUMID data =
     (if temp_adc data > THRESHOLD_TEMP then [Netlink ''High temperature alert''] else [])
     @ (if uint (gas_adc data) > THRESHOLD_GAS then [Sysv ''High gas alert''] else [])
     @ (if uint (pressure_adc data) > THRESHOLD_PRESSURE then [Netlink ''High pressure alert''] else [])
     @ (if uint (humid_adc data) > THRESHOLD_HUMID then [Sysv ''High humidity alert''] else [])"

section \<open>Set-up\<close>

text \<open>
  \<open>bme680_ipc_init\<close>: the struct is zeroed, the netlink socket and the message queue are opened, and
  a timer is started.  \<open>timer_init\<close> stores the new timer in its own parameter, so the pointer in the
  struct stays NULL.
\<close>

record ipc_data =
  id_nl_sk :: bool
  id_sysv_msgid :: int
  id_timer :: "addr option"

definition bme680_ipc_init ::
  "bool \<Rightarrow> bool \<Rightarrow> int \<Rightarrow> addr option \<Rightarrow> int \<Rightarrow> nat \<Rightarrow> nat \<Rightarrow> (addr \<rightharpoonup> timer) \<Rightarrow> ((addr \<rightharpoonup> timer) \<times> ipc_data option) \<times> int" where
  "bme680_ipc_init alloc nl_ok msgid malloc pthread_create task data h =
     (if \<not> alloc then ((h, None), - ENOMEM)
      else if \<not> nl_ok then ((h, None), - ENOMEM)
      else if msgid < 0 then ((h, None), - ENOMEM)
      else ((fst (timer_init malloc pthread_create h 1000 task data),
             Some \<lparr>id_nl_sk = True, id_sysv_msgid = msgid, id_timer = None\<rparr>), 0))"

definition bme680_ipc_cleanup :: "timer_end \<Rightarrow> (addr \<rightharpoonup> timer) \<times> ipc_data option \<Rightarrow> ((addr \<rightharpoonup> timer) \<times> ipc_data option) option" where
  "bme680_ipc_cleanup timer_end s = (case s of
      (h, None) \<Rightarrow> Some (h, None)
    | (h, Some d) \<Rightarrow> (case timer_destroy timer_end h (id_timer d) of None \<Rightarrow> None | Some h' \<Rightarrow> Some (h', None)))"

section \<open>Properties\<close>

lemma takeWhile_padded: "CHR 0x00 \<notin> set msg \<Longrightarrow> takeWhile (\<lambda>c. c \<noteq> CHR 0x00) (msg @ CHR 0x00 # ys) = msg"
  by (induction msg) auto

text \<open>
  An alert message fits its buffer and is read back.  For every message without NUL
  characters the text has exactly the 64 characters of the buffer, ends in a NUL, and the
  receiver reads the message cut to 63 characters; at most three attempts are made to send it, and
  it is sent exactly when one of them succeeds before an error other than \<open>EAGAIN\<close>.
\<close>

theorem sysv_alert_roundtrip:
  assumes "CHR 0x00 \<notin> set msg"
  shows "length (sysv_mtext msg) = 64 \<and> last (sysv_mtext msg) = CHR 0x00 \<and> c_string (sysv_mtext msg) = take 63 msg
    \<and> fst (bme680_send_sysv_alert tries slept msg) \<le> 3
    \<and> (tries 0 = 0 \<longrightarrow> bme680_send_sysv_alert tries slept msg = (1, Some (sysv_mtext msg)))"
proof -
  have loop: "fst (sysv_loop n tries slept k) \<le> n + k" for n k by (induction n arbitrary: k) (auto, metis add_Suc_right)
  have first: "sysv_loop 3 tries slept 0 = (1, True)" if "tries 0 = 0" using that sysv_loop.simps(2) [of 2 tries slept 0] by (simp add: numeral_3_eq_3 numeral_2_eq_2)
  have e: "sysv_mtext msg = take 63 msg @ CHR 0x00 # drop 1 (replicate (63 - length msg) (CHR 0x00) @ [CHR 0x00])"
  proof (cases "length msg < 63")
    case True
    then obtain k where k: "63 - length msg = Suc k" by (metis Suc_diff_Suc)
    moreover from k have "k \<le> 62" by linarith
    ultimately show ?thesis using True by (simp add: sysv_mtext_def take_append replicate_append_same min_def)
  qed (simp add: sysv_mtext_def)
  have "CHR 0x00 \<notin> set (take 63 msg)" using assms in_set_takeD by fastforce
  then have "c_string (sysv_mtext msg) = take 63 msg" unfolding e c_string_def by (rule takeWhile_padded)
  moreover have "length (sysv_mtext msg) = 64 \<and> last (sysv_mtext msg) = CHR 0x00" by (simp add: sysv_mtext_def)
  ultimately show ?thesis using loop [of 3 0] first by (auto simp: bme680_send_sysv_alert_def split: prod.splits)
qed

theorem sysv_alert_roundtrip_witness:
  "c_string (sysv_mtext ''High gas alert'') = ''High gas alert'' \<and> length (sysv_mtext ''High gas alert'') = 64"
  using sysv_alert_roundtrip [of "''High gas alert''" "\<lambda>_. 0" "\<lambda>_. 0"] by simp

lemma fifo_retry_None: "fifo_retry n gets k = None \<longleftrightarrow> (\<forall>i < n. gets (k + i) = None)"
  by (induction n arbitrary: k) (auto simp: All_less_Suc2 split: option.splits)

lemma unarmed_silent: "timer_periods th periods False = replicate (length periods) []"
  by (induction periods) auto

text \<open>
  The threshold check stops for good on the first empty period.  The check arms its timer
  again exactly when one of its three attempts found an entry; when all three find the fifo empty
  it returns before re-arming, and no alert is raised in any later period, whatever is measured.
\<close>

theorem threshold_timer_dies:
  "(snd (ipc_check_threshold_task th gets) \<longleftrightarrow> (\<exists>i < 3. gets i \<noteq> None))
   \<and> timer_periods th ((\<lambda>_. None) # periods) True = replicate (Suc (length periods)) []"
proof -
  have "fifo_retry 3 gets 0 = None \<longleftrightarrow> (\<forall>i < 3. gets i = None)" unfolding fifo_retry_None by simp
  moreover have "fifo_retry 3 (\<lambda>_. None) 0 = None" unfolding fifo_retry_None by simp
  ultimately show ?thesis by (auto simp: ipc_check_threshold_task_def unarmed_silent split: option.splits)
qed

text \<open>
  Cleaning up after a successful initialisation follows a NULL pointer.  Whenever
  \<open>bme680_ipc_init\<close> returns 0 the timer pointer of the struct is NULL, because the timer was
  stored in a copy of the pointer, so \<open>bme680_ipc_cleanup\<close> has no defined behaviour; after a failed
  initialisation nothing is left and the cleanup does nothing.
\<close>

theorem ipc_cleanup_null_timer:
  assumes "bme680_ipc_init alloc nl_ok msgid malloc pc task data h = ((h', d), ret)"
  shows "if ret = 0 then bme680_ipc_cleanup e (h', d) = None else bme680_ipc_cleanup e (h', d) = Some (h, None)"
  using assms by (auto simp: bme680_ipc_init_def bme680_ipc_cleanup_def timer_destroy_def split: if_splits)

theorem ipc_cleanup_null_timer_witness:
  "\<exists>h d. bme680_ipc_init True True 3 (Some 9) 0 1 2 Map.empty = ((h, d), 0) \<and> h 9 \<noteq> None \<and> bme680_ipc_cleanup LoopEnds (h, d) = None"
proof -
  obtain h d ret where r: "bme680_ipc_init True True 3 (Some 9) 0 1 2 Map.empty = ((h, d), ret)" by (metis prod.collapse)
  have "ret = 0 \<and> h 9 \<noteq> None" using r by (auto simp: bme680_ipc_init_def timer_init_def alloc_local_def)
  then show ?thesis using ipc_cleanup_null_timer [OF r] r by auto
qed

end
