(* ===== verification/Fifo_Queue.thy ===== *)
theory Fifo_Queue
  imports Main
begin

text \<open>
  The interface the queues of the program share: the ring buffer of \<open>monitor.c\<close> and the linked
  task list of \<open>thread_pool.c\<close>.  \<open>content\<close> is the abstract list, \<open>invar\<close> the representation
  invariant; \<open>put\<close> and \<open>get\<close> are called only when \<open>can_put\<close> or \<open>can_get\<close> holds, which is what
  the waiting loops of the code establish.
\<close>

datatype 'a qop = Put 'a | Get

text \<open>
  A client that issues operations in any order; an operation whose guard fails is skipped, as
  a call that times out is.  The result is the elements accepted, the elements delivered and
  the final queue.
\<close>

fun drive :: "('a \<Rightarrow> 'q \<Rightarrow> 'q) \<Rightarrow> ('q \<Rightarrow> 'a \<times> 'q) \<Rightarrow> ('a \<Rightarrow> 'q \<Rightarrow> bool) \<Rightarrow> ('q \<Rightarrow> bool)
    \<Rightarrow> 'a qop list \<Rightarrow> 'q \<Rightarrow> 'a list \<times> 'a list \<times> 'q" where
  "drive put get can_put can_get [] q = ([], [], q)"
| "drive put get can_put can_get (Put x # ops) q =
     (if can_put x q
      then (case drive put get can_put can_get ops (put x q) of (ins, outs, q') \<Rightarrow> (x # ins, outs, q'))
      else drive put get can_put can_get ops q)"
| "drive put get can_put can_get (Get # ops) q =
     (if can_get q
      then (case get q of (x, q1) \<Rightarrow>
            (case drive put get can_put can_get ops q1 of (ins, outs, q') \<Rightarrow> (ins, x # outs, q')))
      else drive put get can_put can_get ops q)"

locale fifo_queue =
  fixes put :: "'a \<Rightarrow> 'q \<Rightarrow> 'q"
    and get :: "'q \<Rightarrow> 'a \<times> 'q"
    and can_put :: "'a \<Rightarrow> 'q \<Rightarrow> bool"
    and can_get :: "'q \<Rightarrow> bool"
    and content :: "'q \<Rightarrow> 'a list"
    and invar :: "'q \<Rightarrow> bool"
  assumes invar_put: "\<lbrakk>invar q; can_put x q\<rbrakk> \<Longrightarrow> invar (put x q)"
    and content_put: "\<lbrakk>invar q; can_put x q\<rbrakk> \<Longrightarrow> content (put x q) = content q @ [x]"
    and invar_get: "\<lbrakk>invar q; can_get q\<rbrakk> \<Longrightarrow> invar (snd (get q))"
    and content_get: "\<lbrakk>invar q; can_get q\<rbrakk> \<Longrightarrow> content q = fst (get q) # content (snd (get q))"
    and can_get_iff: "invar q \<Longrightarrow> can_get q \<longleftrightarrow> content q \<noteq> []"
begin

text \<open>First in, first out: what was delivered followed by what is left is what was there
  followed by what was accepted.\<close>

lemma drive_fifo:
  "\<lbrakk>invar q; drive put get can_put can_get ops q = (ins, outs, q')\<rbrakk>
    \<Longrightarrow> invar q' \<and> outs @ content q' = content q @ ins"
proof (induction ops arbitrary: q ins outs q')
  case Nil
  then show ?case by simp
next
  case (Cons op ops)
  show ?case
  proof (cases op)
    case (Put x)
    show ?thesis
    proof (cases "can_put x q")
      case True
      obtain ins1 where d: "drive put get can_put can_get ops (put x q) = (ins1, outs, q')" "ins = x # ins1"
        using Cons.prems Put True by (auto split: prod.splits)
      then show ?thesis
        using Cons.IH [OF invar_put [OF Cons.prems(1) True] d(1)] content_put [OF Cons.prems(1) True] by simp
    next
      case False
      with Cons Put show ?thesis by simp
    qed
  next
    case Get
    show ?thesis
    proof (cases "can_get q")
      case True
      obtain x q1 where g: "get q = (x, q1)" by fastforce
      obtain ins1 outs1 where d: "drive put get can_put can_get ops q1 = (ins1, outs1, q')"
        "ins = ins1" "outs = x # outs1"
        using Cons.prems Get True g by (auto split: prod.splits)
      have "invar q1" "content q = x # content q1"
        using invar_get [OF Cons.prems(1) True] content_get [OF Cons.prems(1) True] g by auto
      with Cons.IH [OF _ d(1)] d show ?thesis by simp
    next
      case False
      with Cons Get show ?thesis by simp
    qed
  qed
qed

lemma drive_from_empty:
  "\<lbrakk>invar q; content q = []; drive put get can_put can_get ops q = (ins, outs, q')\<rbrakk>
    \<Longrightarrow> outs = take (length outs) ins \<and> content q' = drop (length outs) ins"
  using drive_fifo [of q ops ins outs q'] by (metis append_Nil append_eq_conv_conj)

end

end
