(* ===== verification/Deadlock_Detector.thy ===== *)
theory Deadlock_Detector
  imports Prelude
begin

text \<open>
  \<open>deadlock_detector.c\<close>: a table of lock owners consulted before a mutex is taken.  The struct
  is the table and its declared size; thread identifiers are nonzero, 0 marks a free entry.
  The result of \<open>pthread_mutex_timedlock\<close> on the detector's own mutex is an input.
\<close>

record lock_info =
  li_owner :: tid
  li_locked :: int

record deadlock_detector =
  dd_locks :: "lock_info list"
  dd_num_mutexes :: int

definition free_lock :: lock_info where
  "free_lock = \<lparr>li_owner = 0, li_locked = 0\<rparr>"

definition deadlock_detector_new :: "int \<Rightarrow> deadlock_detector" where
  "deadlock_detector_new n = \<lparr>dd_locks = replicate (nat n) free_lock, dd_num_mutexes = n\<rparr>"

definition deadlock_detector_init ::
  "addr option \<Rightarrow> bool \<Rightarrow> (addr \<rightharpoonup> deadlock_detector) \<Rightarrow> addr \<Rightarrow> int \<Rightarrow> (addr \<rightharpoonup> deadlock_detector) \<times> int" where
  "deadlock_detector_init m locks_ok h dd num_mutexes =
     (case m of
        None \<Rightarrow> (h, - ENOMEM)
      | Some a \<Rightarrow> if \<not> locks_ok then (h(a := None), - ENOMEM)
                 else (h(a \<mapsto> deadlock_detector_new num_mutexes), 0))"

definition deadlock_detector_destroy :: "(addr \<rightharpoonup> deadlock_detector) \<Rightarrow> addr \<Rightarrow> (addr \<rightharpoonup> deadlock_detector)" where
  "deadlock_detector_destroy h dd = h(dd := None)"

definition held_by_other :: "deadlock_detector \<Rightarrow> tid \<Rightarrow> nat \<Rightarrow> bool" where
  "held_by_other dd current i \<longleftrightarrow> li_locked (dd_locks dd ! i) \<noteq> 0 \<and> li_owner (dd_locks dd ! i) \<noteq> current"

definition held_by_self :: "deadlock_detector \<Rightarrow> tid \<Rightarrow> nat \<Rightarrow> bool" where
  "held_by_self dd current j \<longleftrightarrow> li_locked (dd_locks dd ! j) \<noteq> 0 \<and> li_owner (dd_locks dd ! j) = current"

text \<open>The two nested loops: some entry of another thread lies below an entry of this thread.\<close>

definition potential_deadlock :: "deadlock_detector \<Rightarrow> tid \<Rightarrow> bool" where
  "potential_deadlock dd current \<longleftrightarrow>
     list_ex (\<lambda>i. held_by_other dd current i
        \<and> list_ex (\<lambda>j. held_by_self dd current j \<and> j > i) [0..<nat (dd_num_mutexes dd)])
       [0..<nat (dd_num_mutexes dd)]"

definition deadlock_detector_lock :: "int \<Rightarrow> tid \<Rightarrow> deadlock_detector \<Rightarrow> int \<Rightarrow> deadlock_detector \<times> int" where
  "deadlock_detector_lock timedlock current dd mutex_id =
     (if mutex_id < 0 \<or> mutex_id \<ge> dd_num_mutexes dd then (dd, - EINVAL)
      else if timedlock \<noteq> 0 then (dd, - ETIMEDOUT)
      else if potential_deadlock dd current then (dd, - EDEADLK)
      else (dd\<lparr>dd_locks := (dd_locks dd)[nat mutex_id := \<lparr>li_owner = current, li_locked = 1\<rparr>]\<rparr>, 0))"

definition deadlock_detector_unlock :: "tid \<Rightarrow> deadlock_detector \<Rightarrow> int \<Rightarrow> deadlock_detector \<times> int" where
  "deadlock_detector_unlock current dd mutex_id =
     (if mutex_id < 0 \<or> mutex_id \<ge> dd_num_mutexes dd then (dd, - EINVAL)
      else if li_locked (dd_locks dd ! nat mutex_id) = 0 \<or> li_owner (dd_locks dd ! nat mutex_id) \<noteq> current
      then (dd, - EPERM)
      else (dd\<lparr>dd_locks := (dd_locks dd)[nat mutex_id := free_lock]\<rparr>, 0))"

section \<open>Well-formed tables\<close>

definition dd_wf :: "deadlock_detector \<Rightarrow> bool" where
  "dd_wf dd \<longleftrightarrow> int (length (dd_locks dd)) = dd_num_mutexes dd"

lemma dd_wf_new: "0 \<le> n \<Longrightarrow> dd_wf (deadlock_detector_new n)"
  by (simp add: dd_wf_def deadlock_detector_new_def)

lemma dd_wf_lock [simp]: "dd_wf dd \<Longrightarrow> dd_wf (fst (deadlock_detector_lock r t dd m))"
  by (simp add: deadlock_detector_lock_def dd_wf_def)

lemma dd_wf_unlock [simp]: "dd_wf dd \<Longrightarrow> dd_wf (fst (deadlock_detector_unlock t dd m))"
  by (simp add: deadlock_detector_unlock_def dd_wf_def)

lemma dd_wf_nat: "dd_wf dd \<Longrightarrow> nat (dd_num_mutexes dd) = length (dd_locks dd)"
  by (simp add: dd_wf_def)

lemma potential_deadlock_iff:
  "dd_wf dd \<Longrightarrow> potential_deadlock dd t \<longleftrightarrow>
     (\<exists>i j. i < j \<and> j < length (dd_locks dd) \<and> held_by_other dd t i \<and> held_by_self dd t j)"
  unfolding potential_deadlock_def dd_wf_nat list_ex_iff by (fastforce simp: dd_wf_nat)


section \<open>Properties\<close>


definition dd_two :: deadlock_detector where
  "dd_two = \<lparr>dd_locks = [\<lparr>li_owner = 5, li_locked = 1\<rparr>, \<lparr>li_owner = 7, li_locked = 1\<rparr>], dd_num_mutexes = 2\<rparr>"


text \<open>
  Recording and clearing.  On a free entry of a well-formed table, a successful lock
  records the caller and touches no other entry; the caller's unlock then returns 0 and gives
  back exactly the table from before, and an unlock by any other thread returns \<open>-EPERM\<close>
  and changes nothing.
\<close>

theorem deadlock_detector_roundtrip:
  assumes "dd_wf dd" "m < length (dd_locks dd)" "dd_locks dd ! m = free_lock" "deadlock_detector_lock 0 t dd (int m) = (dd', 0)"
    and "u \<noteq> t"
  shows "held_by_self dd' t m \<and> (\<forall>i. i \<noteq> m \<longrightarrow> dd_locks dd' ! i = dd_locks dd ! i)
    \<and> deadlock_detector_unlock t dd' (int m) = (dd, 0)
    \<and> deadlock_detector_unlock u dd' (int m) = (dd', - EPERM)"
proof -
  have dd': "dd' = dd\<lparr>dd_locks := (dd_locks dd)[m := \<lparr>li_owner = t, li_locked = 1\<rparr>]\<rparr>"
    using assms(4) by (auto simp: deadlock_detector_lock_def split: if_splits)
  have "(dd_locks dd)[m := free_lock] = dd_locks dd" using assms(3) by (metis list_update_id)
  then show ?thesis using assms(1,2,5)
    by (auto simp: dd' held_by_self_def deadlock_detector_unlock_def dd_wf_def)
qed

theorem deadlock_detector_roundtrip_witness:
  "deadlock_detector_unlock 5 (fst (deadlock_detector_lock 0 5 (deadlock_detector_new 2) 1)) 1 = (deadlock_detector_new 2, 0)"
  using deadlock_detector_roundtrip [of "deadlock_detector_new 2" 1 5 _ 6]
  by (simp add: dd_wf_def deadlock_detector_new_def deadlock_detector_lock_def potential_deadlock_def
      held_by_other_def free_lock_def upt_rec numeral_2_eq_2)

text \<open>
  The detector does not protect a recorded owner.  If an entry is held by one thread and
  another thread that holds nothing asks for it, the request succeeds, the record changes
  hands, and the first thread's own unlock is then refused with \<open>-EPERM\<close>.
\<close>

theorem deadlock_detector_overwrites_owner:
  assumes "dd_wf dd" "m < length (dd_locks dd)" "held_by_self dd u m" "t \<noteq> u"
    and "\<forall>j < length (dd_locks dd). \<not> held_by_self dd t j"
  shows "\<exists>dd'. deadlock_detector_lock 0 t dd (int m) = (dd', 0) \<and> held_by_self dd' t m
    \<and> deadlock_detector_unlock u dd' (int m) = (dd', - EPERM)"
proof -
  have "\<not> potential_deadlock dd t" using assms(1,5) by (auto simp: potential_deadlock_iff)
  then show ?thesis using assms(1,2,4)
    by (simp add: deadlock_detector_lock_def deadlock_detector_unlock_def held_by_self_def dd_wf_def)
qed

theorem deadlock_detector_overwrites_owner_witness:
  "\<exists>dd'. deadlock_detector_lock 0 9 dd_two 1 = (dd', 0) \<and> held_by_self dd' 9 1
    \<and> deadlock_detector_unlock 7 dd' 1 = (dd', - EPERM)"
proof -
  have less2: "k < Suc (Suc 0) \<longleftrightarrow> k = 0 \<or> k = 1" for k :: nat by auto
  show ?thesis
    using deadlock_detector_overwrites_owner [of dd_two 1 7 9]
    by (simp add: dd_wf_def dd_two_def held_by_self_def less2)
qed

end
