(* ===== verification/Monitor.thy ===== *)
theory Monitor
  imports Sensor_Data Fifo_Queue Rwlock Deadlock_Detector
begin

text \<open>
  \<open>monitor.c\<close>: the bounded buffer between the sensor reader and the event loop, a ring of
  \<open>size\<close> records with \<open>head\<close>, \<open>tail\<close> and \<open>count\<close>.  \<open>monitor_write_body\<close> and \<open>monitor_read_body\<close>
  are the sections under the monitor's mutex; the calls of the deadlock detector before and
  after them run under the detector's mutex and are separate sections.

  The read-write lock inside the monitor is only ever used with the monitor's mutex held, so
  a lock call that has to wait can be ended by its timeout only; its result is ignored by the
  caller.  Its counters, and the table of the deadlock detector, are part of the state and
  unconstrained: \<open>rwlock_init\<close> and \<open>deadlock_detector_init\<close> build a fresh object and leave the
  one the monitor passes them as the memory allocator returned it.  For the lock that is a member
  with the content the memory happens to have.  For the detector it is worse: \<open>monitor->dd\<close> is a
  pointer that nothing ever sets, and C gives no meaning to its use.  \<open>mon_dd\<close> is the table it
  refers to in an execution where it happens to refer to one that nothing else uses; the
  statements below are about these executions, for every such table.
\<close>

record bme680_monitor =
  mon_data :: "bme680_fifo_data list"
  mon_head :: int
  mon_tail :: int
  mon_size :: int
  mon_count :: int
  mon_rwlock :: rwlock
  mon_dd :: deadlock_detector

definition bme680_monitor_init ::
  "bool \<Rightarrow> bool \<Rightarrow> bme680_fifo_data list \<Rightarrow> rwlock \<Rightarrow> deadlock_detector \<Rightarrow> int \<Rightarrow> int + bme680_monitor" where
  "bme680_monitor_init alloc_monitor alloc_data raw_data raw_rwlock raw_dd sz =
     (if \<not> alloc_monitor then Inl (- ENOMEM)
      else if \<not> alloc_data then Inl (- ENOMEM)
      else Inr \<lparr>mon_data = raw_data, mon_head = 0, mon_tail = 0, mon_size = sz, mon_count = 0,
               mon_rwlock = raw_rwlock, mon_dd = raw_dd\<rparr>)"

text \<open>
  \<open>bme680_monitor_destroy\<close>.  It takes the write lock, whatever the result, and calls \<open>free\<close> for the
  ring, through \<open>rwlock_destroy\<close> for the member \<open>rwlock\<close>, which lies some bytes inside the monitor,
  through \<open>deadlock_detector_destroy\<close> for the pointer \<open>dd\<close> that was never set, and for the monitor
  itself.  \<open>me_freeable\<close> are the addresses that \<open>malloc\<close> returned and that were not freed; \<open>free\<close> of
  any other has no defined result.  \<open>me_rwlock_at\<close> is the offset of the member and \<open>me_dd\<close> the content
  of the pointer.
\<close>

record memory =
  me_freeable :: "addr \<Rightarrow> bool"
  me_rwlock_at :: nat
  me_dd :: addr

definition bme680_monitor_destroy :: "memory \<Rightarrow> (addr \<rightharpoonup> bme680_monitor) \<Rightarrow> addr \<Rightarrow> (addr \<rightharpoonup> bme680_monitor) option" where
  "bme680_monitor_destroy M h m =
     (if \<not> me_freeable M (m + me_rwlock_at M) then None
      else if \<not> me_freeable M (me_dd M) then None
      else if \<not> me_freeable M m then None
      else Some (h(m := None)))"

definition wrlock_in_monitor :: "rwlock \<Rightarrow> rwlock" where
  "wrlock_in_monitor l = (case rwlock_wrlock l of
      (l', Block) \<Rightarrow> fst (rwlock_wrlock_woken ETIMEDOUT l') | (l', Ret r) \<Rightarrow> l')"

definition rdlock_in_monitor :: "rwlock \<Rightarrow> rwlock" where
  "rdlock_in_monitor l = (case rwlock_rdlock l of
      (l', Block) \<Rightarrow> fst (rwlock_rdlock_woken ETIMEDOUT l') | (l', Ret r) \<Rightarrow> l')"

text \<open>The writes to the ring that \<open>bme680_monitor_write\<close> and \<open>bme680_monitor_read\<close> make.\<close>

definition ring_put :: "bme680_fifo_data \<Rightarrow> bme680_monitor \<Rightarrow> bme680_monitor" where
  "ring_put d m = m\<lparr>mon_data := (mon_data m)[nat (mon_tail m) := d],
     mon_tail := (mon_tail m + 1) smod mon_size m,
     mon_count := wrap32 (mon_count m + 1),
     mon_rwlock := fst (rwlock_unlock (wrlock_in_monitor (mon_rwlock m)))\<rparr>"

definition ring_get :: "bme680_monitor \<Rightarrow> bme680_fifo_data \<times> bme680_monitor" where
  "ring_get m = (mon_data m ! nat (mon_head m),
     m\<lparr>mon_head := (mon_head m + 1) smod mon_size m,
       mon_count := wrap32 (mon_count m - 1),
       mon_rwlock := fst (rwlock_unlock (rdlock_in_monitor (mon_rwlock m)))\<rparr>)"

definition monitor_write_body :: "bme680_fifo_data \<Rightarrow> bme680_monitor \<Rightarrow> bme680_monitor \<times> outcome" where
  "monitor_write_body d m =
     (if mon_count m = mon_size m then (m, Block)
      else if mon_count m < 0 \<or> mon_count m > mon_size m then (m, Ret (- EINVAL))
      else (ring_put d m, Ret 0))"

definition monitor_write_woken :: "int \<Rightarrow> bme680_fifo_data \<Rightarrow> bme680_monitor \<Rightarrow> bme680_monitor \<times> outcome" where
  "monitor_write_woken ret d m =
     (if ret = ETIMEDOUT then (m, Ret (- ETIMEDOUT))
      else if ret \<noteq> 0 then (m, Ret ret)
      else monitor_write_body d m)"

definition monitor_read_body :: "bme680_monitor \<Rightarrow> bme680_monitor \<times> outcome \<times> bme680_fifo_data option" where
  "monitor_read_body m =
     (if mon_count m = 0 then (m, Block, None)
      else if mon_count m < 0 \<or> mon_count m > mon_size m then (m, Ret (- EINVAL), None)
      else (case ring_get m of (d, m') \<Rightarrow> (m', Ret 0, Some d)))"

definition monitor_read_woken :: "int \<Rightarrow> bme680_monitor \<Rightarrow> bme680_monitor \<times> outcome \<times> bme680_fifo_data option" where
  "monitor_read_woken ret m =
     (if ret = ETIMEDOUT then (m, Ret (- ETIMEDOUT), None)
      else if ret \<noteq> 0 then (m, Ret ret, None)
      else monitor_read_body m)"

text \<open>
  The two operations run to their end by one thread, with the results of
  \<open>pthread_mutex_timedlock\<close> on the detector's mutex as input; \<open>Block\<close> means the thread
  sleeps on \<open>not_full\<close> or \<open>not_empty\<close>.
\<close>

definition monitor_finish :: "tid \<Rightarrow> int \<Rightarrow> bme680_monitor \<Rightarrow> bme680_monitor" where
  "monitor_finish t m_id m = m\<lparr>mon_dd := fst (deadlock_detector_unlock t (mon_dd m) m_id)\<rparr>"

definition bme680_monitor_write ::
  "int \<Rightarrow> tid \<Rightarrow> bme680_monitor \<Rightarrow> bme680_fifo_data \<Rightarrow> bme680_monitor \<times> outcome" where
  "bme680_monitor_write timedlock t m d =
     (if sensor_data_invalid d then (m, Ret (- EINVAL))
      else case deadlock_detector_lock timedlock t (mon_dd m) 0 of (dd', r) \<Rightarrow>
        if r \<noteq> 0 then (m\<lparr>mon_dd := dd'\<rparr>, Ret (- EDEADLK))
        else case monitor_write_body d (m\<lparr>mon_dd := dd'\<rparr>) of
            (m', Block) \<Rightarrow> (m', Block)
          | (m', Ret r) \<Rightarrow> (monitor_finish t 0 m', Ret r))"

definition bme680_monitor_read ::
  "int \<Rightarrow> tid \<Rightarrow> bme680_monitor \<Rightarrow> bme680_monitor \<times> outcome \<times> bme680_fifo_data option" where
  "bme680_monitor_read timedlock t m =
     (case deadlock_detector_lock timedlock t (mon_dd m) 1 of (dd', r) \<Rightarrow>
        if r \<noteq> 0 then (m\<lparr>mon_dd := dd'\<rparr>, Ret (- EDEADLK), None)
        else case monitor_read_body (m\<lparr>mon_dd := dd'\<rparr>) of
            (m', Block, d) \<Rightarrow> (m', Block, d)
          | (m', Ret r, d) \<Rightarrow> (monitor_finish t 1 m', Ret r, d))"

text \<open>
  The same calls up to their return when nobody else uses the monitor meanwhile: a wait on the
  condition variable is then ended by its timeout after five seconds, whose path gives back the
  detector's entry and returns \<open>-ETIMEDOUT\<close>.
\<close>

fun outcome_val :: "outcome \<Rightarrow> int" where
  "outcome_val (Ret r) = r"
| "outcome_val Block = 0"

definition monitor_write_ended ::
  "int \<Rightarrow> tid \<Rightarrow> bme680_monitor \<Rightarrow> bme680_fifo_data \<Rightarrow> bme680_monitor \<times> int" where
  "monitor_write_ended timedlock t m d =
     (case bme680_monitor_write timedlock t m d of
        (m', Ret r) \<Rightarrow> (m', r)
      | (m', Block) \<Rightarrow> (case monitor_write_woken ETIMEDOUT d m' of (m'', out) \<Rightarrow> (monitor_finish t 0 m'', outcome_val out)))"

definition monitor_read_ended ::
  "int \<Rightarrow> tid \<Rightarrow> bme680_monitor \<Rightarrow> bme680_monitor \<times> int \<times> bme680_fifo_data option" where
  "monitor_read_ended timedlock t m =
     (case bme680_monitor_read timedlock t m of
        (m', Ret r, d) \<Rightarrow> (m', r, d)
      | (m', Block, d) \<Rightarrow> (case monitor_read_woken ETIMEDOUT m' of (m'', out, d') \<Rightarrow> (monitor_finish t 1 m'', outcome_val out, d')))"

section \<open>The ring buffer as a queue\<close>

definition ring_inv :: "bme680_monitor \<Rightarrow> bool" where
  "ring_inv m \<longleftrightarrow> 0 < mon_size m \<and> mon_size m \<le> INT_MAX \<and> int (length (mon_data m)) = mon_size m
     \<and> 0 \<le> mon_head m \<and> mon_head m < mon_size m \<and> 0 \<le> mon_count m \<and> mon_count m \<le> mon_size m
     \<and> mon_tail m = (mon_head m + mon_count m) mod mon_size m"

definition ring_content :: "bme680_monitor \<Rightarrow> bme680_fifo_data list" where
  "ring_content m = map (\<lambda>k. mon_data m ! nat ((mon_head m + int k) mod mon_size m)) [0..<nat (mon_count m)]"

definition ring_can_put :: "bme680_monitor \<Rightarrow> bool" where
  "ring_can_put m \<longleftrightarrow> mon_count m \<noteq> mon_size m"

definition ring_can_get :: "bme680_monitor \<Rightarrow> bool" where
  "ring_can_get m \<longleftrightarrow> mon_count m \<noteq> 0"

lemma smod_nonneg: "0 \<le> a \<Longrightarrow> 0 < b \<Longrightarrow> a smod b = a mod (b :: int)"
  by (cases "a = 0") (simp_all add: signed_modulo_int_def signed_divide_int_def minus_div_mult_eq_mod)

lemma mod_succ_pred: "((h + 1) mod n + (c - 1)) mod n = (h + c) mod (n :: int)"
  by (simp add: mod_add_left_eq)

lemma ring_slots_distinct:
  assumes "0 \<le> k" "k < c" "c < (n :: int)"
  shows "(h + k) mod n \<noteq> (h + c) mod n"
proof
  assume "(h + k) mod n = (h + c) mod n"
  then have "n dvd (h + c) - (h + k)" by (metis mod_eq_dvd_iff)
  then have "n \<le> c - k" using assms by (intro zdvd_imp_le) auto
  with assms show False by simp
qed

lemma ring_inv_put: "\<lbrakk>ring_inv m; ring_can_put m\<rbrakk> \<Longrightarrow> ring_inv (ring_put d m)"
  by (auto simp: ring_inv_def ring_can_put_def ring_put_def smod_nonneg mod_add_left_eq add.assoc)

lemma ring_inv_get: "\<lbrakk>ring_inv m; ring_can_get m\<rbrakk> \<Longrightarrow> ring_inv (snd (ring_get m))"
  by (auto simp: ring_inv_def ring_can_get_def ring_get_def smod_nonneg mod_succ_pred)

lemma ring_content_put:
  assumes "ring_inv m" "ring_can_put m"
  shows "ring_content (ring_put d m) = ring_content m @ [d]"
proof -
  let ?n = "mon_size m" and ?h = "mon_head m" and ?c = "mon_count m"
  let ?slot = "\<lambda>k. nat ((?h + k) mod ?n)"
  have r: "0 \<le> ?c" "?c < ?n" "?n \<le> INT_MAX" "int (length (mon_data m)) = ?n" "nat (mon_tail m) = ?slot ?c"
    using assms by (auto simp: ring_inv_def ring_can_put_def)
  have slot: "?slot k < length (mon_data m)" for k using r by (simp add: nat_less_iff)
  have old: "(mon_data m)[?slot ?c := d] ! ?slot (int k) = mon_data m ! ?slot (int k)" if "k < nat ?c" for k
  proof -
    have "(?h + int k) mod ?n \<noteq> (?h + ?c) mod ?n"
      using r that by (intro ring_slots_distinct) auto
    moreover have "0 \<le> (?h + int k) mod ?n" "0 \<le> (?h + ?c) mod ?n" using r by simp_all
    ultimately have "?slot (int k) \<noteq> ?slot ?c" by (simp add: eq_nat_nat_iff)
    then show ?thesis by simp
  qed
  have "nat (?c + 1) = Suc (nat ?c)" using r by simp
  then show ?thesis using r slot [of ?c] old by (simp add: ring_content_def ring_put_def)
qed

lemma ring_content_get:
  assumes "ring_inv m" "ring_can_get m"
  shows "ring_content m = fst (ring_get m) # ring_content (snd (ring_get m))"
proof -
  let ?n = "mon_size m" and ?h = "mon_head m" and ?c = "mon_count m"
  have r: "0 < ?c" "0 \<le> ?h" "?h < ?n" "?c \<le> INT_MAX" using assms by (auto simp: ring_inv_def ring_can_get_def)
  have upt: "[0..<nat ?c] = 0 # map Suc [0..<nat (?c - 1)]"
    using r by (simp add: map_Suc_upt upt_conv_Cons nat_diff_distrib)
  have shift: "(?h + int (Suc k)) mod ?n = ((?h + 1) mod ?n + int k) mod ?n" for k
    using mod_add_left_eq [of "?h + 1" ?n "int k"] by (simp add: algebra_simps)
  show ?thesis using r by (simp add: ring_content_def ring_get_def upt shift smod_nonneg comp_def del: upt_conv_Nil of_nat_Suc)
qed

interpretation ring: fifo_queue ring_put ring_get "\<lambda>_. ring_can_put" ring_can_get ring_content ring_inv
proof (unfold_locales, goal_cases)
  case (5 q)
  then show ?case by (auto simp: ring_inv_def ring_can_get_def ring_content_def)
qed (simp_all add: ring_inv_put ring_inv_get ring_content_put flip: ring_content_get)

section \<open>Threads using the monitor\<close>

text \<open>
  Each call is three sections, and other threads run between them: the entry in the detector's
  table (with the result of its timed lock as input), the section under the monitor's mutex,
  and the removal of the entry.  The state adds the history of accepted and delivered records.
\<close>

record mon_state =
  ms_mon :: bme680_monitor
  ms_written :: "bme680_fifo_data list"
  ms_read :: "bme680_fifo_data list"

datatype mon_op =
    WriteStart bme680_fifo_data int | WriteBody bme680_fifo_data | WriteEnd
  | ReadStart int | ReadBody | ReadEnd

datatype mon_loc = MIdle | WLocked bme680_fifo_data | WDone int | RLocked | RDone int

definition mon_set_dd :: "mon_state \<Rightarrow> deadlock_detector \<times> int \<Rightarrow> mon_state \<times> outcome" where
  "mon_set_dd s dr = (s\<lparr>ms_mon := (ms_mon s)\<lparr>mon_dd := fst dr\<rparr>\<rparr>, Ret (snd dr))"

definition mon_wrote :: "bme680_fifo_data \<Rightarrow> mon_state \<Rightarrow> bme680_monitor \<times> outcome \<Rightarrow> mon_state \<times> outcome" where
  "mon_wrote d s res =
     (s\<lparr>ms_mon := fst res, ms_written := ms_written s @ (if snd res = Ret 0 then [d] else [])\<rparr>, snd res)"

definition mon_got :: "mon_state \<Rightarrow> bme680_monitor \<times> outcome \<times> bme680_fifo_data option \<Rightarrow> mon_state \<times> outcome" where
  "mon_got s res =
     (s\<lparr>ms_mon := fst res, ms_read := ms_read s @ (case snd (snd res) of None \<Rightarrow> [] | Some d \<Rightarrow> [d])\<rparr>, fst (snd res))"

fun mon_enter :: "tid \<Rightarrow> mon_op \<Rightarrow> mon_state \<Rightarrow> mon_state \<times> outcome" where
  "mon_enter t (WriteStart d tmo) s =
     (if sensor_data_invalid d then (s, Ret (- EINVAL))
      else mon_set_dd s (deadlock_detector_lock tmo t (mon_dd (ms_mon s)) 0))"
| "mon_enter t (WriteBody d) s = mon_wrote d s (monitor_write_body d (ms_mon s))"
| "mon_enter t WriteEnd s = mon_set_dd s (deadlock_detector_unlock t (mon_dd (ms_mon s)) 0)"
| "mon_enter t (ReadStart tmo) s = mon_set_dd s (deadlock_detector_lock tmo t (mon_dd (ms_mon s)) 1)"
| "mon_enter t ReadBody s = mon_got s (monitor_read_body (ms_mon s))"
| "mon_enter t ReadEnd s = mon_set_dd s (deadlock_detector_unlock t (mon_dd (ms_mon s)) 1)"

fun mon_resume :: "tid \<Rightarrow> mon_op \<Rightarrow> int \<Rightarrow> mon_state \<Rightarrow> mon_state \<times> outcome" where
  "mon_resume t (WriteBody d) r s = mon_wrote d s (monitor_write_woken r d (ms_mon s))"
| "mon_resume t ReadBody r s = mon_got s (monitor_read_woken r (ms_mon s))"
| "mon_resume t op r s = (s, Block)"

fun mon_may :: "mon_loc \<Rightarrow> mon_op \<Rightarrow> bool" where
  "mon_may x (WriteStart d tmo) = (x = MIdle)"
| "mon_may x (WriteBody d) = (x = WLocked d)"
| "mon_may x WriteEnd = (case x of WDone r \<Rightarrow> True | _ \<Rightarrow> False)"
| "mon_may x (ReadStart tmo) = (x = MIdle)"
| "mon_may x ReadBody = (x = RLocked)"
| "mon_may x ReadEnd = (case x of RDone r \<Rightarrow> True | _ \<Rightarrow> False)"

fun mon_after :: "mon_loc \<Rightarrow> mon_op \<Rightarrow> int \<Rightarrow> mon_loc" where
  "mon_after x (WriteStart d tmo) r = (if r = 0 then WLocked d else MIdle)"
| "mon_after x (WriteBody d) r = WDone r"
| "mon_after x WriteEnd r = MIdle"
| "mon_after x (ReadStart tmo) r = (if r = 0 then RLocked else MIdle)"
| "mon_after x ReadBody r = RDone r"
| "mon_after x ReadEnd r = MIdle"

definition mon_comp :: "(mon_state, mon_loc, mon_op) comp" where
  "mon_comp = \<lparr>c_enter = mon_enter, c_resume = mon_resume, c_may = mon_may, c_after = mon_after\<rparr>"

lemma mon_comp_sel [simp]:
  "c_enter mon_comp = mon_enter" "c_resume mon_comp = mon_resume" "c_may mon_comp = mon_may" "c_after mon_comp = mon_after"
  by (simp_all add: mon_comp_def)

type_synonym mon_sys = "(mon_state, mon_loc, mon_op) sys"

definition mon_start :: "bme680_monitor \<Rightarrow> mon_sys" where
  "mon_start m = start \<lparr>ms_mon = m, ms_written = [], ms_read = []\<rparr> MIdle"

definition mon_state_inv :: "mon_state \<Rightarrow> bool" where
  "mon_state_inv s \<longleftrightarrow> ring_inv (ms_mon s) \<and> ms_written s = ms_read s @ ring_content (ms_mon s)
     \<and> (\<forall>d \<in> set (ms_written s). \<not> sensor_data_invalid d)"

definition mon_inv :: "mon_sys \<Rightarrow> bool" where
  "mon_inv \<sigma> \<longleftrightarrow> mon_state_inv (shared \<sigma>)
     \<and> (\<forall>t d. loc \<sigma> t = WLocked d \<or> blocked \<sigma> t = Some (WriteBody d) \<longrightarrow> \<not> sensor_data_invalid d)"

lemma ring_mon_dd [simp]:
  "ring_inv (m\<lparr>mon_dd := dd\<rparr>) = ring_inv m" "ring_content (m\<lparr>mon_dd := dd\<rparr>) = ring_content m"
  by (simp_all add: ring_inv_def ring_content_def)

lemma mon_state_inv_dd: "mon_state_inv s \<Longrightarrow> mon_state_inv (fst (mon_set_dd s dr))"
  by (simp add: mon_set_dd_def mon_state_inv_def)

lemma mon_state_inv_write:
  "\<lbrakk>mon_state_inv s; \<not> sensor_data_invalid d\<rbrakk> \<Longrightarrow> mon_state_inv (fst (mon_wrote d s (monitor_write_body d (ms_mon s))))"
  by (auto simp: mon_state_inv_def mon_wrote_def monitor_write_body_def ring_can_put_def
      ring.invar_put ring.content_put)

lemma mon_state_inv_read:
  assumes "mon_state_inv s"
  shows "mon_state_inv (fst (mon_got s (monitor_read_body (ms_mon s))))"
proof (cases "ring_can_get (ms_mon s)")
  case True
  then have "ring_inv (snd (ring_get (ms_mon s)))"
    "ring_content (ms_mon s) = fst (ring_get (ms_mon s)) # ring_content (snd (ring_get (ms_mon s)))"
    using assms ring.invar_get ring.content_get by (auto simp: mon_state_inv_def)
  then show ?thesis using assms True
    by (auto simp: mon_state_inv_def mon_got_def monitor_read_body_def ring_can_get_def split: prod.splits)
next
  case False
  then show ?thesis using assms
    by (auto simp: mon_state_inv_def mon_got_def monitor_read_body_def ring_can_get_def)
qed

lemma mon_state_inv_enter:
  "\<lbrakk>mon_state_inv s; \<And>d. op = WriteBody d \<Longrightarrow> \<not> sensor_data_invalid d\<rbrakk> \<Longrightarrow> mon_state_inv (fst (mon_enter t op s))"
  by (cases op) (auto simp: mon_state_inv_dd mon_state_inv_write mon_state_inv_read)

lemma mon_wrote_id [simp]: "r \<noteq> Ret 0 \<Longrightarrow> mon_wrote d s (ms_mon s, r) = (s, r)"
  by (simp add: mon_wrote_def)

lemma mon_got_id [simp]: "mon_got s (ms_mon s, r, None) = (s, r)"
  by (simp add: mon_got_def)

lemma mon_state_inv_resume:
  "\<lbrakk>mon_state_inv s; \<And>d. op = WriteBody d \<Longrightarrow> \<not> sensor_data_invalid d\<rbrakk> \<Longrightarrow> mon_state_inv (fst (mon_resume t op r s))"
  by (cases op) (auto simp: monitor_write_woken_def monitor_read_woken_def mon_state_inv_write mon_state_inv_read)

text \<open>Only the body sections sleep, and a thread enters the body of a write only with checked data.\<close>

lemma mon_inv_settle:
  assumes inv: "mon_inv \<sigma>" and s: "mon_state_inv s"
    and start: "\<And>d tmo. op = WriteStart d tmo \<Longrightarrow> out = Ret 0 \<Longrightarrow> \<not> sensor_data_invalid d"
    and body: "\<And>d. op = WriteBody d \<Longrightarrow> \<not> sensor_data_invalid d"
  shows "mon_inv (settle mon_comp t op (s, out) \<sigma>)"
  using assms by (cases op; cases out) (auto simp: mon_inv_def split: if_splits)

lemma mon_inv_call:
  assumes "mon_inv \<sigma>" "mon_may (loc \<sigma> t) op"
  shows "mon_inv (settle mon_comp t op (mon_enter t op (shared \<sigma>)) \<sigma>)"
proof -
  obtain s out where r: "mon_enter t op (shared \<sigma>) = (s, out)" by fastforce
  have body: "\<not> sensor_data_invalid d" if "op = WriteBody d" for d
    using assms that by (auto simp: mon_inv_def)
  have "mon_state_inv s"
    using mon_state_inv_enter [of "shared \<sigma>" op t] assms(1) body r by (auto simp: mon_inv_def)
  moreover have "\<not> sensor_data_invalid d" if "op = WriteStart d tmo" "out = Ret 0" for d tmo
    using r that by (auto split: if_splits)
  ultimately show ?thesis using assms(1) body by (simp add: r mon_inv_settle)
qed

lemma mon_inv_wake:
  assumes "mon_inv \<sigma>" "blocked \<sigma> t = Some op"
  shows "mon_inv (settle mon_comp t op (mon_resume t op w (shared \<sigma>)) \<sigma>)"
proof -
  obtain s out where r: "mon_resume t op w (shared \<sigma>) = (s, out)" by fastforce
  have body: "\<not> sensor_data_invalid d" if "op = WriteBody d" for d
    using assms that by (auto simp: mon_inv_def)
  have "mon_state_inv s"
    using mon_state_inv_resume [of "shared \<sigma>" op t w] assms(1) body r by (auto simp: mon_inv_def)
  moreover have "\<not> sensor_data_invalid d" if "op = WriteStart d tmo" "out = Ret 0" for d tmo
    using r that by auto
  ultimately show ?thesis using assms(1) body by (simp add: r mon_inv_settle)
qed

interpretation mon: thread_invariant mon_comp T "mon_start m"
    "\<lambda>\<sigma>. ring_inv m \<and> mon_count m = 0 \<longrightarrow> mon_inv \<sigma>" for T m
proof (unfold_locales, goal_cases)
  case 1 show ?case by (simp add: mon_start_def mon_inv_def mon_state_inv_def ring_content_def)
qed (auto simp: mon_inv_call mon_inv_wake)

section \<open>Properties\<close>

definition monitor_of_size :: "bme680_fifo_data list \<Rightarrow> rwlock \<Rightarrow> deadlock_detector \<Rightarrow> bme680_monitor" where
  "monitor_of_size raw rw dd = \<lparr>mon_data = raw, mon_head = 0, mon_tail = 0, mon_size = int (length raw), mon_count = 0,
     mon_rwlock = rw, mon_dd = dd\<rparr>"

lemma monitor_init_ring:
  assumes "bme680_monitor_init True True raw rw dd sz = Inr m" "int (length raw) = sz" "0 < sz" "sz \<le> INT_MAX"
  shows "ring_inv m \<and> mon_count m = 0 \<and> ring_content m = []"
  using assms by (auto simp: bme680_monitor_init_def ring_inv_def ring_content_def)

text \<open>
  C2: the monitor is a first-in first-out channel for every interleaving.  Start from a
  successful \<open>bme680_monitor_init\<close>, let any threads write and read with any timeouts, spurious
  wake-ups, refusals of the deadlock detector and any state of the inner read-write lock: the
  records accepted so far are exactly the records delivered so far followed by the buffered
  ones, in order, nothing is lost or duplicated, the buffer never holds more than \<open>size\<close>
  records, and every delivered record passed the plausibility check.
\<close>

theorem monitor_fifo_channel:
  assumes "bme680_monitor_init True True raw rw dd sz = Inr m" "int (length raw) = sz" "0 < sz" "sz \<le> INT_MAX"
    and "reaches mon_comp T (mon_start m) \<sigma>"
  shows "ms_written (shared \<sigma>) = ms_read (shared \<sigma>) @ ring_content (ms_mon (shared \<sigma>))
    \<and> int (length (ring_content (ms_mon (shared \<sigma>)))) \<le> mon_size (ms_mon (shared \<sigma>))
    \<and> (\<forall>d \<in> set (ms_read (shared \<sigma>)). \<not> sensor_data_invalid d)"
proof -
  have "mon_inv \<sigma>" using mon.inv_reaches [OF assms(5)] monitor_init_ring [OF assms(1-4)] by blast
  then show ?thesis by (auto simp: mon_inv_def mon_state_inv_def ring_inv_def ring_content_def)
qed

definition mon_empty2 :: bme680_monitor where
  "mon_empty2 = \<lparr>mon_data = [room_air, room_air], mon_head = 0, mon_tail = 0, mon_size = 2, mon_count = 0,
     mon_rwlock = rwlock_new, mon_dd = deadlock_detector_new 2\<rparr>"

lemma mon_empty2_init:
  "bme680_monitor_init True True [room_air, room_air] rwlock_new (deadlock_detector_new 2) 2 = Inr mon_empty2"
  by (simp add: bme680_monitor_init_def mon_empty2_def)

lemma mon_empty2_facts: "ring_inv mon_empty2" "mon_count mon_empty2 = 0"
  using monitor_init_ring [OF mon_empty2_init] by simp_all

lemma mon_run1_ex:
  "\<exists>\<sigma>. run mon_comp {1} [Call 1 (WriteStart room_air 0), Call 1 (WriteBody room_air)] (mon_start mon_empty2) = Some \<sigma>
     \<and> ms_written (shared \<sigma>) = [room_air]"
  by (simp add: mon_start_def mon_set_dd_def mon_wrote_def monitor_write_body_def mon_empty2_def deadlock_detector_lock_def
      deadlock_detector_new_def potential_deadlock_def held_by_other_def free_lock_def upt_rec numeral_2_eq_2)

theorem monitor_fifo_channel_witness:
  "\<exists>\<sigma>. reaches mon_comp {1} (mon_start mon_empty2) \<sigma> \<and> ms_written (shared \<sigma>) = [room_air]
     \<and> [room_air] = ms_read (shared \<sigma>) @ ring_content (ms_mon (shared \<sigma>))"
proof -
  obtain \<sigma> where "reaches mon_comp {1} (mon_start mon_empty2) \<sigma>" "ms_written (shared \<sigma>) = [room_air]"
    using mon_run1_ex run_reaches [OF _ reach_refl] by blast
  with monitor_fifo_channel [OF mon_empty2_init _ _ _ this(1)] show ?thesis by auto
qed

lemma ring_content_length: "ring_inv m \<Longrightarrow> int (length (ring_content m)) = mon_count m"
  by (simp add: ring_inv_def ring_content_def)

lemma ring_monitor_finish [simp]:
  "ring_inv (monitor_finish t k m) = ring_inv m" "ring_content (monitor_finish t k m) = ring_content m"
  by (simp_all add: monitor_finish_def)

lemma monitor_detector_passes:
  assumes "dd_num_mutexes dd = 2" "\<not> potential_deadlock dd t" "k \<in> {0, 1}"
  shows "snd (deadlock_detector_lock 0 t dd k) = 0"
  using assms by (auto simp: deadlock_detector_lock_def)

lemma monitor_write_full:
  assumes "ring_inv m" "dd_wf (mon_dd m)" "dd_num_mutexes (mon_dd m) = 2" "\<not> potential_deadlock (mon_dd m) t"
    "\<not> sensor_data_invalid d" "mon_count m = mon_size m"
  shows "\<exists>m'. bme680_monitor_write 0 t m d = (m', Block) \<and> ring_inv m' \<and> ring_content m' = ring_content m"
  using assms monitor_detector_passes [OF assms(3,4), of 0]
  by (auto simp: bme680_monitor_write_def monitor_write_body_def split: prod.splits)

lemma monitor_write_room:
  assumes "ring_inv m" "dd_wf (mon_dd m)" "dd_num_mutexes (mon_dd m) = 2" "\<not> potential_deadlock (mon_dd m) t"
    "\<not> sensor_data_invalid d" "mon_count m \<noteq> mon_size m"
  shows "\<exists>m'. bme680_monitor_write 0 t m d = (m', Ret 0) \<and> ring_inv m' \<and> ring_content m' = ring_content m @ [d]"
proof -
  obtain dd' where dd': "deadlock_detector_lock 0 t (mon_dd m) 0 = (dd', 0)"
    using monitor_detector_passes [OF assms(3,4), of 0] by (metis insertI1 prod.collapse)
  let ?m = "m\<lparr>mon_dd := dd'\<rparr>"
  have "ring_inv ?m" "ring_can_put ?m" using assms by (simp_all add: ring_can_put_def)
  moreover have "monitor_write_body d ?m = (ring_put d ?m, Ret 0)"
    using assms(1,6) by (auto simp: monitor_write_body_def ring_inv_def)
  ultimately show ?thesis using assms(5) dd'
    by (simp add: bme680_monitor_write_def ring.invar_put ring.content_put)
qed

lemma monitor_read_empty:
  assumes "ring_inv m" "dd_wf (mon_dd m)" "dd_num_mutexes (mon_dd m) = 2" "\<not> potential_deadlock (mon_dd m) t"
    "ring_content m = []"
  shows "\<exists>m'. bme680_monitor_read 0 t m = (m', Block, None) \<and> ring_inv m' \<and> ring_content m' = []"
  using assms monitor_detector_passes [OF assms(3,4), of 1] ring_content_length [OF assms(1)]
  by (auto simp: bme680_monitor_read_def monitor_read_body_def split: prod.splits)

lemma monitor_read_some:
  assumes "ring_inv m" "dd_wf (mon_dd m)" "dd_num_mutexes (mon_dd m) = 2" "\<not> potential_deadlock (mon_dd m) t"
    "ring_content m = x # xs"
  shows "\<exists>m'. bme680_monitor_read 0 t m = (m', Ret 0, Some x) \<and> ring_inv m' \<and> ring_content m' = xs"
proof -
  obtain dd' where dd': "deadlock_detector_lock 0 t (mon_dd m) 1 = (dd', 0)"
    using monitor_detector_passes [OF assms(3,4), of 1] by (metis insertI1 insertI2 prod.collapse)
  let ?m = "m\<lparr>mon_dd := dd'\<rparr>"
  obtain y m2 where g: "ring_get ?m = (y, m2)" by fastforce
  have cnt: "0 < mon_count m" "mon_count m \<le> mon_size m"
    using ring_content_length [OF assms(1)] assms(1,5) by (auto simp: ring_inv_def)
  then have "ring_inv ?m" "ring_can_get ?m" using assms(1) by (simp_all add: ring_can_get_def)
  then have "ring_inv m2" "x # xs = y # ring_content m2"
    using ring.invar_get [of ?m] ring.content_get [of ?m] g assms(5) by auto
  moreover have "monitor_read_body ?m = (m2, Ret 0, Some y)"
    using cnt g by (simp add: monitor_read_body_def)
  ultimately show ?thesis using dd' by (simp add: bme680_monitor_read_def)
qed

lemma monitor_write_ring:
  "ring_inv m \<Longrightarrow> ring_inv (fst (bme680_monitor_write tlk t m d))"
  by (auto simp: bme680_monitor_write_def monitor_write_body_def ring_inv_put ring_can_put_def split: prod.splits outcome.splits if_splits)

lemma monitor_read_ring:
  assumes "ring_inv m"
  shows "ring_inv (fst (bme680_monitor_read tlk t m))"
proof -
  obtain dd r where dd: "deadlock_detector_lock tlk t (mon_dd m) 1 = (dd, r)" by fastforce
  have "ring_can_get (m\<lparr>mon_dd := dd\<rparr>) \<longrightarrow> ring_inv (snd (ring_get (m\<lparr>mon_dd := dd\<rparr>)))"
    using assms ring_inv_get [of "m\<lparr>mon_dd := dd\<rparr>"] by simp
  with assms dd show ?thesis
    by (auto simp: bme680_monitor_read_def monitor_read_body_def ring_can_get_def split: prod.splits outcome.splits if_splits)
qed

text \<open>A call that had to wait and timed out changes nothing but the detector's table.\<close>

lemma monitor_ended_ring:
  assumes "ring_inv m"
  shows "ring_inv (fst (monitor_write_ended tlk t m d))" "ring_inv (fst (monitor_read_ended tlk t m))"
  using monitor_write_ring [OF assms, of tlk t d] monitor_read_ring [OF assms, of tlk t]
  by (auto simp: monitor_write_ended_def monitor_read_ended_def monitor_write_woken_def monitor_read_woken_def split: prod.splits outcome.splits)

lemma monitor_write_times_out:
  "bme680_monitor_write tlk t m d = (m', Block) \<Longrightarrow> monitor_write_ended tlk t m d = (monitor_finish t 0 m', - ETIMEDOUT)"
  by (simp add: monitor_write_ended_def monitor_write_woken_def)

lemma monitor_read_times_out:
  "bme680_monitor_read tlk t m = (m', Block, d) \<Longrightarrow> monitor_read_ended tlk t m = (monitor_finish t 1 m', - ETIMEDOUT, None)"
  by (simp add: monitor_read_ended_def monitor_read_woken_def)

text \<open>
  Destroying a monitor has no defined result: no allocation begins inside the struct, and the monitor
  of \<open>1.c\<close> is a static variable, which was not allocated at all.
\<close>

lemma monitor_destroy_undefined:
  "\<not> me_freeable M (m + me_rwlock_at M) \<Longrightarrow> bme680_monitor_destroy M h m = None"
  "\<not> me_freeable M m \<Longrightarrow> bme680_monitor_destroy M h m = None"
  by (simp_all add: bme680_monitor_destroy_def)

text \<open>
  C3: the ring buffer implements a bounded list queue.  For a valid record, a table of the
  detector without entries of the caller and an available detector mutex: a write to a full
  ring sleeps and changes no data; a write to a ring with room returns 0 and appends the
  record; a read of an empty ring sleeps; a read of a non-empty ring returns 0, delivers the
  oldest record and removes it.  The invariant is kept in each case.
\<close>

theorem monitor_refines_bounded_queue:
  assumes "ring_inv m" "dd_wf (mon_dd m)" "dd_num_mutexes (mon_dd m) = 2" "\<not> potential_deadlock (mon_dd m) t"
    and "\<not> sensor_data_invalid d"
  shows "(case bme680_monitor_write 0 t m d of (m', out) \<Rightarrow> ring_inv m' \<and>
            (if int (length (ring_content m)) = mon_size m
             then out = Block \<and> ring_content m' = ring_content m
             else out = Ret 0 \<and> ring_content m' = ring_content m @ [d]))
       \<and> (case bme680_monitor_read 0 t m of (m', out, res) \<Rightarrow> ring_inv m' \<and>
            (case ring_content m of
               [] \<Rightarrow> out = Block \<and> res = None \<and> ring_content m' = []
             | x # xs \<Rightarrow> out = Ret 0 \<and> res = Some x \<and> ring_content m' = xs))"
proof (rule conjI)
  show "case bme680_monitor_write 0 t m d of (m', out) \<Rightarrow> ring_inv m' \<and>
      (if int (length (ring_content m)) = mon_size m then out = Block \<and> ring_content m' = ring_content m
       else out = Ret 0 \<and> ring_content m' = ring_content m @ [d])"
    using monitor_write_full [OF assms(1,2,3,4,5)] monitor_write_room [OF assms(1,2,3,4,5)]
    by (auto simp: ring_content_length [OF assms(1)] split: prod.splits)
  show "case bme680_monitor_read 0 t m of (m', out, res) \<Rightarrow> ring_inv m' \<and>
      (case ring_content m of
         [] \<Rightarrow> out = Block \<and> res = None \<and> ring_content m' = []
       | x # xs \<Rightarrow> out = Ret 0 \<and> res = Some x \<and> ring_content m' = xs)"
    using monitor_read_empty [OF assms(1-4)] monitor_read_some [OF assms(1-4)]
    by (cases "ring_content m") (auto split: prod.splits)
qed

theorem monitor_refines_bounded_queue_witness:
  "fst (snd (bme680_monitor_read 0 1 mon_empty2)) = Block \<and> snd (bme680_monitor_write 0 1 mon_empty2 room_air) = Ret 0
   \<and> ring_content (fst (bme680_monitor_write 0 1 mon_empty2 room_air)) = [room_air]"
proof -
  have "dd_wf (mon_dd mon_empty2)" "dd_num_mutexes (mon_dd mon_empty2) = 2" "\<not> potential_deadlock (mon_dd mon_empty2) 1"
    by (simp_all add: mon_empty2_def dd_wf_new)
      (simp_all add: deadlock_detector_new_def potential_deadlock_def held_by_other_def free_lock_def upt_rec numeral_2_eq_2)
  moreover have "ring_content mon_empty2 = []" "mon_size mon_empty2 = 2" by (simp_all add: mon_empty2_def ring_content_def)
  ultimately show ?thesis
    using monitor_refines_bounded_queue [OF mon_empty2_facts(1), of 1 room_air] by (auto split: prod.splits)
qed

text \<open>
  Implausible data never reaches the buffer.  A record outside -40..85 degrees,
  30000..110000 Pa or 0..100 percent is refused with \<open>-EINVAL\<close> before any lock is taken,
  and the monitor is left exactly as it was; a record inside these ranges is never refused
  for its data.
\<close>

theorem monitor_rejects_implausible:
  "(\<not> (- 40 \<le> fd_temp d \<and> fd_temp d \<le> 85 \<and> 30000 \<le> uint (fd_pressure d) \<and> uint (fd_pressure d) \<le> 110000
        \<and> uint (fd_humidity d) \<le> 100) \<longrightarrow> bme680_monitor_write r t m d = (m, Ret (- EINVAL)))
   \<and> (ring_inv m \<and> bme680_monitor_write r t m d = (m', Ret (- EINVAL)) \<longrightarrow>
        \<not> (- 40 \<le> fd_temp d \<and> fd_temp d \<le> 85 \<and> 30000 \<le> uint (fd_pressure d) \<and> uint (fd_pressure d) \<le> 110000
        \<and> uint (fd_humidity d) \<le> 100))"
  unfolding sensor_data_valid_ranges [symmetric]
  by (auto simp: bme680_monitor_write_def monitor_write_body_def ring_inv_def split: prod.splits if_splits)

theorem monitor_rejects_implausible_witness:
  "bme680_monitor_write 0 1 mon_empty2 (room_air\<lparr>fd_temp := -100\<rparr>) = (mon_empty2, Ret (- EINVAL))"
  using monitor_rejects_implausible [of "room_air\<lparr>fd_temp := -100\<rparr>" 0 1 mon_empty2] by simp

end
