(* ===== verification/Barrier.thy ===== *)
theory Barrier
  imports Prelude
begin

text \<open>
  \<open>barrier.c\<close>: \<open>barrier_wait\<close> counts arrivals and sleeps with a plain \<open>pthread_cond_wait\<close>
  that is not inside a loop, so here the condition variable itself is part of the model: a
  sleeping thread leaves either because the broadcast of the last arrival woke it, or, where
  the platform wakes threads spuriously as POSIX permits, by itself.
\<close>

record barrier =
  bar_count :: int
  bar_total :: int

definition barrier_init :: "bool \<Rightarrow> int \<Rightarrow> int + barrier" where
  "barrier_init alloc n =
     (if n \<le> 0 then Inl (- EINVAL)
      else if \<not> alloc then Inl (- ENOMEM)
      else Inr \<lparr>bar_count = 0, bar_total = n\<rparr>)"

definition barrier_destroy :: "(addr \<rightharpoonup> barrier) \<Rightarrow> addr option \<Rightarrow> (addr \<rightharpoonup> barrier)" where
  "barrier_destroy h b = (case b of None \<Rightarrow> h | Some a \<Rightarrow> h(a := None))"

text \<open>The section of \<open>barrier_wait\<close> up to the wait or the return; it broadcasts exactly when it returns.\<close>

definition barrier_arrive :: "barrier \<Rightarrow> barrier \<times> outcome" where
  "barrier_arrive b =
     (let b' = b\<lparr>bar_count := wrap32 (bar_count b + 1)\<rparr> in
      if bar_count b' < bar_total b' then (b', Block) else (b'\<lparr>bar_count := 0\<rparr>, Ret 0))"

definition barrier_wait :: "barrier option \<Rightarrow> barrier option \<times> outcome" where
  "barrier_wait b = (case b of
      None \<Rightarrow> (None, Ret (- EINVAL))
    | Some b \<Rightarrow> (case barrier_arrive b of (b', out) \<Rightarrow> (Some b', out)))"

section \<open>Threads at the barrier\<close>

datatype bar_loc = Outside | Asleep | Woken

record bar_sys =
  bs_bar :: barrier
  bs_loc :: "tid \<Rightarrow> bar_loc"
  bs_arrived :: int
  bs_passed :: int
  bs_early :: int

definition wake_all :: "(tid \<Rightarrow> bar_loc) \<Rightarrow> tid \<Rightarrow> bar_loc" where
  "wake_all f t = (if f t = Asleep then Woken else f t)"

text \<open>
  The flag says whether the platform wakes threads spuriously.  \<open>bs_arrived\<close>, \<open>bs_passed\<close> and
  \<open>bs_early\<close> are counters of the proof: the arrivals, the threads that have left \<open>barrier_wait\<close>,
  and the spurious wake-ups since the barrier opened last.
\<close>

inductive bar_step :: "bool \<Rightarrow> tid set \<Rightarrow> bar_sys \<Rightarrow> bar_sys \<Rightarrow> bool" for spurious T where
  sleep: "\<lbrakk>t \<in> T; bs_loc s t = Outside; barrier_arrive (bs_bar s) = (b, Block)\<rbrakk>
    \<Longrightarrow> bar_step spurious T s (s\<lparr>bs_bar := b, bs_loc := (bs_loc s)(t := Asleep), bs_arrived := bs_arrived s + 1\<rparr>)"
| release: "\<lbrakk>t \<in> T; bs_loc s t = Outside; barrier_arrive (bs_bar s) = (b, Ret r)\<rbrakk>
    \<Longrightarrow> bar_step spurious T s (s\<lparr>bs_bar := b, bs_loc := wake_all (bs_loc s), bs_arrived := bs_arrived s + 1,
          bs_passed := bs_passed s + 1, bs_early := 0\<rparr>)"
| leave: "\<lbrakk>t \<in> T; bs_loc s t = Woken\<rbrakk>
    \<Longrightarrow> bar_step spurious T s (s\<lparr>bs_loc := (bs_loc s)(t := Outside), bs_passed := bs_passed s + 1\<rparr>)"
| spurious_wake: "\<lbrakk>spurious; t \<in> T; bs_loc s t = Asleep\<rbrakk>
    \<Longrightarrow> bar_step spurious T s (s\<lparr>bs_loc := (bs_loc s)(t := Outside), bs_passed := bs_passed s + 1, bs_early := bs_early s + 1\<rparr>)"

inductive bar_reach :: "bool \<Rightarrow> tid set \<Rightarrow> bar_sys \<Rightarrow> bar_sys \<Rightarrow> bool" for spurious T s0 where
  bar_refl: "bar_reach spurious T s0 s0"
| bar_trans: "\<lbrakk>bar_reach spurious T s0 s; bar_step spurious T s s'\<rbrakk> \<Longrightarrow> bar_reach spurious T s0 s'"

definition bar_start :: "barrier \<Rightarrow> bar_sys" where
  "bar_start b = \<lparr>bs_bar = b, bs_loc = (\<lambda>_. Outside), bs_arrived = 0, bs_passed = 0, bs_early = 0\<rparr>"

definition bar_num :: "tid set \<Rightarrow> bar_loc \<Rightarrow> (tid \<Rightarrow> bar_loc) \<Rightarrow> int" where
  "bar_num T l f = tcount T (\<lambda>t. f t = l)"

definition bar_inv :: "bool \<Rightarrow> tid set \<Rightarrow> int \<Rightarrow> bar_sys \<Rightarrow> bool" where
  "bar_inv spurious T n s \<longleftrightarrow> bar_total (bs_bar s) = n \<and> bar_count (bs_bar s) = bar_num T Asleep (bs_loc s) + bs_early s
     \<and> bar_count (bs_bar s) < n \<and> 0 \<le> bs_early s \<and> (\<not> spurious \<longrightarrow> bs_early s = 0)
     \<and> (\<exists>rounds. bs_arrived s = n * rounds + bar_count (bs_bar s) \<and> bs_passed s + bar_num T Woken (bs_loc s) = n * rounds + bs_early s)"

lemma bar_num_upd:
  assumes "finite T" "t \<in> T"
  shows "bar_num T l (f(t := x)) = bar_num T l f + of_bool (x = l) - of_bool (f t = l)"
  using tcount_fun_upd [OF assms, of "\<lambda>y. y = l" f x] by (simp add: bar_num_def del: fun_upd_apply)

lemma bar_num_wake_all:
  assumes "finite T"
  shows "bar_num T Asleep (wake_all f) = 0" "bar_num T Woken (wake_all f) = bar_num T Woken f + bar_num T Asleep f"
proof -
  have none: "wake_all f t \<noteq> Asleep" for t by (simp add: wake_all_def)
  show "bar_num T Asleep (wake_all f) = 0" by (simp add: bar_num_def none)
  have "{t \<in> T. wake_all f t = Woken} = {t \<in> T. f t = Woken} \<union> {t \<in> T. f t = Asleep}"
    by (auto simp: wake_all_def split: if_splits)
  then show "bar_num T Woken (wake_all f) = bar_num T Woken f + bar_num T Asleep f"
    using assms by (simp add: bar_num_def tcount_def card_Un_disjoint disjoint_iff)
qed

lemma bar_num_nonneg: "0 \<le> bar_num T l f"
  by (simp add: bar_num_def)

lemma bar_inv_rounds:
  assumes "bar_inv spurious T n s"
  obtains rounds where "bs_arrived s = n * rounds + bar_count (bs_bar s)" "bs_passed s + bar_num T Woken (bs_loc s) = n * rounds + bs_early s"
  using assms unfolding bar_inv_def by blast

lemma bar_inv_step:
  assumes "bar_step spurious T s s'" "finite T" "0 < n" "n \<le> INT_MAX" "bar_inv spurious T n s"
  shows "bar_inv spurious T n s'"
  using assms(1)
proof cases
  case (sleep t b)
  then show ?thesis using assms bar_num_nonneg [of T Asleep "bs_loc s"]
    by (auto simp: bar_inv_def barrier_arrive_def Let_def bar_num_upd split: if_splits simp del: fun_upd_apply)
next
  case (release t b r)
  then have full: "bar_count (bs_bar s) = n - 1" and b: "b = (bs_bar s)\<lparr>bar_count := 0\<rparr>"
    using assms bar_num_nonneg [of T Asleep "bs_loc s"] by (auto simp: bar_inv_def barrier_arrive_def Let_def split: if_splits)
  obtain rounds where "bs_arrived s = n * rounds + (n - 1)" "bs_passed s + bar_num T Woken (bs_loc s) = n * rounds + bs_early s"
    using bar_inv_rounds [OF assms(5)] full by metis
  moreover have "bar_num T Asleep (bs_loc s) + bs_early s = n - 1" using assms(5) full by (simp add: bar_inv_def)
  ultimately have "bs_arrived s + 1 = n * (rounds + 1)"
    "bs_passed s + 1 + (bar_num T Woken (bs_loc s) + bar_num T Asleep (bs_loc s)) = n * (rounds + 1)"
    by (simp_all add: algebra_simps)
  then show ?thesis using assms release b
    by (auto simp: bar_inv_def bar_num_wake_all simp del: fun_upd_apply intro!: exI [of _ "rounds + 1"])
next
  case (leave t)
  then show ?thesis using assms by (auto simp: bar_inv_def bar_num_upd simp del: fun_upd_apply)
next
  case (spurious_wake t)
  then show ?thesis using assms by (auto simp: bar_inv_def bar_num_upd simp del: fun_upd_apply)
qed

lemma bar_inv_reach:
  assumes "bar_reach spurious T (bar_start \<lparr>bar_count = 0, bar_total = n\<rparr>) s" "finite T" "0 < n" "n \<le> INT_MAX"
  shows "bar_inv spurious T n s"
  using assms(1)
proof induction
  case bar_refl
  show ?case using assms(3) by (simp add: bar_inv_def bar_start_def bar_num_def)
next
  case (bar_trans s s')
  with assms show ?case by (blast intro: bar_inv_step)
qed

section \<open>Properties\<close>

text \<open>
  C17: what passes the barrier, spurious wake-ups counted.  \<open>barrier_wait\<close> does not test anything
  after its wait, so a thread the condition variable wakes spuriously is let through.  After any
  interleaving of any finite set of threads at a barrier of size n, on a platform with or
  without such wake-ups, the threads past it plus those already woken by a broadcast number n
  times the complete groups of n arrivals, plus the spurious wake-ups of the group not
  complete yet, and those and the sleeping threads are all arrivals of that group.  So nobody
  passes before n threads arrived, except by a spurious wake-up; where there is none the
  barrier is exact.
\<close>

theorem barrier_no_early_release:
  assumes "barrier_init True n = Inr b" "n \<le> INT_MAX" "finite T" "bar_reach spurious T (bar_start b) s"
  shows "bs_passed s + bar_num T Woken (bs_loc s) = n * (bs_arrived s div n) + bs_early s
    \<and> bs_passed s \<le> n * (bs_arrived s div n) + bs_early s
    \<and> bar_num T Asleep (bs_loc s) + bs_early s = bs_arrived s mod n
    \<and> 0 \<le> bs_early s \<and> (\<not> spurious \<longrightarrow> bs_early s = 0)"
proof -
  have n: "0 < n" "b = \<lparr>bar_count = 0, bar_total = n\<rparr>" using assms(1) by (auto simp: barrier_init_def split: if_splits)
  then have inv: "bar_inv spurious T n s" using bar_inv_reach assms by blast
  obtain rounds where r: "bs_arrived s = n * rounds + bar_count (bs_bar s)" "bs_passed s + bar_num T Woken (bs_loc s) = n * rounds + bs_early s"
    by (rule bar_inv_rounds [OF inv])
  have lt: "0 \<le> bar_count (bs_bar s)" "bar_count (bs_bar s) < n"
    using inv bar_num_nonneg [of T Asleep "bs_loc s"] by (auto simp: bar_inv_def)
  then have "bs_arrived s div n = rounds" "bs_arrived s mod n = bar_count (bs_bar s)" using r(1) by simp_all
  then show ?thesis using r(2) bar_num_nonneg [of T Woken "bs_loc s"] inv by (simp add: bar_inv_def)
qed

text \<open>A state used by the witnesses: one thread has arrived at a barrier of size n and sleeps.\<close>

definition bar_one :: "int \<Rightarrow> bar_sys" where
  "bar_one n = \<lparr>bs_bar = \<lparr>bar_count = 1, bar_total = n\<rparr>, bs_loc = (\<lambda>_. Outside)(1 := Asleep), bs_arrived = 1, bs_passed = 0, bs_early = 0\<rparr>"

lemma bar_one_reached:
  assumes "1 < n" "1 \<in> T"
  shows "bar_reach sp T (bar_start \<lparr>bar_count = 0, bar_total = n\<rparr>) (bar_one n)"
proof -
  have "barrier_arrive \<lparr>bar_count = 0, bar_total = n\<rparr> = (\<lparr>bar_count = 1, bar_total = n\<rparr>, Block)"
    using assms(1) by (simp add: barrier_arrive_def)
  then have "bar_step sp T (bar_start \<lparr>bar_count = 0, bar_total = n\<rparr>) (bar_one n)"
    using bar_step.sleep [OF assms(2), of "bar_start \<lparr>bar_count = 0, bar_total = n\<rparr>"] by (simp add: bar_start_def bar_one_def)
  then show ?thesis by (blast intro: bar_reach.intros)
qed

text \<open>The same thread after a spurious wake-up: it is past the barrier.\<close>

definition bar_woken :: "int \<Rightarrow> bar_sys" where
  "bar_woken n = (bar_one n)\<lparr>bs_loc := \<lambda>_. Outside, bs_passed := 1, bs_early := 1\<rparr>"

lemma bar_woken_reached:
  assumes "1 < n" "1 \<in> T"
  shows "bar_reach True T (bar_start \<lparr>bar_count = 0, bar_total = n\<rparr>) (bar_woken n)"
proof -
  have "bar_step True T (bar_one n) (bar_woken n)"
    using bar_step.spurious_wake [of True 1 T "bar_one n"] assms(2) by (simp add: bar_one_def bar_woken_def fun_upd_idem)
  with bar_one_reached [OF assms] show ?thesis by (blast intro: bar_reach.intros)
qed

theorem barrier_no_early_release_witness:
  "bs_passed (bar_woken 3) + bar_num {1, 2, 3} Woken (bs_loc (bar_woken 3)) = 3 * (bs_arrived (bar_woken 3) div 3) + bs_early (bar_woken 3)
   \<and> bar_num {1, 2, 3} Asleep (bs_loc (bar_woken 3)) + bs_early (bar_woken 3) = 1"
  using barrier_no_early_release [of 3 _ "{1, 2, 3}", OF _ _ _ bar_woken_reached] by (simp add: barrier_init_def bar_one_def bar_woken_def)

text \<open>
  With fewer users than its size a barrier never opens.  If the threads that use the
  barrier are fewer than its total, no thread ever passes it; every thread that arrives
  sleeps for good.
\<close>

theorem barrier_starves:
  assumes "barrier_init True n = Inr b" "n \<le> INT_MAX" "finite T" "int (card T) < n" "bar_reach False T (bar_start b) s"
  shows "bs_passed s = 0"
  using assms(5)
proof induction
  case bar_refl
  show ?case by (simp add: bar_start_def)
next
  case (bar_trans s s')
  have n: "0 < n" "b = \<lparr>bar_count = 0, bar_total = n\<rparr>" using assms(1) by (auto simp: barrier_init_def split: if_splits)
  then have inv: "bar_inv False T n s" using bar_inv_reach assms bar_trans by blast
  have zero: "bar_num T Woken (bs_loc s) = 0"
  proof -
    obtain k where k: "bar_num T Woken (bs_loc s) = n * k" using bar_inv_rounds [OF inv] inv bar_trans.IH by (metis add.right_neutral add.left_neutral bar_inv_def)
    have "bar_num T Woken (bs_loc s) < n" using assms(4) tcount_le_card [OF assms(3), of "\<lambda>t. bs_loc s t = Woken"] by (simp add: bar_num_def)
    then have "n * k < n * 1" using k by simp
    then have "k < 1" using n by (simp add: mult_less_cancel_left)
    moreover have "0 \<le> n * k" using k bar_num_nonneg [of T Woken "bs_loc s"] by simp
    ultimately show ?thesis using n k by (simp add: zero_le_mult_iff)
  qed
  from bar_trans.hyps(2) show ?case
  proof cases
    case (release t b' r)
    then have "bar_num T Asleep (bs_loc s) = n - 1"
      using inv bar_num_nonneg [of T Asleep "bs_loc s"] assms(2) by (auto simp: bar_inv_def barrier_arrive_def Let_def split: if_splits)
    moreover have "bar_num T Asleep (bs_loc s) < int (card T)"
    proof -
      have "t \<in> T" "t \<notin> {u \<in> T. bs_loc s u = Asleep}" using release by auto
      then have "{u \<in> T. bs_loc s u = Asleep} \<subset> T" by blast
      then show ?thesis using psubset_card_mono [OF assms(3)] by (simp add: bar_num_def tcount_def)
    qed
    ultimately show ?thesis using assms(4) by simp
  next
    case (leave t)
    then show ?thesis using zero assms(3) by (auto simp: bar_num_def tcount_zero_iff)
  qed (use bar_trans.IH in auto)
qed

theorem barrier_starves_witness:
  "bs_arrived (bar_one 5) = 1 \<and> bs_passed (bar_one 5) = 0"
  using barrier_starves [of 5 _ "{1, 2, 3, 4}", OF _ _ _ _ bar_one_reached] by (simp add: barrier_init_def bar_one_def)

text \<open>
  The missing loop.  Where threads may wake spuriously, a barrier of size two lets a
  thread through although only one has arrived, because \<open>barrier_wait\<close> does not test anything
  after its wait.
\<close>

theorem barrier_spurious_release:
  "\<exists>s. bar_reach True {1, 2} (bar_start \<lparr>bar_count = 0, bar_total = 2\<rparr>) s \<and> bs_arrived s = 1 \<and> bs_passed s = 1"
  using bar_woken_reached [of 2 "{1, 2}"] by (intro exI [of _ "bar_woken 2"]) (simp add: bar_woken_def bar_one_def)

end
