(* ===== verification/Thread_Pool.thy ===== *)
theory Thread_Pool
  imports Fifo_Queue Barrier
begin

text \<open>
  \<open>thread_pool.c\<close>: a linked list of tasks and the workers that take them.  The heap maps live
  addresses to task nodes; an operation that would follow a dead pointer has no result
  (\<open>None\<close>).  Functions are numbered, \<open>None\<close> is the NULL function pointer.
\<close>

record task =
  tk_func :: "nat option"
  tk_arg :: nat
  tk_next :: "addr option"

record thread_pool =
  tp_num_threads :: int
  tp_heap :: "addr \<rightharpoonup> task"
  tp_head :: "addr option"
  tp_tail :: "addr option"
  tp_barrier :: barrier
  tp_shutdown :: int

text \<open>
  \<open>thread_pool_init\<close>: results of \<open>malloc\<close> and of each \<open>pthread_create\<close> are inputs.  The
  barrier is made for one more than the number of workers, and the result of
  \<open>barrier_init\<close> is ignored (\<open>raw\<close> is what the pointer refers to when it fails).  After a failed
  creation the code calls \<open>thread_pool_destroy\<close>, which joins threads that were never created; the
  error -1 is its result where that call returns.
\<close>

definition thread_pool_init ::
  "bool \<Rightarrow> bool \<Rightarrow> bool \<Rightarrow> barrier \<Rightarrow> (nat \<Rightarrow> int) \<Rightarrow> int \<Rightarrow> int + thread_pool" where
  "thread_pool_init alloc_tp alloc_threads alloc_barrier raw pthread_create num_threads =
     (if \<not> alloc_tp then Inl (- ENOMEM)
      else if \<not> alloc_threads then Inl (- ENOMEM)
      else if list_ex (\<lambda>i. pthread_create i \<noteq> 0) [0..<nat num_threads] then Inl (- 1)
      else Inr \<lparr>tp_num_threads = num_threads, tp_heap = Map.empty, tp_head = None, tp_tail = None,
               tp_barrier = (case barrier_init alloc_barrier (num_threads + 1) of Inl e \<Rightarrow> raw | Inr b \<Rightarrow> b),
               tp_shutdown = 0\<rparr>)"

definition thread_pool_enqueue ::
  "addr option \<Rightarrow> thread_pool \<Rightarrow> nat option \<Rightarrow> nat \<Rightarrow> (thread_pool \<times> int) option" where
  "thread_pool_enqueue malloc tp func arg =
     (if func = None then Some (tp, - EINVAL)
      else case malloc of
        None \<Rightarrow> Some (tp, - ENOMEM)
      | Some a \<Rightarrow>
          (let h = (tp_heap tp)(a \<mapsto> \<lparr>tk_func = func, tk_arg = arg, tk_next = None\<rparr>) in
           if tp_head tp = None
           then Some (tp\<lparr>tp_heap := h, tp_head := Some a, tp_tail := Some a\<rparr>, 0)
           else case tp_tail tp of
               None \<Rightarrow> None
             | Some l \<Rightarrow> (case h l of
                   None \<Rightarrow> None
                 | Some tk \<Rightarrow> Some (tp\<lparr>tp_heap := h(l \<mapsto> tk\<lparr>tk_next := Some a\<rparr>), tp_tail := Some a\<rparr>, 0))))"

text \<open>The removal of the first task in \<open>worker_thread\<close>.\<close>

definition take_head :: "thread_pool \<Rightarrow> addr \<Rightarrow> thread_pool option" where
  "take_head tp a = (case tp_heap tp a of
      None \<Rightarrow> None
    | Some tk \<Rightarrow> Some (tp\<lparr>tp_head := tk_next tk, tp_tail := (if tk_next tk = None then None else tp_tail tp)\<rparr>))"

definition worker_take :: "thread_pool \<Rightarrow> (addr option \<times> thread_pool) option" where
  "worker_take tp = (case tp_head tp of
      None \<Rightarrow> Some (None, tp)
    | Some a \<Rightarrow> (case take_head tp a of None \<Rightarrow> None | Some tp' \<Rightarrow> Some (Some a, tp')))"

text \<open>The loop of \<open>thread_pool_destroy\<close> that frees the queued tasks, with fuel for the list it follows.\<close>

fun free_tasks :: "nat \<Rightarrow> (addr \<rightharpoonup> task) \<Rightarrow> addr option \<Rightarrow> (addr \<rightharpoonup> task) option" where
  "free_tasks fuel h None = Some h"
| "free_tasks 0 h (Some a) = None"
| "free_tasks (Suc fuel) h (Some a) = (case h a of None \<Rightarrow> None | Some tk \<Rightarrow> free_tasks fuel (h(a := None)) (tk_next tk))"

text \<open>
  \<open>thread_pool_destroy\<close>: the shutdown flag is set, the workers are joined one after the other, and
  the nodes left in the queue are freed; the result is the task heap.  \<open>ends i\<close> says whether worker
  \<open>i\<close> comes to its end: a worker that stays asleep at the barrier does not, and the join with it
  never returns (\<open>None\<close>, as where a dead node would be followed).  The barrier, the event pair and
  the array of threads belong to the pool and go with it.
\<close>

definition thread_pool_stop :: "thread_pool \<Rightarrow> thread_pool" where
  "thread_pool_stop tp = tp\<lparr>tp_shutdown := 1\<rparr>"

definition thread_pool_destroy :: "(nat \<Rightarrow> bool) \<Rightarrow> nat \<Rightarrow> thread_pool \<Rightarrow> (addr \<rightharpoonup> task) option" where
  "thread_pool_destroy ends fuel tp =
     (let tp = thread_pool_stop tp in
      if list_all ends [0..<nat (tp_num_threads tp)] then free_tasks fuel (tp_heap tp) (tp_head tp) else None)"

text \<open>The handler a worker runs when it is cancelled with a task in hand.\<close>

definition task_cleanup :: "(addr \<rightharpoonup> task) \<Rightarrow> addr \<Rightarrow> (addr \<rightharpoonup> task)" where
  "task_cleanup h task = h(task := None)"

section \<open>The task list as a queue\<close>

fun tchain :: "(addr \<rightharpoonup> task) \<Rightarrow> addr option \<Rightarrow> addr list \<Rightarrow> bool" where
  "tchain h p [] = (p = None)"
| "tchain h p (a # as) = (p = Some a \<and> (case h a of None \<Rightarrow> False | Some tk \<Rightarrow> tchain h (tk_next tk) as))"

type_synonym item = "addr \<times> nat option \<times> nat"

definition pool_addrs :: "thread_pool \<Rightarrow> addr list" where
  "pool_addrs tp = (THE as. tchain (tp_heap tp) (tp_head tp) as)"

definition item_at :: "thread_pool \<Rightarrow> addr \<Rightarrow> item" where
  "item_at tp a = (case tp_heap tp a of None \<Rightarrow> (a, None, 0) | Some tk \<Rightarrow> (a, tk_func tk, tk_arg tk))"

definition pool_content :: "thread_pool \<Rightarrow> item list" where
  "pool_content tp = map (item_at tp) (pool_addrs tp)"

definition pool_rep :: "thread_pool \<Rightarrow> addr list \<Rightarrow> bool" where
  "pool_rep tp as \<longleftrightarrow> tchain (tp_heap tp) (tp_head tp) as \<and> distinct as
     \<and> tp_tail tp = (if as = [] then None else Some (last as))"

definition pool_inv :: "thread_pool \<Rightarrow> bool" where
  "pool_inv tp \<longleftrightarrow> (\<exists>as. pool_rep tp as)"

definition pool_can_put :: "item \<Rightarrow> thread_pool \<Rightarrow> bool" where
  "pool_can_put x tp \<longleftrightarrow> tp_heap tp (fst x) = None \<and> fst (snd x) \<noteq> None"

definition pool_put :: "item \<Rightarrow> thread_pool \<Rightarrow> thread_pool" where
  "pool_put x tp = (case thread_pool_enqueue (Some (fst x)) tp (fst (snd x)) (snd (snd x)) of
      Some (tp', r) \<Rightarrow> tp' | None \<Rightarrow> tp)"

definition pool_can_get :: "thread_pool \<Rightarrow> bool" where
  "pool_can_get tp \<longleftrightarrow> tp_head tp \<noteq> None"

definition pool_get :: "thread_pool \<Rightarrow> item \<times> thread_pool" where
  "pool_get tp = (case worker_take tp of
      Some (Some a, tp') \<Rightarrow> (item_at tp a, tp') | _ \<Rightarrow> ((0, None, 0), tp))"

lemma tchain_unique: "\<lbrakk>tchain h p as; tchain h p bs\<rbrakk> \<Longrightarrow> as = bs"
  by (induction h p as arbitrary: bs rule: tchain.induct) (case_tac bs; auto split: option.splits)+

lemma pool_addrs_rep: "pool_rep tp as \<Longrightarrow> pool_addrs tp = as"
  unfolding pool_addrs_def pool_rep_def by (rule the_equality) (auto intro: tchain_unique)

lemma tchain_dom: "\<lbrakk>tchain h p as; a \<in> set as\<rbrakk> \<Longrightarrow> h a \<noteq> None"
  by (induction h p as rule: tchain.induct) (auto split: option.splits)

lemma tchain_frame: "\<lbrakk>tchain h p as; \<forall>a \<in> set as. h' a = h a\<rbrakk> \<Longrightarrow> tchain h' p as"
  by (induction h p as rule: tchain.induct) (auto split: option.splits)

text \<open>Linking a fresh node behind the last one.\<close>

lemma tchain_snoc:
  assumes "tchain h p as" "distinct as" "as \<noteq> []" "h a = None" "tk_next n = None" "h (last as) = Some tk"
  shows "tchain (h(a \<mapsto> n, last as \<mapsto> tk\<lparr>tk_next := Some a\<rparr>)) p (as @ [a])"
  using assms
proof (induction as arbitrary: p)
  case Nil
  then show ?case by simp
next
  case (Cons x xs)
  have xa: "x \<noteq> a" using Cons.prems by (auto split: option.splits)
  show ?case
  proof (cases "xs = []")
    case True
    then show ?thesis using Cons.prems xa by auto
  next
    case False
    have xl: "x \<noteq> last xs" using Cons.prems(2) False last_in_set by fastforce
    obtain tx where tx: "h x = Some tx" "tchain h (tk_next tx) xs" using Cons.prems(1) by (auto split: option.splits)
    let ?h = "h(a \<mapsto> n, last xs \<mapsto> tk\<lparr>tk_next := Some a\<rparr>)"
    have "tchain ?h (tk_next tx) (xs @ [a])"
      using Cons.IH [OF tx(2)] Cons.prems False by (simp del: fun_upd_apply)
    moreover have "?h x = Some tx" using tx(1) xa xl by simp
    ultimately show ?thesis using Cons.prems(1) False by (simp del: fun_upd_apply)
  qed
qed

lemma pool_rep_put:
  assumes "pool_rep tp as" "pool_can_put x tp"
  shows "pool_rep (pool_put x tp) (as @ [fst x]) \<and> item_at (pool_put x tp) (fst x) = x
    \<and> (\<forall>a \<in> set as. item_at (pool_put x tp) a = item_at tp a)"
proof (cases "as = []")
  case True
  with assms show ?thesis
    by (cases x) (auto simp: pool_rep_def pool_can_put_def pool_put_def thread_pool_enqueue_def item_at_def)
next
  case False
  obtain a f n where x: "x = (a, f, n)" by (cases x) auto
  have ch: "tchain (tp_heap tp) (tp_head tp) as" "distinct as" "tp_tail tp = Some (last as)"
    using assms(1) False by (auto simp: pool_rep_def)
  have hd: "tp_head tp \<noteq> None" using ch(1) False by (cases as) auto
  have new: "tp_heap tp a = None" "f \<noteq> None" using assms(2) x by (auto simp: pool_can_put_def)
  have notin: "a \<notin> set as" using tchain_dom [OF ch(1)] new(1) by blast
  obtain tk where tk: "tp_heap tp (last as) = Some tk" using tchain_dom [OF ch(1)] False last_in_set by blast
  have ne: "last as \<noteq> a" using notin False last_in_set by blast
  let ?n = "\<lparr>tk_func = f, tk_arg = n, tk_next = None\<rparr>"
  have put: "pool_put x tp = tp\<lparr>tp_heap := (tp_heap tp)(a \<mapsto> ?n, last as \<mapsto> tk\<lparr>tk_next := Some a\<rparr>), tp_tail := Some a\<rparr>"
    using hd new x ch(3) tk ne by (auto simp: pool_put_def thread_pool_enqueue_def Let_def)
  have "tchain (tp_heap (pool_put x tp)) (tp_head (pool_put x tp)) (as @ [a])"
    using tchain_snoc [OF ch(1,2) False new(1) _ tk, of ?n] by (simp add: put del: fun_upd_apply)
  then show ?thesis
    using ch notin ne tk by (auto simp: pool_rep_def item_at_def put [unfolded x] x)
qed

lemma pool_rep_get:
  assumes "pool_rep tp as" "pool_can_get tp"
  shows "as \<noteq> [] \<and> fst (pool_get tp) = item_at tp (hd as) \<and> pool_rep (snd (pool_get tp)) (tl as)
    \<and> tp_heap (snd (pool_get tp)) = tp_heap tp"
  using assms
  by (cases as)
    (auto simp: pool_rep_def pool_can_get_def pool_get_def worker_take_def take_head_def split: option.splits,
     (metis tchain.simps(1) list.exhaust option.distinct(1) tchain.simps(2))+)

text \<open>Freeing a task that was taken from the list leaves the list as it is.\<close>

lemma task_cleanup_keeps_list:
  "\<lbrakk>pool_rep tp as; a \<notin> set as\<rbrakk> \<Longrightarrow> pool_rep (tp\<lparr>tp_heap := task_cleanup (tp_heap tp) a\<rparr>) as"
  by (auto simp: pool_rep_def task_cleanup_def intro: tchain_frame)

lemma pool_content_rep: "pool_rep tp as \<Longrightarrow> pool_content tp = map (item_at tp) as"
  by (simp add: pool_content_def pool_addrs_rep)

lemma pool_content_put: "\<lbrakk>pool_inv tp; pool_can_put x tp\<rbrakk> \<Longrightarrow> pool_content (pool_put x tp) = pool_content tp @ [x]"
  unfolding pool_inv_def
proof (elim exE)
  fix as assume a: "pool_can_put x tp" "pool_rep tp as"
  note p = pool_rep_put [OF a(2,1)]
  show ?thesis
    using pool_content_rep [OF a(2)] pool_content_rep [OF conjunct1 [OF p]] p by simp
qed

lemma item_at_heap: "tp_heap tp' = tp_heap tp \<Longrightarrow> item_at tp' = item_at tp"
  by (simp add: item_at_def fun_eq_iff)

lemma pool_content_get:
  "\<lbrakk>pool_inv tp; pool_can_get tp\<rbrakk> \<Longrightarrow> pool_content tp = fst (pool_get tp) # pool_content (snd (pool_get tp))"
  unfolding pool_inv_def
proof (elim exE)
  fix as assume a: "pool_rep tp as" "pool_can_get tp"
  note g = pool_rep_get [OF this]
  then show ?thesis
    using pool_content_rep [OF a(1)] pool_content_rep [of "snd (pool_get tp)" "tl as"]
      item_at_heap [of "snd (pool_get tp)" tp] by (cases as) simp_all
qed

lemma pool_can_get_iff: "pool_inv tp \<Longrightarrow> pool_can_get tp \<longleftrightarrow> pool_content tp \<noteq> []"
proof -
  assume "pool_inv tp"
  then obtain as where "pool_rep tp as" by (auto simp: pool_inv_def)
  then show ?thesis by (cases as) (auto simp: pool_content_rep pool_can_get_def, auto simp: pool_rep_def)
qed

lemma thread_pool_enqueue_defined: "pool_inv tp \<Longrightarrow> \<exists>tp' e. thread_pool_enqueue malloc tp (Some f) arg = Some (tp', e)"
proof -
  assume "pool_inv tp"
  then obtain as where "tchain (tp_heap tp) (tp_head tp) as" "tp_tail tp = (if as = [] then None else Some (last as))"
    by (auto simp: pool_inv_def pool_rep_def)
  then show ?thesis
    using tchain_dom [of "tp_heap tp" "tp_head tp" as "last as"] by (cases as) (auto simp: thread_pool_enqueue_def Let_def split: option.splits)
qed

interpretation pool: fifo_queue pool_put pool_get pool_can_put pool_can_get pool_content pool_inv
  by unfold_locales
    (use pool_rep_put pool_rep_get in \<open>fastforce simp: pool_inv_def\<close>
      | simp add: pool_content_put pool_content_get pool_can_get_iff)+

section \<open>The workers\<close>

text \<open>
  Where a worker is in \<open>worker_thread\<close>.  \<open>Looping\<close>: at the outer loop test.  \<open>Locking\<close>: about
  to lock the mutex.  \<open>Sleeping\<close>: in the condition wait.  \<open>Unlocked\<close>: back at the inner loop
  test by the \<open>continue\<close> of the timeout branch, which has released the mutex.  \<open>Fetched\<close> and
  \<open>Took\<close>: after the two accesses to the list made without the mutex.  \<open>HasTask\<close>: after the
  regular section.  \<open>AtBarrier\<close>, \<open>Released\<close>, \<open>Ran\<close>: inside \<open>barrier_wait\<close>, after it, and after
  the task function.  Executions are followed up to the first call POSIX leaves undefined (a
  wait on, or an unlock of, a mutex the caller does not hold), which has no step.
\<close>

datatype worker_pc = Looping | Locking | Sleeping | Unlocked | Fetched addr | Took addr
  | HasTask addr | AtBarrier addr | Released addr | Ran addr | Exited

definition worker_section :: "thread_pool \<Rightarrow> (thread_pool \<times> worker_pc) option" where
  "worker_section tp =
     (if tp_head tp = None \<and> tp_shutdown tp = 0 then Some (tp, Sleeping)
      else if tp_shutdown tp \<noteq> 0 then Some (tp, Exited)
      else case worker_take tp of
          None \<Rightarrow> None
        | Some (None, tp') \<Rightarrow> Some (tp', Looping)
        | Some (Some a, tp') \<Rightarrow> Some (tp', HasTask a))"

definition worker_woken :: "int \<Rightarrow> thread_pool \<Rightarrow> (thread_pool \<times> worker_pc) option" where
  "worker_woken ret tp =
     (if ret = ETIMEDOUT then Some (tp, Unlocked)
      else if ret \<noteq> 0 then Some (tp, Exited)
      else worker_section tp)"

text \<open>The inner loop test and the read of the head without the mutex.\<close>

definition worker_unlocked :: "thread_pool \<Rightarrow> (thread_pool \<times> worker_pc) option" where
  "worker_unlocked tp =
     (if tp_shutdown tp \<noteq> 0 then None
      else case tp_head tp of None \<Rightarrow> None | Some a \<Rightarrow> Some (tp, Fetched a))"

record pool_sys =
  ps_tp :: thread_pool
  ps_pc :: "tid \<Rightarrow> worker_pc"
  ps_ran :: "(nat \<times> nat) list"

definition release_all :: "(tid \<Rightarrow> worker_pc) \<Rightarrow> tid \<Rightarrow> worker_pc" where
  "release_all pc t = (case pc t of AtBarrier a \<Rightarrow> Released a | p \<Rightarrow> p)"

datatype pool_act = Enqueue addr "nat option" nat | Stop | Test tid | Lock tid | CondWake tid int
  | FetchUnlocked tid | TakeUnlocked tid | Arrive tid | SpuriousWake tid | RunTask tid | Finish tid

definition move :: "tid \<Rightarrow> pool_sys \<Rightarrow> (thread_pool \<times> worker_pc) option \<Rightarrow> pool_sys option" where
  "move t s r = (case r of None \<Rightarrow> None | Some (tp, pc) \<Rightarrow> Some (s\<lparr>ps_tp := tp, ps_pc := (ps_pc s)(t := pc)\<rparr>))"

definition worker_arrive :: "tid \<Rightarrow> addr \<Rightarrow> pool_sys \<Rightarrow> pool_sys" where
  "worker_arrive t a s =
     (case barrier_arrive (tp_barrier (ps_tp s)) of
        (b, Block) \<Rightarrow> s\<lparr>ps_tp := (ps_tp s)\<lparr>tp_barrier := b\<rparr>, ps_pc := (ps_pc s)(t := AtBarrier a)\<rparr>
      | (b, Ret r) \<Rightarrow> s\<lparr>ps_tp := (ps_tp s)\<lparr>tp_barrier := b\<rparr>, ps_pc := (release_all (ps_pc s))(t := Released a)\<rparr>)"

definition worker_run :: "tid \<Rightarrow> addr \<Rightarrow> pool_sys \<Rightarrow> pool_sys option" where
  "worker_run t a s =
     (case tp_heap (ps_tp s) a of
        None \<Rightarrow> None
      | Some tk \<Rightarrow> Some (s\<lparr>ps_pc := (ps_pc s)(t := Ran a),
            ps_ran := ps_ran s @ (case tk_func tk of None \<Rightarrow> [] | Some f \<Rightarrow> [(f, tk_arg tk)])\<rparr>))"

definition worker_finish :: "tid \<Rightarrow> addr \<Rightarrow> pool_sys \<Rightarrow> pool_sys" where
  "worker_finish t a s = s\<lparr>ps_tp := (ps_tp s)\<lparr>tp_heap := (tp_heap (ps_tp s))(a := None)\<rparr>, ps_pc := (ps_pc s)(t := Looping)\<rparr>"

fun pool_exec :: "pool_act \<Rightarrow> pool_sys \<Rightarrow> pool_sys option" where
  "pool_exec (Enqueue a f n) s =
     (if tp_heap (ps_tp s) a \<noteq> None then None
      else case thread_pool_enqueue (Some a) (ps_tp s) f n of
          None \<Rightarrow> None | Some (tp, r) \<Rightarrow> Some (s\<lparr>ps_tp := tp\<rparr>))"
| "pool_exec Stop s = Some (s\<lparr>ps_tp := thread_pool_stop (ps_tp s)\<rparr>)"
| "pool_exec (Test t) s =
     (if ps_pc s t \<noteq> Looping then None
      else Some (s\<lparr>ps_pc := (ps_pc s)(t := if tp_shutdown (ps_tp s) \<noteq> 0 then Exited else Locking)\<rparr>))"
| "pool_exec (Lock t) s = (if ps_pc s t \<noteq> Locking then None else move t s (worker_section (ps_tp s)))"
| "pool_exec (CondWake t r) s = (if ps_pc s t \<noteq> Sleeping then None else move t s (worker_woken r (ps_tp s)))"
| "pool_exec (FetchUnlocked t) s = (if ps_pc s t \<noteq> Unlocked then None else move t s (worker_unlocked (ps_tp s)))"
| "pool_exec (TakeUnlocked t) s =
     (case ps_pc s t of
        Fetched a \<Rightarrow> move t s (case take_head (ps_tp s) a of None \<Rightarrow> None | Some tp \<Rightarrow> Some (tp, Took a))
      | _ \<Rightarrow> None)"
| "pool_exec (Arrive t) s = (case ps_pc s t of HasTask a \<Rightarrow> Some (worker_arrive t a s) | _ \<Rightarrow> None)"
| "pool_exec (SpuriousWake t) s =
     (case ps_pc s t of AtBarrier a \<Rightarrow> Some (s\<lparr>ps_pc := (ps_pc s)(t := Released a)\<rparr>) | _ \<Rightarrow> None)"
| "pool_exec (RunTask t) s = (case ps_pc s t of Released a \<Rightarrow> worker_run t a s | _ \<Rightarrow> None)"
| "pool_exec (Finish t) s = (case ps_pc s t of Ran a \<Rightarrow> Some (worker_finish t a s) | _ \<Rightarrow> None)"

text \<open>
  Which actions a platform shows: the thread of an action is one of the workers, spurious
  wake-ups at the barrier and timeouts of the condition wait only where the flags say so.
\<close>

fun pool_allowed :: "bool \<Rightarrow> bool \<Rightarrow> tid set \<Rightarrow> pool_act \<Rightarrow> bool" where
  "pool_allowed spurious timeouts T (Enqueue a f n) = True"
| "pool_allowed spurious timeouts T Stop = True"
| "pool_allowed spurious timeouts T (Test t) = (t \<in> T)"
| "pool_allowed spurious timeouts T (Lock t) = (t \<in> T)"
| "pool_allowed spurious timeouts T (CondWake t r) = (t \<in> T \<and> (r = ETIMEDOUT \<longrightarrow> timeouts))"
| "pool_allowed spurious timeouts T (FetchUnlocked t) = (t \<in> T)"
| "pool_allowed spurious timeouts T (TakeUnlocked t) = (t \<in> T)"
| "pool_allowed spurious timeouts T (Arrive t) = (t \<in> T)"
| "pool_allowed spurious timeouts T (SpuriousWake t) = (t \<in> T \<and> spurious)"
| "pool_allowed spurious timeouts T (RunTask t) = (t \<in> T)"
| "pool_allowed spurious timeouts T (Finish t) = (t \<in> T)"

fun pool_run :: "pool_act list \<Rightarrow> pool_sys \<Rightarrow> pool_sys option" where
  "pool_run [] s = Some s"
| "pool_run (a # as) s = (case pool_exec a s of None \<Rightarrow> None | Some s' \<Rightarrow> pool_run as s')"

definition pool_start :: "thread_pool \<Rightarrow> pool_sys" where
  "pool_start tp = \<lparr>ps_tp = tp, ps_pc = (\<lambda>_. Looping), ps_ran = []\<rparr>"

lemma pool_run_invariant:
  assumes "pool_run as s = Some s'" "\<forall>a \<in> set as. P a" "I s"
    and "\<And>a s s'. \<lbrakk>P a; I s; pool_exec a s = Some s'\<rbrakk> \<Longrightarrow> I s'"
  shows "I s'"
  using assms(1-3) by (induction as arbitrary: s) (auto split: option.splits intro: assms(4))

subsection \<open>Who holds which task\<close>

fun held :: "worker_pc \<Rightarrow> addr option" where
  "held (HasTask a) = Some a"
| "held (AtBarrier a) = Some a"
| "held (Released a) = Some a"
| "held (Ran a) = Some a"
| "held (Fetched a) = Some a"
| "held (Took a) = Some a"
| "held _ = None"

definition regular :: "worker_pc \<Rightarrow> bool" where
  "regular pc \<longleftrightarrow> pc \<noteq> Unlocked \<and> (\<forall>a. pc \<noteq> Fetched a \<and> pc \<noteq> Took a)"

definition handover_rep :: "thread_pool \<Rightarrow> (tid \<Rightarrow> worker_pc) \<Rightarrow> addr list \<Rightarrow> bool" where
  "handover_rep tp pc as \<longleftrightarrow> pool_rep tp as \<and> (\<forall>t. regular (pc t))
     \<and> (\<forall>t a. held (pc t) = Some a \<longrightarrow> tp_heap tp a \<noteq> None \<and> a \<notin> set as)
     \<and> (\<forall>t u a. held (pc t) = Some a \<longrightarrow> held (pc u) = Some a \<longrightarrow> t = u)"

definition handover_inv :: "pool_sys \<Rightarrow> bool" where
  "handover_inv s \<longleftrightarrow> (\<exists>as. handover_rep (ps_tp s) (ps_pc s) as)"

lemma handover_pc:
  "\<lbrakk>handover_rep tp pc as; regular p; held p = None \<or> held p = held (pc t)\<rbrakk> \<Longrightarrow> handover_rep tp (pc(t := p)) as"
  unfolding handover_rep_def by (auto split: if_splits) metis+

lemma held_release_all [simp]: "held (release_all pc t) = held (pc t)"
  by (simp add: release_all_def split: worker_pc.splits)

lemma regular_release_all [simp]: "regular (release_all pc t) = regular (pc t)"
  by (simp add: release_all_def regular_def split: worker_pc.splits)

lemma handover_barrier:
  "handover_rep (tp\<lparr>tp_barrier := b\<rparr>) pc as = handover_rep tp pc as"
  "handover_rep (thread_pool_stop tp) pc as = handover_rep tp pc as"
  "handover_rep tp (release_all pc) as = handover_rep tp pc as"
  by (simp_all add: handover_rep_def pool_rep_def thread_pool_stop_def)

lemma handover_take:
  assumes "handover_rep tp pc as" "worker_take tp = Some (Some a, tp')"
  shows "handover_rep tp' (pc(t := HasTask a)) (tl as)"
proof -
  have rep: "pool_rep tp as" "pool_can_get tp"
    using assms by (auto simp: handover_rep_def pool_can_get_def worker_take_def split: option.splits)
  have tp': "pool_get tp = (item_at tp a, tp')" using assms(2) by (simp add: pool_get_def)
  note g = pool_rep_get [OF rep]
  have hd: "hd as = a" using g rep assms(2)
    by (cases as) (auto simp: worker_take_def pool_rep_def split: option.splits)
  have d: "distinct as" "tp_heap tp a \<noteq> None" using rep g hd tchain_dom by (fastforce simp: pool_rep_def)+
  then have as: "set as = insert a (set (tl as))" "a \<notin> set (tl as)" using g hd by (cases as; auto)+
  show ?thesis using assms(1) g as tp' d unfolding handover_rep_def
    by (auto simp: regular_def split: if_splits)
qed

lemma handover_section:
  assumes "handover_rep tp pc as" "worker_section tp = Some (tp', p)"
  shows "\<exists>bs. handover_rep tp' (pc(t := p)) bs"
proof (cases "\<exists>a. worker_take tp = Some (Some a, tp') \<and> p = HasTask a")
  case True
  then show ?thesis using handover_take [OF assms(1)] by blast
next
  case False
  with assms(2) have "tp' = tp" "p \<in> {Sleeping, Exited, Looping}"
    by (auto simp: worker_section_def worker_take_def split: if_splits option.splits)
  then show ?thesis using assms(1) by (auto simp: regular_def intro!: exI [of _ as] handover_pc)
qed

lemma handover_enqueue:
  assumes "handover_rep tp pc as" "tp_heap tp a = None" "thread_pool_enqueue (Some a) tp f n = Some (tp', r)"
  shows "\<exists>bs. handover_rep tp' pc bs"
proof (cases "f = None")
  case True
  then show ?thesis using assms by (auto simp: thread_pool_enqueue_def)
next
  case False
  let ?x = "(a, f, n)"
  have "pool_rep tp as" "pool_can_put ?x tp" using assms False by (auto simp: handover_rep_def pool_can_put_def)
  note p = pool_rep_put [OF this]
  have tp': "pool_put ?x tp = tp'" using assms(3) by (simp add: pool_put_def)
  have heap: "tp_heap tp c \<noteq> None \<Longrightarrow> tp_heap tp' c \<noteq> None" for c
    using assms(3) False by (auto simp: thread_pool_enqueue_def Let_def split: if_splits option.splits)
  have "handover_rep tp' pc (as @ [a])"
    using assms(1,2) p tp' heap unfolding handover_rep_def by (auto, blast+)
  then show ?thesis by blast
qed

lemma handover_finish:
  assumes "handover_rep tp pc as" "pc t = Ran a"
  shows "handover_rep (tp\<lparr>tp_heap := (tp_heap tp)(a := None)\<rparr>) (pc(t := Looping)) as"
proof -
  have a: "a \<notin> set as" "\<And>u. held (pc u) = Some a \<Longrightarrow> u = t" using assms by (simp_all add: handover_rep_def) (metis held.simps(4))+
  have "tchain ((tp_heap tp)(a := None)) (tp_head tp) as"
    by (rule tchain_frame) (use assms(1) a in \<open>auto simp: handover_rep_def pool_rep_def\<close>)
  with assms(1) a show ?thesis unfolding handover_rep_def pool_rep_def
    by (auto simp: regular_def split: if_splits) 
qed

lemma handover_step:
  assumes "pool_allowed sp False T act" "handover_inv s" "pool_exec act s = Some s'"
  shows "handover_inv s'"
proof -
  obtain as where h: "handover_rep (ps_tp s) (ps_pc s) as" using assms(2) by (auto simp: handover_inv_def)
  then have reg: "regular (ps_pc s t)" for t by (simp add: handover_rep_def)
  have pc: "handover_rep (ps_tp s) ((ps_pc s)(t := p)) as" if "regular p" "held p = None \<or> held p = held (ps_pc s t)" for t p
    using handover_pc [OF h that] .
  show ?thesis
  proof (cases act)
    case (Enqueue a f n)
    then show ?thesis using assms handover_enqueue [OF h] by (auto simp: handover_inv_def split: if_splits option.splits)
  next
    case (CondWake t r)
    then show ?thesis using assms handover_section [OF h] pc [of Exited]
      by (auto simp: handover_inv_def move_def worker_woken_def regular_def split: if_splits option.splits) blast
  next
    case (Arrive t)
    then obtain a where "ps_pc s t = HasTask a" "s' = worker_arrive t a s"
      using assms(3) by (auto split: worker_pc.splits)
    then show ?thesis using pc [of "AtBarrier a" t] handover_pc [of "ps_tp s" "release_all (ps_pc s)" as "Released a" t] h
      by (auto simp: worker_arrive_def handover_inv_def handover_barrier regular_def split: outcome.splits prod.splits intro!: exI [of _ as])
  next
    case (Finish t)
    then show ?thesis using assms(3) handover_finish [OF h]
      by (auto simp: worker_finish_def handover_inv_def split: worker_pc.splits) blast
  next
    case (Lock t)
    then show ?thesis using assms(3) handover_section [OF h]
      by (auto simp: handover_inv_def move_def split: if_splits option.splits)
  qed (use assms(3) reg pc handover_section [OF h] h in
      \<open>auto simp: handover_inv_def handover_barrier move_def worker_run_def regular_def
         split: if_splits option.splits worker_pc.splits intro!: exI [of _ as]\<close>)
qed

lemma handover_start: "thread_pool_init x y z raw cr n = Inr tp \<Longrightarrow> handover_inv (pool_start tp)"
  by (auto simp: handover_inv_def handover_rep_def pool_rep_def pool_start_def thread_pool_init_def regular_def
      split: if_splits intro!: exI [of _ "[]"])

subsection \<open>The workers at the barrier\<close>

fun at_barrier :: "worker_pc \<Rightarrow> bool" where
  "at_barrier (AtBarrier a) = True"
| "at_barrier _ = False"

fun released :: "worker_pc \<Rightarrow> bool" where
  "released (Released a) = True"
| "released _ = False"

text \<open>
  The accounting of the barrier after \<open>W\<close> spurious wake-ups.  \<open>q\<close> is how often the barrier has
  opened and \<open>w\<close> the number of spurious wake-ups since.  A worker that is woken spuriously stays
  counted, and the barrier opens at \<open>n + 1\<close> arrivals, so each opening takes one of the \<open>W\<close>.
\<close>

definition barrier_account :: "tid set \<Rightarrow> int \<Rightarrow> int \<Rightarrow> thread_pool \<Rightarrow> (tid \<Rightarrow> worker_pc) \<Rightarrow> int \<Rightarrow> bool" where
  "barrier_account T n W tp pc calls \<longleftrightarrow> bar_total (tp_barrier tp) = n + 1 \<and> bar_count (tp_barrier tp) \<le> n
     \<and> (\<exists>q w. bar_count (tp_barrier tp) = tcount T (\<lambda>t. at_barrier (pc t)) + w \<and> 0 \<le> w \<and> 0 \<le> q \<and> q + w \<le> W
          \<and> calls + tcount T (\<lambda>t. released (pc t)) \<le> (n + 1) * q + w)"

lemma barrier_accountI:
  "\<lbrakk>bar_total (tp_barrier tp) = n + 1; bar_count (tp_barrier tp) \<le> n; bar_count (tp_barrier tp) = tcount T (\<lambda>t. at_barrier (pc t)) + w;
     0 \<le> w; 0 \<le> q; q + w \<le> W; calls + tcount T (\<lambda>t. released (pc t)) \<le> (n + 1) * q + w\<rbrakk> \<Longrightarrow> barrier_account T n W tp pc calls"
  unfolding barrier_account_def by blast

definition stuck_inv :: "tid set \<Rightarrow> int \<Rightarrow> int \<Rightarrow> pool_sys \<Rightarrow> bool" where
  "stuck_inv T n W s \<longleftrightarrow> barrier_account T n W (ps_tp s) (ps_pc s) (int (length (ps_ran s)))"

lemma barrier_kept:
  "thread_pool_enqueue m tp f n = Some (tp', r) \<Longrightarrow> tp_barrier tp' = tp_barrier tp"
  "take_head tp a = Some tp' \<Longrightarrow> tp_barrier tp' = tp_barrier tp"
  "worker_section tp = Some (tp', pc) \<Longrightarrow> tp_barrier tp' = tp_barrier tp \<and> \<not> at_barrier pc \<and> \<not> released pc"
  "worker_woken ret tp = Some (tp', pc) \<Longrightarrow> tp_barrier tp' = tp_barrier tp \<and> \<not> at_barrier pc \<and> \<not> released pc"
  "worker_unlocked tp = Some (tp', pc) \<Longrightarrow> tp_barrier tp' = tp_barrier tp \<and> \<not> at_barrier pc \<and> \<not> released pc"
  by (auto simp: thread_pool_enqueue_def take_head_def worker_woken_def worker_section_def worker_take_def
      worker_unlocked_def Let_def split: if_splits option.splits)

lemma tcount_at: "\<lbrakk>finite T; t \<in> T\<rbrakk> \<Longrightarrow> tcount T (\<lambda>u. at_barrier ((pc(t := p)) u))
    = tcount T (\<lambda>u. at_barrier (pc u)) + of_bool (at_barrier p) - of_bool (at_barrier (pc t))"
  and tcount_released: "\<lbrakk>finite T; t \<in> T\<rbrakk> \<Longrightarrow> tcount T (\<lambda>u. released ((pc(t := p)) u))
    = tcount T (\<lambda>u. released (pc u)) + of_bool (released p) - of_bool (released (pc t))"
  by (rule tcount_fun_upd; assumption)+

lemma released_release_all: "released (release_all pc t) \<longleftrightarrow> released (pc t) \<or> at_barrier (pc t)"
  "\<not> at_barrier (release_all pc t)"
  by (auto simp: release_all_def split: worker_pc.splits)

lemma tcount_release_all:
  assumes "finite T"
  shows "tcount T (\<lambda>t. released (release_all pc t)) = tcount T (\<lambda>t. released (pc t)) + tcount T (\<lambda>t. at_barrier (pc t))"
    "tcount T (\<lambda>t. at_barrier (release_all pc t)) = 0"
proof -
  have "{t \<in> T. released (release_all pc t)} = {t \<in> T. released (pc t)} \<union> {t \<in> T. at_barrier (pc t)}"
    by (auto simp: released_release_all)
  moreover have "{t \<in> T. released (pc t)} \<inter> {t \<in> T. at_barrier (pc t)} = {}" by (auto elim: released.elims)
  ultimately show "tcount T (\<lambda>t. released (release_all pc t)) = tcount T (\<lambda>t. released (pc t)) + tcount T (\<lambda>t. at_barrier (pc t))"
    using assms by (simp add: tcount_def card_Un_disjoint)
qed (simp add: released_release_all)

text \<open>Moves that do not touch the barrier keep the account.\<close>

lemma account_move:
  assumes "barrier_account T n W tp pc calls" "finite T" "t \<in> T" "\<not> at_barrier (pc t)" "\<not> released (pc t)" "\<not> at_barrier p" "\<not> released p"
    "tp_barrier tp' = tp_barrier tp"
  shows "barrier_account T n W tp' (pc(t := p)) calls"
  using assms by (simp add: barrier_account_def tcount_at tcount_released del: fun_upd_apply)

lemma account_tp: "\<lbrakk>barrier_account T n W tp pc calls; tp_barrier tp' = tp_barrier tp\<rbrakk> \<Longrightarrow> barrier_account T n W tp' pc calls"
  by (simp add: barrier_account_def)

lemma account_spurious:
  assumes "barrier_account T n W tp pc calls" "finite T" "t \<in> T" "pc t = AtBarrier a"
  shows "barrier_account T n (W + 1) tp (pc(t := Released a)) calls"
proof -
  obtain q w where "bar_count (tp_barrier tp) = tcount T (\<lambda>t. at_barrier (pc t)) + w" "0 \<le> w" "0 \<le> q" "q + w \<le> W"
    "calls + tcount T (\<lambda>t. released (pc t)) \<le> (n + 1) * q + w" "bar_total (tp_barrier tp) = n + 1" "bar_count (tp_barrier tp) \<le> n"
    using assms(1) unfolding barrier_account_def by blast
  with assms(2-4) show ?thesis
    by (intro barrier_accountI [of _ _ _ _ "w + 1" q]) (simp_all add: tcount_at tcount_released del: fun_upd_apply)
qed

lemma account_ran:
  assumes "barrier_account T n W tp pc calls" "finite T" "t \<in> T" "pc t = Released a" "k \<le> 1"
  shows "barrier_account T n W tp (pc(t := Ran a)) (calls + k)"
  using assms unfolding barrier_account_def by (force simp: tcount_at tcount_released simp del: fun_upd_apply)

lemma account_arrive:
  assumes "barrier_account T n W tp pc calls" "finite T" "int (card T) = n" "n < INT_MAX" "t \<in> T" "pc t = HasTask a"
  shows "case barrier_arrive (tp_barrier tp) of
      (b, Block) \<Rightarrow> barrier_account T n W (tp\<lparr>tp_barrier := b\<rparr>) (pc(t := AtBarrier a)) calls
    | (b, Ret r) \<Rightarrow> barrier_account T n W (tp\<lparr>tp_barrier := b\<rparr>) ((release_all pc)(t := Released a)) calls"
proof -
  let ?c = "bar_count (tp_barrier tp)" and ?at = "tcount T (\<lambda>t. at_barrier (pc t))"
  obtain q w where acc: "?c = ?at + w" "0 \<le> w" "0 \<le> q" "q + w \<le> W"
    "calls + tcount T (\<lambda>t. released (pc t)) \<le> (n + 1) * q + w" "bar_total (tp_barrier tp) = n + 1" "?c \<le> n"
    using assms(1) unfolding barrier_account_def by blast
  have "t \<in> T - {u \<in> T. at_barrier (pc u)}" using assms(5,6) by simp
  then have "{u \<in> T. at_barrier (pc u)} \<subset> T" by blast
  from psubset_card_mono [OF assms(2) this] have lt: "?at < n" using assms(3) by (simp add: tcount_def)
  have "0 \<le> ?at" by simp
  then have wr: "wrap32 (?c + 1) = ?c + 1" by (intro wrap32_nonneg) (use acc assms(4) in linarith)+
  show ?thesis
  proof (cases "?c < n")
    case True
    then have arr: "barrier_arrive (tp_barrier tp) = ((tp_barrier tp)\<lparr>bar_count := ?c + 1\<rparr>, Block)"
      using acc wr by (simp add: barrier_arrive_def)
    have "barrier_account T n W (tp\<lparr>tp_barrier := (tp_barrier tp)\<lparr>bar_count := ?c + 1\<rparr>\<rparr>) (pc(t := AtBarrier a)) calls"
      using acc True assms(2,5,6)
      by (intro barrier_accountI [of _ _ _ _ w q]) (simp_all add: tcount_at tcount_released del: fun_upd_apply)
    then show ?thesis by (simp add: arr)
  next
    case False
    then have c: "?c = n" "1 \<le> w" using acc(1,7) lt by simp_all
    then have arr: "barrier_arrive (tp_barrier tp) = ((tp_barrier tp)\<lparr>bar_count := 0\<rparr>, Ret 0)"
      using acc wr by (simp add: barrier_arrive_def)
    have nrel: "\<not> released (release_all pc t)" using assms(6) by (simp add: release_all_def)
    have "calls + (tcount T (\<lambda>t. released (pc t)) + ?at + 1) \<le> (n + 1) * (q + 1)"
      using acc(1,5) c by (simp add: algebra_simps)
    then have "barrier_account T n W (tp\<lparr>tp_barrier := (tp_barrier tp)\<lparr>bar_count := 0\<rparr>\<rparr>) ((release_all pc)(t := Released a)) calls"
      using acc c assms(2,3,5) nrel
      by (intro barrier_accountI [of _ _ _ _ 0 "q + 1"])
        (simp_all add: tcount_at tcount_released tcount_release_all released_release_all(2) del: fun_upd_apply)
    then show ?thesis by (simp add: arr)
  qed
qed

fun is_spurious :: "pool_act \<Rightarrow> bool" where
  "is_spurious (SpuriousWake t) = True"
| "is_spurious _ = False"

definition spurious_wakes :: "pool_act list \<Rightarrow> int" where
  "spurious_wakes acts = int (length (filter is_spurious acts))"

lemma stuck_step:
  assumes "pool_allowed sp to T act" "finite T" "int (card T) = n" "n < INT_MAX" "stuck_inv T n W s" "pool_exec act s = Some s'"
  shows "stuck_inv T n (W + of_bool (is_spurious act)) s'"
proof -
  have acc: "barrier_account T n W (ps_tp s) (ps_pc s) (int (length (ps_ran s)))" using assms(5) by (simp add: stuck_inv_def)
  note mv = account_move [OF acc assms(2)]
  show ?thesis
  proof (cases act)
    case (Test t)
    then show ?thesis using assms mv [of t _ "ps_tp s"] by (auto simp: stuck_inv_def split: if_splits)
  next
    case (Arrive t)
    then obtain a where "t \<in> T" "ps_pc s t = HasTask a" "s' = worker_arrive t a s" using assms(1,6) by (auto split: worker_pc.splits)
    then show ?thesis using account_arrive [OF acc assms(2-4), of t a] Arrive
      by (auto simp: stuck_inv_def worker_arrive_def split: prod.splits outcome.splits)
  next
    case (RunTask t)
    then obtain a where "t \<in> T" "ps_pc s t = Released a" "worker_run t a s = Some s'" using assms(1,6) by (auto split: worker_pc.splits)
    then show ?thesis using account_ran [OF acc assms(2), of t a 0] account_ran [OF acc assms(2), of t a 1] RunTask
      by (auto simp: stuck_inv_def worker_run_def add.commute split: option.splits)
  next
    case (SpuriousWake t)
    then show ?thesis using assms account_spurious [OF acc assms(2), of t] by (auto simp: stuck_inv_def split: worker_pc.splits)
  next
    case (Finish t)
    then show ?thesis using assms mv [of t Looping] by (auto simp: stuck_inv_def worker_finish_def split: worker_pc.splits)
  next
    case (Enqueue a f m)
    then obtain tp r where tp: "thread_pool_enqueue (Some a) (ps_tp s) f m = Some (tp, r)" "s' = s\<lparr>ps_tp := tp\<rparr>"
      using assms(6) by (auto split: if_splits option.splits)
    show ?thesis using account_tp [OF acc barrier_kept(1) [OF tp(1)]] tp(2) Enqueue by (simp add: stuck_inv_def)
  qed (use assms mv in \<open>auto simp: move_def thread_pool_stop_def stuck_inv_def intro: account_tp dest: barrier_kept
         split: if_splits option.splits worker_pc.splits\<close>)
qed

lemma stuck_run:
  assumes "finite T" "int (card T) = n" "n < INT_MAX"
  shows "\<lbrakk>\<forall>act \<in> set acts. pool_allowed sp to T act; stuck_inv T n W s; pool_run acts s = Some s'\<rbrakk>
    \<Longrightarrow> stuck_inv T n (W + spurious_wakes acts) s'"
proof (induction acts arbitrary: W s)
  case (Cons a acts)
  obtain s1 where s1: "pool_exec a s = Some s1" "pool_run acts s1 = Some s'" using Cons.prems(3) by (auto split: option.splits)
  have "stuck_inv T n (W + of_bool (is_spurious a)) s1" using stuck_step [of sp to T a, OF _ assms Cons.prems(2) s1(1)] Cons.prems(1) by simp
  from Cons.IH [OF _ this s1(2)] Cons.prems(1) show ?case by (cases "is_spurious a") (simp_all add: spurious_wakes_def add.assoc)
qed (simp add: spurious_wakes_def)

section \<open>Properties\<close>

text \<open>
  C11: tasks are handed out in the order they were enqueued.  For every sequence of
  enqueues (with fresh nodes and non-NULL functions) and removals on a fresh pool, the tasks
  removed are the first of the tasks enqueued, in order, and the linked list holds the rest.
\<close>

theorem thread_pool_fifo:
  assumes "thread_pool_init x y z raw cr n = Inr tp"
    and "drive pool_put pool_get pool_can_put pool_can_get ops tp = (ins, outs, tp')"
  shows "outs = take (length outs) ins \<and> pool_content tp' = drop (length outs) ins \<and> pool_inv tp'"
proof -
  have "pool_rep tp []" using assms(1) by (auto simp: thread_pool_init_def pool_rep_def split: if_splits)
  then have "pool_inv tp" "pool_content tp = []" by (auto simp: pool_inv_def pool_content_rep)
  then show ?thesis using pool.drive_from_empty [OF _ _ assms(2)] pool.drive_fifo [OF _ assms(2)] by blast
qed

definition fresh_pool :: "int \<Rightarrow> thread_pool" where
  "fresh_pool n = \<lparr>tp_num_threads = n, tp_heap = Map.empty, tp_head = None, tp_tail = None,
     tp_barrier = \<lparr>bar_count = 0, bar_total = n + 1\<rparr>, tp_shutdown = 0\<rparr>"

lemma fresh_pool_init: "0 \<le> n \<Longrightarrow> thread_pool_init True True True raw (\<lambda>_. 0) n = Inr (fresh_pool n)"
  by (simp add: thread_pool_init_def fresh_pool_def barrier_init_def list_ex_iff)

lemma fresh_pool_drive:
  "fst (drive pool_put pool_get pool_can_put pool_can_get [Put (7, Some 1, 10), Put (8, Some 2, 20), Get, Put (7, Some 3, 0), Get] (fresh_pool 2))
    = [(7, Some 1, 10), (8, Some 2, 20)]
   \<and> fst (snd (drive pool_put pool_get pool_can_put pool_can_get [Put (7, Some 1, 10), Put (8, Some 2, 20), Get, Put (7, Some 3, 0), Get] (fresh_pool 2)))
    = [(7, Some 1, 10), (8, Some 2, 20)]"
  by (simp add: fresh_pool_def pool_put_def pool_get_def pool_can_put_def pool_can_get_def thread_pool_enqueue_def
      worker_take_def take_head_def item_at_def)

theorem thread_pool_fifo_witness:
  "\<exists>tp'. drive pool_put pool_get pool_can_put pool_can_get [Put (7, Some 1, 10), Put (8, Some 2, 20), Get, Put (7, Some 3, 0), Get] (fresh_pool 2)
     = ([(7, Some 1, 10), (8, Some 2, 20)], [(7, Some 1, 10), (8, Some 2, 20)], tp') \<and> pool_content tp' = []"
proof -
  let ?d = "drive pool_put pool_get pool_can_put pool_can_get [Put (7, Some 1, 10), Put (8, Some 2, 20), Get, Put (7, Some 3, 0), Get] (fresh_pool 2)"
  have d: "?d = ([(7, Some 1, 10), (8, Some 2, 20)], [(7, Some 1, 10), (8, Some 2, 20)], snd (snd ?d))"
    using fresh_pool_drive by (simp add: prod_eq_iff)
  from thread_pool_fifo [OF fresh_pool_init d] show ?thesis using d by (intro exI [of _ "snd (snd ?d)"]) simp
qed

text \<open>
  C12: no task is handed out twice as long as no condition wait times out.  In every execution
  of any workers and any clients without a timeout, two workers never hold the same task and
  the tasks workers hold are live and not in the queue.
\<close>

theorem thread_pool_exclusive_handover:
  assumes "thread_pool_init x y z raw cr n = Inr tp" "\<forall>act \<in> set acts. pool_allowed sp False T act"
    "pool_run acts (pool_start tp) = Some s" "held (ps_pc s t) = Some a"
  shows "(\<forall>u. held (ps_pc s u) = Some a \<longrightarrow> u = t) \<and> tp_heap (ps_tp s) a \<noteq> None
    \<and> (\<exists>as. pool_rep (ps_tp s) as \<and> a \<notin> set as)"
proof -
  have "handover_inv s"
    using pool_run_invariant [of acts _ s "pool_allowed sp False T" handover_inv, OF assms(3,2) handover_start [OF assms(1)]] handover_step
    by blast
  then obtain as where "handover_rep (ps_tp s) (ps_pc s) as" by (auto simp: handover_inv_def)
  with assms(4) show ?thesis unfolding handover_rep_def by blast
qed

text \<open>A client enqueues two tasks and both workers take one, regularly.\<close>

definition two_takes :: "pool_act list" where
  "two_takes = [Enqueue 7 (Some 1) 10, Enqueue 8 (Some 2) 20, Test 1, Lock 1, Test 2, Lock 2]"

lemmas pool_eval = fresh_pool_def pool_start_def thread_pool_enqueue_def worker_section_def worker_woken_def worker_unlocked_def
  worker_take_def take_head_def move_def worker_arrive_def barrier_arrive_def worker_run_def release_all_def

theorem thread_pool_exclusive_handover_witness:
  "\<exists>s. pool_run two_takes (pool_start (fresh_pool 2)) = Some s \<and> ps_pc s 1 = HasTask 7 \<and> ps_pc s 2 = HasTask 8
     \<and> held (ps_pc s 3) \<noteq> Some 7"
proof -
  have "\<exists>s. pool_run two_takes (pool_start (fresh_pool 2)) = Some s \<and> ps_pc s 1 = HasTask 7 \<and> ps_pc s 2 = HasTask 8"
    by (simp add: two_takes_def pool_eval)
  then obtain s where s: "pool_run two_takes (pool_start (fresh_pool 2)) = Some s" "ps_pc s 1 = HasTask 7" "ps_pc s 2 = HasTask 8" by blast
  have ok: "\<forall>act \<in> set two_takes. pool_allowed False False {1, 2} act" by (simp add: two_takes_def)
  have h: "held (ps_pc s 1) = Some 7" using s(2) by simp
  have "\<forall>u. held (ps_pc s u) = Some 7 \<longrightarrow> u = 1"
    using thread_pool_exclusive_handover [OF fresh_pool_init ok s(1) h] by simp
  then have "held (ps_pc s 3) \<noteq> Some 7" by (metis numeral_eq_one_iff semiring_norm(86))
  with s show ?thesis by blast
qed

text \<open>
  After a timeout the hand-over breaks.  The timeout branch of \<open>worker_thread\<close> unlocks the
  mutex and continues the inner loop without locking it again; two workers that timed out
  can then both read the same head and both take the same task.
\<close>

theorem thread_pool_double_take_after_timeout:
  "\<exists>s. pool_run [Test 1, Lock 1, Test 2, Lock 2, CondWake 1 ETIMEDOUT, CondWake 2 ETIMEDOUT, Enqueue 7 (Some 1) 10,
        FetchUnlocked 1, FetchUnlocked 2, TakeUnlocked 1, TakeUnlocked 2] (pool_start (fresh_pool 2)) = Some s
     \<and> ps_pc s 1 = Took 7 \<and> ps_pc s 2 = Took 7"
  by (simp add: pool_eval)

text \<open>
  C16: how many tasks can ever run.  \<open>thread_pool_init\<close> makes the barrier for one thread more than
  there are workers, and only the workers wait at it.  In every execution of the pool of n
  workers, with any timeouts and any spurious wake-ups of the barrier's condition wait, which
  POSIX permits, the task functions called are at most n + 1 for each spurious wake-up that has
  occurred.  So without one no task is ever called: the first call of a task always comes after
  a spurious wake-up.
\<close>

theorem thread_pool_no_task_runs:
  assumes "thread_pool_init x y True raw cr n = Inr tp" "finite T" "int (card T) = n" "n < INT_MAX"
    "\<forall>act \<in> set acts. pool_allowed spurious timeouts T act" "pool_run acts (pool_start tp) = Some s"
  shows "int (length (ps_ran s)) \<le> (n + 1) * spurious_wakes acts
    \<and> (ps_ran s \<noteq> [] \<longrightarrow> (\<exists>t. SpuriousWake t \<in> set acts))"
proof -
  have n: "0 \<le> n" using assms(3) by simp
  then have "stuck_inv T n 0 (pool_start tp)"
    using assms(1) by (auto simp: stuck_inv_def barrier_account_def thread_pool_init_def pool_start_def barrier_init_def split: if_splits)
  then have "stuck_inv T n (spurious_wakes acts) s" using stuck_run [OF assms(2-5) _ assms(6), of 0] by simp
  then obtain q w where "0 \<le> w" "0 \<le> q" "q + w \<le> spurious_wakes acts"
    "int (length (ps_ran s)) + tcount T (\<lambda>t. released (ps_pc s t)) \<le> (n + 1) * q + w"
    unfolding stuck_inv_def barrier_account_def by blast
  moreover have "0 \<le> tcount T (\<lambda>t. released (ps_pc s t))" by simp
  moreover have "(n + 1) * q + w \<le> (n + 1) * (q + w)" using n \<open>0 \<le> w\<close> by (simp add: algebra_simps)
  moreover have "(n + 1) * (q + w) \<le> (n + 1) * spurious_wakes acts" using n \<open>q + w \<le> spurious_wakes acts\<close> by (simp add: mult_left_mono)
  ultimately have bound: "int (length (ps_ran s)) \<le> (n + 1) * spurious_wakes acts" by linarith
  have "\<exists>t. SpuriousWake t \<in> set acts" if "ps_ran s \<noteq> []"
  proof -
    have "spurious_wakes acts \<noteq> 0" using bound that by (intro notI) simp
    then have "filter is_spurious acts \<noteq> []" by (auto simp: spurious_wakes_def)
    then obtain act where "act \<in> set acts" "is_spurious act" by (meson filter_empty_conv)
    then show ?thesis by (metis is_spurious.elims(2))
  qed
  with bound show ?thesis by blast
qed

text \<open>Two workers wait at the barrier, one of them is woken spuriously and calls its task.\<close>

definition spurious_run :: "pool_act list" where
  "spurious_run = two_takes @ [Arrive 1, Arrive 2, SpuriousWake 1, RunTask 1]"

theorem thread_pool_no_task_runs_witness:
  "\<exists>s. pool_run spurious_run (pool_start (fresh_pool 2)) = Some s \<and> ps_pc s 1 = Ran 7 \<and> ps_pc s 2 = AtBarrier 8
     \<and> ps_ran s = [(1, 10)] \<and> int (length (ps_ran s)) \<le> 3 * 1 \<and> (\<exists>t. SpuriousWake t \<in> set spurious_run)"
proof -
  have "\<exists>s. pool_run spurious_run (pool_start (fresh_pool 2)) = Some s \<and> ps_pc s 1 = Ran 7 \<and> ps_pc s 2 = AtBarrier 8 \<and> ps_ran s = [(1, 10)]"
    by (simp add: spurious_run_def two_takes_def pool_eval)
  then obtain s where s: "pool_run spurious_run (pool_start (fresh_pool 2)) = Some s" "ps_pc s 1 = Ran 7" "ps_pc s 2 = AtBarrier 8"
    "ps_ran s = [(1, 10)]" by blast
  have ok: "\<forall>act \<in> set spurious_run. pool_allowed True False {1, 2} act" by (simp add: spurious_run_def two_takes_def)
  have "spurious_wakes spurious_run = 1" by (simp add: spurious_wakes_def spurious_run_def two_takes_def)
  then show ?thesis using thread_pool_no_task_runs [OF fresh_pool_init _ _ _ ok s(1)] s by (intro exI [of _ s]) simp
qed

text \<open>
  C40: \<open>thread_pool_destroy\<close> frees every queued task exactly once, if its joins return.  When every
  worker comes to its end and the fuel is at least the length of the list, the loop ends, frees
  the nodes of the queue, and touches no other node; when one worker does not, the call never
  returns.
\<close>

theorem thread_pool_destroy_frees_queue:
  assumes "pool_rep tp as" "length as \<le> fuel"
  shows "thread_pool_destroy ends fuel tp =
    (if \<forall>i < nat (tp_num_threads tp). ends i then Some (\<lambda>a. if a \<in> set as then None else tp_heap tp a) else None)"
proof -
  have "tchain h p as \<Longrightarrow> distinct as \<Longrightarrow> free_tasks fuel h p = Some (\<lambda>a. if a \<in> set as then None else h a)" for h p
    using assms(2)
  proof (induction as arbitrary: h p fuel)
    case Nil
    then show ?case by (simp add: fun_eq_iff)
  next
    case (Cons a as)
    obtain tk f where f: "h a = Some tk" "tchain h (tk_next tk) as" "fuel = Suc f" "length as \<le> f" "p = Some a"
      using Cons.prems by (cases fuel) (auto split: option.splits)
    have "tchain (h(a := None)) (tk_next tk) as" by (rule tchain_frame [OF f(2)]) (use Cons.prems in auto)
    then have "free_tasks f (h(a := None)) (tk_next tk) = Some (\<lambda>b. if b \<in> set as then None else (h(a := None)) b)"
      using Cons.prems(2) by (intro Cons.IH [OF _ _ f(4)]) (simp_all del: fun_upd_apply)
    moreover have "(\<lambda>b. if b \<in> set as then None else (h(a := None)) b) = (\<lambda>b. if b \<in> set (a # as) then None else h b)" by auto
    ultimately show ?case using f by simp
  qed
  with assms(1) show ?thesis by (auto simp: pool_rep_def thread_pool_destroy_def thread_pool_stop_def list_all_iff Let_def)
qed

definition pool_of_two :: thread_pool where
  "pool_of_two = pool_put (8, Some 2, 20) (pool_put (7, Some 1, 10) (fresh_pool 2))"

theorem thread_pool_destroy_frees_queue_witness:
  "thread_pool_destroy (\<lambda>_. True) 2 pool_of_two = Some Map.empty"
proof -
  have "pool_rep pool_of_two [7, 8]"
    by (simp add: pool_of_two_def fresh_pool_def pool_put_def thread_pool_enqueue_def pool_rep_def)
  moreover have "(\<lambda>a. if a \<in> set [7, 8] then None else tp_heap pool_of_two a) = Map.empty"
    by (auto simp: fun_eq_iff pool_of_two_def fresh_pool_def pool_put_def thread_pool_enqueue_def)
  ultimately show ?thesis using thread_pool_destroy_frees_queue [of pool_of_two "[7, 8]" 2 "\<lambda>_. True"] by simp
qed

end
