(* ===== verification/Dining_Philosophers.thy ===== *)
theory Dining_Philosophers
  imports Prelude
begin

text \<open>
  \<open>dining_philosophers.c\<close>: the asymmetric protocol that the stages of \<open>assembly_line.c\<close> run.
  A fork is a non-recursive mutex, so its state is its owner; \<open>dining_philosophers_eat\<close> is two
  blocking lock calls and hence two steps of a thread, \<open>dining_philosophers_done\<close> one.
\<close>

record dining_philosophers =
  num_philosophers :: int
  forks :: "tid option list"
  dp_running :: int

text \<open>
  \<open>dining_philosophers_init\<close>: the results of the two \<open>malloc\<close> calls, of each
  \<open>pthread_mutex_init\<close> and the value of \<open>errno\<close> are inputs.
\<close>

definition dining_philosophers_init :: "bool \<Rightarrow> bool \<Rightarrow> (nat \<Rightarrow> int) \<Rightarrow> int \<Rightarrow> int \<Rightarrow> int + dining_philosophers" where
  "dining_philosophers_init alloc_dp alloc_forks mutex_init errno n =
     (if n \<le> 0 then Inl (- EINVAL)
      else if \<not> alloc_dp then Inl (- ENOMEM)
      else if \<not> alloc_forks then Inl (- ENOMEM)
      else if list_ex (\<lambda>i. mutex_init i \<noteq> 0) [0..<nat n] then Inl (- errno)
      else Inr \<lparr>num_philosophers = n, forks = replicate (nat n) None, dp_running = 1\<rparr>)"

definition dining_philosophers_destroy :: "(addr \<rightharpoonup> dining_philosophers) \<Rightarrow> addr option \<Rightarrow> (addr \<rightharpoonup> dining_philosophers)" where
  "dining_philosophers_destroy h dp = (case dp of None \<Rightarrow> h | Some a \<Rightarrow> h(a := None))"

text \<open>The test at the head of think, eat and done; NULL is \<open>None\<close>.\<close>

definition dp_guard :: "dining_philosophers option \<Rightarrow> int \<Rightarrow> int" where
  "dp_guard dp i = (case dp of
      None \<Rightarrow> - EINVAL
    | Some d \<Rightarrow> if i < 0 \<or> i \<ge> num_philosophers d then - EINVAL
               else if dp_running d = 0 then - EAGAIN else 0)"

definition dining_philosophers_think :: "dining_philosophers option \<Rightarrow> int \<Rightarrow> int" where
  "dining_philosophers_think dp i = dp_guard dp i"

definition next_fork :: "dining_philosophers \<Rightarrow> nat \<Rightarrow> nat" where
  "next_fork d i = (i + 1) mod nat (num_philosophers d)"

definition first_fork :: "dining_philosophers \<Rightarrow> nat \<Rightarrow> nat" where
  "first_fork d i = (if i mod 2 = 0 then i else next_fork d i)"

definition second_fork :: "dining_philosophers \<Rightarrow> nat \<Rightarrow> nat" where
  "second_fork d i = (if i mod 2 = 0 then next_fork d i else i)"

definition fork_lock :: "dining_philosophers \<Rightarrow> nat \<Rightarrow> tid \<Rightarrow> dining_philosophers option" where
  "fork_lock d k t = (case forks d ! k of None \<Rightarrow> Some (d\<lparr>forks := (forks d)[k := Some t]\<rparr>) | Some _ \<Rightarrow> None)"

definition fork_unlock :: "dining_philosophers \<Rightarrow> nat \<Rightarrow> dining_philosophers" where
  "fork_unlock d k = d\<lparr>forks := (forks d)[k := None]\<rparr>"

text \<open>The two lock calls of eat (\<open>None\<close>: the call blocks), and done.\<close>

definition eat_first :: "dining_philosophers \<Rightarrow> nat \<Rightarrow> dining_philosophers option" where
  "eat_first d i = fork_lock d (first_fork d i) i"

definition eat_second :: "dining_philosophers \<Rightarrow> nat \<Rightarrow> dining_philosophers option" where
  "eat_second d i = fork_lock d (second_fork d i) i"

definition dining_philosophers_done :: "dining_philosophers \<Rightarrow> int \<Rightarrow> dining_philosophers \<times> int" where
  "dining_philosophers_done d i =
     (let r = dp_guard (Some d) i in
      if r \<noteq> 0 then (d, r)
      else (fork_unlock (fork_unlock d (nat i)) (next_fork d (nat i)), 0))"

text \<open>Eat as one call, when no other thread runs in between.\<close>

definition dining_philosophers_eat :: "dining_philosophers \<Rightarrow> int \<Rightarrow> dining_philosophers \<times> outcome" where
  "dining_philosophers_eat d i =
     (let r = dp_guard (Some d) i in
      if r \<noteq> 0 then (d, Ret r)
      else case eat_first d (nat i) of
          None \<Rightarrow> (d, Block)
        | Some d1 \<Rightarrow> (case eat_second d1 (nat i) of None \<Rightarrow> (d1, Block) | Some d2 \<Rightarrow> (d2, Ret 0)))"

section \<open>The table\<close>

datatype phil = Thinking | OneFork | Eating

record table =
  tb :: dining_philosophers
  phils :: "nat \<Rightarrow> phil"

inductive dp_step :: "table \<Rightarrow> table \<Rightarrow> bool" where
  take_first: "\<lbrakk>dp_guard (Some (tb s)) (int i) = 0; phils s i = Thinking; eat_first (tb s) i = Some d\<rbrakk>
    \<Longrightarrow> dp_step s (s\<lparr>tb := d, phils := (phils s)(i := OneFork)\<rparr>)"
| take_second: "\<lbrakk>phils s i = OneFork; eat_second (tb s) i = Some d\<rbrakk>
    \<Longrightarrow> dp_step s (s\<lparr>tb := d, phils := (phils s)(i := Eating)\<rparr>)"
| put_down: "\<lbrakk>phils s i = Eating; dining_philosophers_done (tb s) (int i) = (d, 0)\<rbrakk>
    \<Longrightarrow> dp_step s (s\<lparr>tb := d, phils := (phils s)(i := Thinking)\<rparr>)"

definition laid_table :: "dining_philosophers \<Rightarrow> table" where
  "laid_table d = \<lparr>tb = d, phils = (\<lambda>_. Thinking)\<rparr>"

inductive dp_reach :: "table \<Rightarrow> table \<Rightarrow> bool" for s0 where
  dp_refl: "dp_reach s0 s0"
| dp_trans: "\<lbrakk>dp_reach s0 s; dp_step s s'\<rbrakk> \<Longrightarrow> dp_reach s0 s'"

inductive_cases dp_stepE: "dp_step s s'"

text \<open>Who should own a fork, given what the philosophers do.\<close>

definition holds_fork :: "table \<Rightarrow> nat \<Rightarrow> nat \<Rightarrow> bool" where
  "holds_fork s i k \<longleftrightarrow> (phils s i = OneFork \<and> k = first_fork (tb s) i)
     \<or> (phils s i = Eating \<and> (k = first_fork (tb s) i \<or> k = second_fork (tb s) i))"

definition dp_inv :: "nat \<Rightarrow> table \<Rightarrow> bool" where
  "dp_inv n s \<longleftrightarrow> num_philosophers (tb s) = int n \<and> dp_running (tb s) \<noteq> 0 \<and> length (forks (tb s)) = n
     \<and> (\<forall>i. phils s i \<noteq> Thinking \<longrightarrow> i < n)
     \<and> (\<forall>k < n. \<forall>i. forks (tb s) ! k = Some i \<longleftrightarrow> holds_fork s i k)"

lemma fork_parity:
  "even i \<Longrightarrow> first_fork d i = i" "even i \<Longrightarrow> second_fork d i = next_fork d i"
  "odd i \<Longrightarrow> first_fork d i = next_fork d i" "odd i \<Longrightarrow> second_fork d i = i"
  by (auto simp: first_fork_def second_fork_def)

lemma fork_bounds:
  assumes "num_philosophers d = int n" "i < n"
  shows "first_fork d i < n" "second_fork d i < n" "next_fork d i < n"
  using assms by (auto simp: first_fork_def second_fork_def next_fork_def)

lemma forks_differ:
  assumes "num_philosophers d = int n" "i < n" "2 \<le> n"
  shows "first_fork d i \<noteq> second_fork d i"
  using assms by (auto simp: first_fork_def second_fork_def next_fork_def mod_Suc)

lemma fork_names_stable [simp]:
  "first_fork (d\<lparr>forks := f\<rparr>) = first_fork d" "second_fork (d\<lparr>forks := f\<rparr>) = second_fork d"
  "next_fork (d\<lparr>forks := f\<rparr>) = next_fork d"
  by (simp_all add: first_fork_def second_fork_def next_fork_def fun_eq_iff)

lemma fork_lock_Some: "fork_lock d k t = Some d' \<longleftrightarrow> forks d ! k = None \<and> d' = d\<lparr>forks := (forks d)[k := Some t]\<rparr>"
  by (auto simp: fork_lock_def split: option.splits)

lemma done_forks: "{i, next_fork d i} = {first_fork d i, second_fork d i}"
  by (auto simp: first_fork_def second_fork_def)

lemma holds_fork_upd:
  "holds_fork (s\<lparr>tb := (tb s)\<lparr>forks := f\<rparr>, phils := (phils s)(i := p)\<rparr>) j k =
     (if j = i then (p = OneFork \<and> k = first_fork (tb s) i)
        \<or> (p = Eating \<and> (k = first_fork (tb s) i \<or> k = second_fork (tb s) i))
      else holds_fork s j k)"
  by (auto simp: holds_fork_def)

lemma dp_inv_owner: "\<lbrakk>dp_inv n s; k < n\<rbrakk> \<Longrightarrow> forks (tb s) ! k = Some i \<longleftrightarrow> holds_fork s i k"
  by (simp add: dp_inv_def)

lemma dp_inv_length: "dp_inv n s \<Longrightarrow> length (forks (tb s)) = n"
  by (simp add: dp_inv_def)

lemma dp_inv_bounds:
  "\<lbrakk>dp_inv n s; i < n\<rbrakk> \<Longrightarrow> first_fork (tb s) i < n"
  "\<lbrakk>dp_inv n s; i < n\<rbrakk> \<Longrightarrow> second_fork (tb s) i < n"
  "\<lbrakk>dp_inv n s; i < n\<rbrakk> \<Longrightarrow> next_fork (tb s) i < n"
  by (simp_all add: dp_inv_def fork_bounds)

lemma dp_inv_free: "\<lbrakk>dp_inv n s; k < n; forks (tb s) ! k = None\<rbrakk> \<Longrightarrow> \<not> holds_fork s j k"
  by (simp flip: dp_inv_owner)

lemma dp_inv_take_first:
  assumes "dp_inv n s" "i < n" "phils s i = Thinking" "eat_first (tb s) i = Some d"
  shows "dp_inv n (s\<lparr>tb := d, phils := (phils s)(i := OneFork)\<rparr>)"
proof -
  let ?k = "first_fork (tb s) i"
  have d: "d = (tb s)\<lparr>forks := (forks (tb s))[?k := Some i]\<rparr>" and free: "forks (tb s) ! ?k = None"
    using assms(4) by (auto simp: eat_first_def fork_lock_Some)
  have "\<not> holds_fork s j ?k" for j using dp_inv_free free dp_inv_bounds(1) assms(1,2) by blast
  moreover have "\<not> holds_fork s i k" for k using assms(3) by (simp add: holds_fork_def)
  ultimately have "((forks (tb s))[?k := Some i] ! k = Some j) =
      (if j = i then k = ?k else holds_fork s j k)" if "k < n" for k j
    using dp_inv_owner [OF assms(1) that, of j] dp_inv_length [OF assms(1)] dp_inv_bounds(1) [OF assms(1,2)]
    by (auto simp: nth_list_update)
  then show ?thesis using assms(1,2) unfolding dp_inv_def d holds_fork_upd by simp
qed

lemma dp_inv_take_second:
  assumes "dp_inv n s" "phils s i = OneFork" "eat_second (tb s) i = Some d"
  shows "dp_inv n (s\<lparr>tb := d, phils := (phils s)(i := Eating)\<rparr>)"
proof -
  let ?k = "second_fork (tb s) i"
  have i: "i < n" using assms(1,2) by (force simp: dp_inv_def)
  have d: "d = (tb s)\<lparr>forks := (forks (tb s))[?k := Some i]\<rparr>" and free: "forks (tb s) ! ?k = None"
    using assms(3) by (auto simp: eat_second_def fork_lock_Some)
  have "\<not> holds_fork s j ?k" for j using dp_inv_free free dp_inv_bounds(2) assms(1) i by blast
  moreover have "holds_fork s i k \<longleftrightarrow> k = first_fork (tb s) i" for k using assms(2) by (simp add: holds_fork_def)
  ultimately have "((forks (tb s))[?k := Some i] ! k = Some j) =
      (if j = i then k = first_fork (tb s) i \<or> k = ?k else holds_fork s j k)" if "k < n" for k j
    using dp_inv_owner [OF assms(1) that, of j] dp_inv_length [OF assms(1)] dp_inv_bounds(2) [OF assms(1) i]
    by (auto simp: nth_list_update)
  then show ?thesis using assms(1) i unfolding dp_inv_def d holds_fork_upd by simp
qed

lemma dp_inv_put_down:
  assumes "dp_inv n s" "phils s i = Eating" "dining_philosophers_done (tb s) (int i) = (d, 0)"
  shows "dp_inv n (s\<lparr>tb := d, phils := (phils s)(i := Thinking)\<rparr>)"
proof -
  have i: "i < n" using assms(1,2) by (force simp: dp_inv_def)
  let ?f = "(forks (tb s))[i := None, next_fork (tb s) i := None]"
  have d: "d = (tb s)\<lparr>forks := ?f\<rparr>"
    using assms(3) by (auto simp: dining_philosophers_done_def fork_unlock_def Let_def split: if_splits)
  have mine: "holds_fork s i k \<longleftrightarrow> k \<in> {i, next_fork (tb s) i}" for k
    using assms(2) unfolding done_forks by (simp add: holds_fork_def)
  have other: "\<not> holds_fork s j k" if "j \<noteq> i" "k \<in> {i, next_fork (tb s) i}" for j k
  proof -
    have "k < n" using that i assms(1) fork_bounds by (auto simp: dp_inv_def)
    then show ?thesis using mine [of k] that assms(1) unfolding dp_inv_def by (metis option.inject)
  qed
  have "(?f ! k = Some j) = (j \<noteq> i \<and> holds_fork s j k)" if "k < n" for k j
  proof (cases "k \<in> {i, next_fork (tb s) i}")
    case True
    then have "?f ! k = None"
      using i dp_inv_length [OF assms(1)] dp_inv_bounds(3) [OF assms(1) i] by (auto simp: nth_list_update)
    then show ?thesis using other [OF _ True] by auto
  next
    case False
    then show ?thesis using dp_inv_owner [OF assms(1) that, of j] mine [of k] by auto
  qed
  then show ?thesis using assms(1) i unfolding dp_inv_def d holds_fork_upd by simp
qed

lemma dp_inv_step: "\<lbrakk>dp_step s s'; dp_inv n s\<rbrakk> \<Longrightarrow> dp_inv n s'"
proof (erule dp_stepE)
  fix i d
  assume "dp_inv n s" "dp_guard (Some (tb s)) (int i) = 0" "phils s i = Thinking" "eat_first (tb s) i = Some d"
    and s': "s' = s\<lparr>tb := d, phils := (phils s)(i := OneFork)\<rparr>"
  moreover from this have "i < n" by (auto simp: dp_inv_def dp_guard_def split: if_splits)
  ultimately show ?thesis by (simp add: dp_inv_take_first)
qed (simp_all add: dp_inv_take_second dp_inv_put_down)

lemma dp_inv_laid:
  "\<lbrakk>num_philosophers d = int n; dp_running d \<noteq> 0; forks d = replicate n None\<rbrakk> \<Longrightarrow> dp_inv n (laid_table d)"
  by (simp add: dp_inv_def laid_table_def holds_fork_def)

lemma dp_inv_init:
  assumes "dining_philosophers_init True True mi e (int n) = Inr d"
  shows "dp_inv n (laid_table d)" and "1 \<le> n"
  using assms by (auto simp: dining_philosophers_init_def intro!: dp_inv_laid split: if_splits)

lemma dp_inv_reach: "\<lbrakk>dp_reach s0 s; dp_inv n s0\<rbrakk> \<Longrightarrow> dp_inv n s"
  by (induction rule: dp_reach.induct) (auto intro: dp_inv_step)

section \<open>Deadlock freedom\<close>

text \<open>
  An order on the forks along which every philosopher of a table of at least two picks:
  odd forks last, among the even ones the last fork of an odd table first.
\<close>

definition fork_rank :: "nat \<Rightarrow> nat \<Rightarrow> nat" where
  "fork_rank n k = (if odd k then 2 * n + k else if k = n - 1 then 0 else k + 1)"

lemma fork_rank_increases:
  assumes "num_philosophers d = int n" "i < n" "2 \<le> n"
  shows "fork_rank n (first_fork d i) < fork_rank n (second_fork d i)"
proof -
  have n: "nat (num_philosophers d) = n" using assms(1) by simp
  consider "Suc i < n" "even i" | "Suc i < n" "odd i" | "Suc i = n" "even i" | "Suc i = n" "odd i"
    using assms(2) by fastforce
  then show ?thesis
    using assms(2,3) by cases (auto simp: fork_parity next_fork_def n fork_rank_def)
qed

lemma finite_has_maximal_rank:
  fixes r :: "nat \<Rightarrow> nat"
  assumes "finite W" "W \<noteq> {}"
  shows "\<exists>i \<in> W. \<forall>k \<in> W. r k \<le> r i"
proof -
  have "Max (r ` W) \<in> r ` W" using assms by simp
  then obtain i where "i \<in> W" "r i = Max (r ` W)" by auto
  then show ?thesis using assms by (metis Max_ge finite_imageI imageI)
qed

text \<open>If anyone holds a fork, someone can take the second fork or put both down.\<close>

lemma dp_someone_advances:
  assumes inv: "dp_inv n s" and n: "2 \<le> n" and busy: "phils s j \<noteq> Thinking"
  shows "\<exists>i. phils s i = Eating \<or> (phils s i = OneFork \<and> forks (tb s) ! second_fork (tb s) i = None)"
proof (rule ccontr)
  assume stuck: "\<not> ?thesis"
  let ?W = "{i. phils s i = OneFork}" and ?r = "\<lambda>i. fork_rank n (second_fork (tb s) i)"
  have nd: "num_philosophers (tb s) = int n" and lt: "\<And>i. i \<in> ?W \<Longrightarrow> i < n"
    using inv by (force simp: dp_inv_def)+
  then have "finite ?W" by (metis finite_lessThan lessThan_iff rev_finite_subset subsetI)
  moreover have "j \<in> ?W" using stuck busy by (cases "phils s j") auto
  ultimately obtain i where i: "i \<in> ?W" "\<And>k. k \<in> ?W \<Longrightarrow> ?r k \<le> ?r i"
    using finite_has_maximal_rank [of ?W ?r] by blast
  then obtain k where k: "forks (tb s) ! second_fork (tb s) i = Some k" using stuck by auto
  have "second_fork (tb s) i < n" using fork_bounds [OF nd lt [OF i(1)]] by simp
  then have "holds_fork s k (second_fork (tb s) i)" using inv k by (auto simp: dp_inv_def)
  then have "k \<in> ?W" "second_fork (tb s) i = first_fork (tb s) k" using stuck by (auto simp: holds_fork_def)
  then have "?r i < ?r k" using fork_rank_increases [OF nd lt n] by simp
  with i(2) [OF \<open>k \<in> ?W\<close>] show False by simp
qed

lemma dp_progress_step:
  assumes "dp_inv n s" "phils s i = Eating \<or> (phils s i = OneFork \<and> forks (tb s) ! second_fork (tb s) i = None)"
  shows "\<exists>s'. dp_step s s' \<and> phils s' i \<noteq> phils s i"
proof -
  have i: "i < n" using assms by (force simp: dp_inv_def)
  show ?thesis
  proof (cases "phils s i = Eating")
    case True
    have "dp_guard (Some (tb s)) (int i) = 0" using assms(1) i by (simp add: dp_inv_def dp_guard_def)
    then obtain d where "dining_philosophers_done (tb s) (int i) = (d, 0)"
      by (auto simp: dining_philosophers_done_def Let_def)
    from dp_step.put_down [OF True this] show ?thesis using True by (intro exI conjI) (assumption, simp)
  next
    case False
    then have one: "phils s i = OneFork" and "forks (tb s) ! second_fork (tb s) i = None" using assms(2) by auto
    then obtain d where "eat_second (tb s) i = Some d" by (auto simp: eat_second_def fork_lock_def)
    from dp_step.take_second [OF one this] show ?thesis using one by (intro exI conjI) (assumption, simp)
  qed
qed

lemma dp_idle_step:
  assumes "dp_inv n s" "1 \<le> n" "\<forall>j. phils s j = Thinking"
  shows "\<exists>s'. dp_step s s'"
proof -
  have "first_fork (tb s) 0 = 0" by (simp add: first_fork_def)
  moreover have "forks (tb s) ! 0 = None"
    using dp_inv_owner [OF assms(1), of 0] assms(2,3) by (cases "forks (tb s) ! 0") (auto simp: holds_fork_def)
  ultimately obtain d where d: "eat_first (tb s) 0 = Some d" by (auto simp: eat_first_def fork_lock_def)
  have g: "dp_guard (Some (tb s)) (int 0) = 0" using assms(1,2) by (simp add: dp_inv_def dp_guard_def)
  have "phils s 0 = Thinking" using assms(3) by simp
  from dp_step.take_first [OF g this d] show ?thesis by blast
qed

section \<open>Properties\<close>

text \<open>
  C4: no deadlock at a table of at least two.  From a successful
  \<open>dining_philosophers_init\<close> with two or more philosophers, every reachable state has a next
  step; and whenever some philosopher holds a fork, one that holds a fork can go on (take its
  second fork, or put both down) without waiting for anyone.
\<close>

theorem dining_deadlock_free:
  assumes "dining_philosophers_init True True mi e (int n) = Inr d" "2 \<le> n" "dp_reach (laid_table d) s"
  shows "(\<exists>s'. dp_step s s') \<and>
    ((\<exists>j. phils s j \<noteq> Thinking) \<longrightarrow> (\<exists>i s'. dp_step s s' \<and> phils s i \<noteq> Thinking \<and> phils s' i \<noteq> phils s i))"
proof -
  have inv: "dp_inv n s" using dp_inv_reach [OF assms(3)] dp_inv_init [OF assms(1)] by blast
  have busy: "\<exists>i s'. dp_step s s' \<and> phils s i \<noteq> Thinking \<and> phils s' i \<noteq> phils s i" if j: "phils s j \<noteq> Thinking" for j
  proof -
    obtain i where i: "phils s i = Eating \<or> (phils s i = OneFork \<and> forks (tb s) ! second_fork (tb s) i = None)"
      using dp_someone_advances [OF inv assms(2) j] by blast
    then have "phils s i \<noteq> Thinking" by auto
    with dp_progress_step [OF inv i] show ?thesis by blast
  qed
  then show ?thesis using dp_idle_step [OF inv] assms(2) by (cases "\<forall>j. phils s j = Thinking") fastforce+
qed

definition table5 :: dining_philosophers where
  "table5 = \<lparr>num_philosophers = 5, forks = replicate 5 None, dp_running = 1\<rparr>"

lemma table5_init: "dining_philosophers_init True True (\<lambda>_. 0) 0 (int 5) = Inr table5"
  by (simp add: dining_philosophers_init_def table5_def list_ex_iff)

theorem dining_deadlock_free_witness:
  "\<exists>s'. dp_step (laid_table table5) s'"
  using dining_deadlock_free [OF table5_init _ dp_refl] by simp

text \<open>
  C7: neighbours never eat together.  Two philosophers that share a fork are not both between
  \<open>dining_philosophers_eat\<close> and \<open>dining_philosophers_done\<close>.
\<close>

theorem dining_mutual_exclusion:
  assumes "dining_philosophers_init True True mi e (int n) = Inr d" "dp_reach (laid_table d) s"
    and "phils s i = Eating" "phils s j = Eating" "{i, (i + 1) mod n} \<inter> {j, (j + 1) mod n} \<noteq> {}"
  shows "i = j"
proof -
  have inv: "dp_inv n s" using dp_inv_reach [OF assms(2)] dp_inv_init [OF assms(1)] by blast
  then have nd: "nat (num_philosophers (tb s)) = n" and lt: "i < n" "j < n" using assms(3,4) by (force simp: dp_inv_def)+
  have own: "holds_fork s x k" if "phils s x = Eating" "k \<in> {x, (x + 1) mod n}" for x k
  proof -
    have "k \<in> {first_fork (tb s) x, second_fork (tb s) x}"
      using that unfolding done_forks [symmetric] by (simp add: next_fork_def nd)
    with that(1) show ?thesis by (simp add: holds_fork_def)
  qed
  obtain k where k: "k \<in> {i, (i + 1) mod n}" "k \<in> {j, (j + 1) mod n}" using assms(5) by blast
  then have "k < n" using lt by auto
  then have "Some i = Some j"
    using own [OF assms(3) k(1)] own [OF assms(4) k(2)] dp_inv_owner [OF inv] by metis
  then show ?thesis by simp
qed

lemma table5_one_eats: "\<exists>s. dp_reach (laid_table table5) s \<and> phils s 0 = Eating \<and> phils s 1 = Thinking"
proof -
  let ?d1 = "table5\<lparr>forks := [Some 0, None, None, None, None]\<rparr>"
  let ?d2 = "table5\<lparr>forks := [Some 0, Some 0, None, None, None]\<rparr>"
  let ?s1 = "(laid_table table5)\<lparr>tb := ?d1, phils := (phils (laid_table table5))(0 := OneFork)\<rparr>"
  let ?s2 = "?s1\<lparr>tb := ?d2, phils := (phils ?s1)(0 := Eating)\<rparr>"
  have forks5: "forks table5 = [None, None, None, None, None]" by (simp add: table5_def numeral_eq_Suc)
  have "dp_step (laid_table table5) ?s1"
    by (rule dp_step.take_first) (simp_all add: laid_table_def dp_guard_def eat_first_def fork_lock_def first_fork_def forks5,
        simp_all add: table5_def)
  moreover have "dp_step ?s1 ?s2"
    by (rule dp_step.take_second) (simp_all add: laid_table_def eat_second_def fork_lock_def second_fork_def next_fork_def,
        simp_all add: table5_def)
  ultimately have "dp_reach (laid_table table5) ?s2" by (blast intro: dp_reach.intros)
  then show ?thesis by (intro exI [of _ ?s2]) (simp add: laid_table_def)
qed

theorem dining_mutual_exclusion_witness:
  "\<exists>s. dp_reach (laid_table table5) s \<and> phils s 0 = Eating \<and> phils s 1 \<noteq> Eating"
proof -
  obtain s where s: "dp_reach (laid_table table5) s" "phils s 0 = Eating" using table5_one_eats by blast
  have "phils s 1 \<noteq> Eating" using dining_mutual_exclusion [OF table5_init s(1,2), of 1] by auto
  with s show ?thesis by blast
qed

definition table1 :: dining_philosophers where
  "table1 = \<lparr>num_philosophers = 1, forks = [None], dp_running = 1\<rparr>"

text \<open>
  A table of one locks itself.  \<open>dining_philosophers_init\<close> accepts one philosopher, whose
  two forks are the same mutex; after the first lock call the second blocks on the caller's
  own fork, no step is possible any more, and the philosopher never eats.
\<close>

theorem dining_single_self_deadlock:
  "dining_philosophers_init True True (\<lambda>_. 0) 0 1 = Inr table1
   \<and> snd (dining_philosophers_eat table1 0) = Block
   \<and> (\<exists>s. dp_reach (laid_table table1) s \<and> phils s 0 = OneFork \<and> (\<nexists>s'. dp_step s s'))
   \<and> (\<nexists>s. dp_reach (laid_table table1) s \<and> phils s 0 = Eating)"
proof (intro conjI)
  let ?s1 = "\<lparr>tb = \<lparr>num_philosophers = 1, forks = [Some 0], dp_running = 1\<rparr>, phils = (\<lambda>_. Thinking)(0 := OneFork)\<rparr> :: table"
  let ?P = "\<lambda>s. s = laid_table table1 \<or> s = ?s1"
  have stuck: "\<not> dp_step ?s1 s'" for s'
    by (auto elim!: dp_stepE simp: dp_guard_def eat_first_def eat_second_def fork_lock_def first_fork_def second_fork_def
        next_fork_def split: if_splits)
  have only0: "dp_guard (Some table1) (int i) = 0 \<Longrightarrow> i = 0" for i
    by (auto simp: dp_guard_def table1_def split: if_splits)
  have first: "s' = ?s1" if "dp_step (laid_table table1) s'" for s'
    using that by (auto elim!: dp_stepE dest!: only0 simp: laid_table_def)
      (simp add: table1_def eat_first_def fork_lock_def first_fork_def)
  have step: "dp_step (laid_table table1) ?s1"
    using dp_step.take_first [of "laid_table table1" 0 "table1\<lparr>forks := [Some 0]\<rparr>"]
    by (simp add: laid_table_def table1_def dp_guard_def eat_first_def fork_lock_def first_fork_def)
  have all: "?P s" if "dp_reach (laid_table table1) s" for s
    using that by (induction rule: dp_reach.induct) (use stuck first in blast)+
  show "dining_philosophers_init True True (\<lambda>_. 0) 0 1 = Inr table1"
    by (simp add: dining_philosophers_init_def table1_def)
  show "snd (dining_philosophers_eat table1 0) = Block"
    by (simp add: dining_philosophers_eat_def dp_guard_def table1_def eat_first_def eat_second_def fork_lock_def
        first_fork_def second_fork_def next_fork_def)
  show "\<exists>s. dp_reach (laid_table table1) s \<and> phils s 0 = OneFork \<and> (\<nexists>s'. dp_step s s')"
    using dp_trans [OF dp_refl step] stuck by (intro exI [of _ ?s1]) simp
  show "\<nexists>s. dp_reach (laid_table table1) s \<and> phils s 0 = Eating"
    using all by (force simp: laid_table_def)
qed

end
