(* ===== verification/Assembly_Line.thy ===== *)
theory Assembly_Line
  imports Sensor_Data Barrier Dining_Philosophers
begin

text \<open>
  \<open>assembly_line.c\<close>: stage threads that meet at a barrier and then each add one to the
  temperature of a shared record.  The record is copied in and out under the line's mutex; the
  stages change it without that mutex and before they take their forks, so a stage's update is
  two steps, the read and the write of the temperature.  (\<open>temp += 1.0\<close> on the integer field
  adds one.)
\<close>

record assembly_line =
  al_num_stages :: int
  al_barrier :: barrier
  al_dp :: dining_philosophers
  al_data :: bme680_fifo_data
  al_running :: "bool list"

text \<open>
  \<open>assembly_line_init\<close>: the results of the allocations and of each \<open>pthread_create\<close> are inputs, as
  are the barrier, the table and the record, whose own initialisers' results are ignored.
\<close>

definition assembly_line_init ::
  "bool \<Rightarrow> bool \<Rightarrow> bool \<Rightarrow> (nat \<Rightarrow> int) \<Rightarrow> barrier \<Rightarrow> dining_philosophers \<Rightarrow> bme680_fifo_data \<Rightarrow> int \<Rightarrow> int + assembly_line" where
  "assembly_line_init alloc_al alloc_stages alloc_data pthread_create b dp raw n =
     (if \<not> alloc_al then Inl (- ENOMEM)
      else if \<not> alloc_stages then Inl (- ENOMEM)
      else if \<not> alloc_data then Inl (- ENOMEM)
      else if list_ex (\<lambda>i. pthread_create i \<noteq> 0) [0..<nat n] then Inl (- 1)
      else Inr \<lparr>al_num_stages = n, al_barrier = b, al_dp = dp, al_data = raw, al_running = replicate (nat n) True\<rparr>)"

text \<open>
  \<open>assembly_line_destroy\<close> cancels and joins the stages one by one; \<open>cancelled i\<close> says that stage \<open>i\<close> acts
  on the cancellation, which runs \<open>stage_cleanup\<close>, and does not end by its loop test.  The handler frees
  the address of its element of the array of stages, which is an address \<open>malloc\<close> returned only for
  element 0 and only while the array is live.  There is no result where something else is freed.
\<close>

definition stage_cleanup :: "nat \<Rightarrow> bool \<Rightarrow> bool option" where
  "stage_cleanup i stages_live = (if i = 0 \<and> stages_live then Some False else None)"

fun cancel_stages :: "(nat \<Rightarrow> bool) \<Rightarrow> nat list \<Rightarrow> bool \<Rightarrow> bool option" where
  "cancel_stages cancelled [] stages_live = Some stages_live"
| "cancel_stages cancelled (i # is) stages_live =
     (case (if cancelled i then stage_cleanup i stages_live else Some stages_live) of
        None \<Rightarrow> None | Some stages_live \<Rightarrow> cancel_stages cancelled is stages_live)"

definition assembly_line_destroy ::
  "int \<Rightarrow> (nat \<Rightarrow> bool) \<Rightarrow> (addr \<rightharpoonup> assembly_line) \<Rightarrow> addr \<Rightarrow> (addr \<rightharpoonup> assembly_line) option" where
  "assembly_line_destroy timedlock cancelled h al =
     (case h al of
        None \<Rightarrow> None
      | Some line \<Rightarrow>
          if timedlock \<noteq> 0 then Some h
          else if cancel_stages cancelled [0..<nat (al_num_stages line)] True = Some True then Some (h(al := None))
          else None)"

definition assembly_line_process :: "assembly_line \<Rightarrow> bme680_fifo_data \<Rightarrow> assembly_line \<times> int" where
  "assembly_line_process al data = (al\<lparr>al_data := data\<rparr>, 0)"

definition assembly_line_get_result :: "assembly_line \<Rightarrow> bme680_fifo_data \<times> int" where
  "assembly_line_get_result al = (al_data al, 0)"

text \<open>
  The stages' updates.  \<open>pending\<close> is the temperature a stage has read and not yet written back.
\<close>

datatype stage_act = ReadTemp nat | WriteTemp nat

record line_sys =
  ls_al :: assembly_line
  ls_pending :: "nat \<Rightarrow> int option"
  ls_writes :: nat

fun stage_step :: "stage_act \<Rightarrow> line_sys \<Rightarrow> line_sys option" where
  "stage_step (ReadTemp i) s =
     (if ls_pending s i \<noteq> None then None
      else Some (s\<lparr>ls_pending := (ls_pending s)(i := Some (fd_temp (al_data (ls_al s))))\<rparr>))"
| "stage_step (WriteTemp i) s =
     (case ls_pending s i of
        None \<Rightarrow> None
      | Some t \<Rightarrow> Some (s\<lparr>ls_al := (ls_al s)\<lparr>al_data := (al_data (ls_al s))\<lparr>fd_temp := wrap32 (t + 1)\<rparr>\<rparr>,
                        ls_pending := (ls_pending s)(i := None), ls_writes := Suc (ls_writes s)\<rparr>))"

fun stage_run :: "stage_act list \<Rightarrow> line_sys \<Rightarrow> line_sys option" where
  "stage_run [] s = Some s"
| "stage_run (a # as) s = (case stage_step a s of None \<Rightarrow> None | Some s' \<Rightarrow> stage_run as s')"

definition line_start :: "assembly_line \<Rightarrow> line_sys" where
  "line_start al = \<lparr>ls_al = al, ls_pending = (\<lambda>_. None), ls_writes = 0\<rparr>"

definition line_temp :: "line_sys \<Rightarrow> int" where
  "line_temp s = fd_temp (al_data (ls_al s))"

section \<open>Properties\<close>

definition line_inv :: "int \<Rightarrow> line_sys \<Rightarrow> bool" where
  "line_inv t0 s \<longleftrightarrow> t0 \<le> line_temp s \<and> line_temp s \<le> t0 + int (ls_writes s)
     \<and> (\<forall>i t. ls_pending s i = Some t \<longrightarrow> t0 \<le> t \<and> t \<le> t0 + int (ls_writes s))"

lemma line_inv_step:
  "\<lbrakk>line_inv t0 s; stage_step a s = Some s'; INT_MIN \<le> t0; t0 + int (ls_writes s) < INT_MAX\<rbrakk> \<Longrightarrow> line_inv t0 s'"
  by (cases a) (auto simp: line_inv_def line_temp_def split: if_splits option.splits; fastforce)+

lemma ls_writes_run: "stage_run as s = Some s' \<Longrightarrow> ls_writes s \<le> ls_writes s' \<and> ls_writes s' \<le> ls_writes s + length as"
proof (induction as arbitrary: s)
  case (Cons a as)
  then obtain s1 where s1: "stage_step a s = Some s1" "stage_run as s1 = Some s'" by (auto split: option.splits)
  have "ls_writes s \<le> ls_writes s1" "ls_writes s1 \<le> Suc (ls_writes s)"
    using s1(1) by (cases a; auto split: if_splits option.splits)+
  with Cons.IH [OF s1(2)] show ?case by simp
qed simp

lemma line_inv_run:
  "\<lbrakk>stage_run as s = Some s'; line_inv t0 s; INT_MIN \<le> t0; t0 + int (ls_writes s + length as) < INT_MAX\<rbrakk> \<Longrightarrow> line_inv t0 s'"
proof (induction as arbitrary: s)
  case (Cons a as)
  then obtain s1 where s1: "stage_step a s = Some s1" "stage_run as s1 = Some s'" by (auto split: option.splits)
  have "ls_writes s1 \<le> Suc (ls_writes s)" using s1(1) by (cases a) (auto split: if_splits option.splits)
  then show ?case using Cons.IH [OF s1(2)] line_inv_step [OF Cons.prems(2) s1(1)] Cons.prems by simp
qed simp

text \<open>
  The stages add at most one each, and can lose updates.  In every interleaving the
  temperature grows by at most the number of updates made and never falls below its start;
  because the updates are made outside every lock, two stages can both complete one and raise
  the temperature by one only.
\<close>

theorem assembly_line_updates:
  assumes "stage_run as (line_start al) = Some s" "INT_MIN \<le> fd_temp (al_data al)" "fd_temp (al_data al) + int (length as) < INT_MAX"
  shows "fd_temp (al_data al) \<le> line_temp s \<and> line_temp s \<le> fd_temp (al_data al) + int (ls_writes s)
    \<and> (\<exists>s2. stage_run [ReadTemp 0, ReadTemp 1, WriteTemp 0, WriteTemp 1] (line_start al) = Some s2
          \<and> ls_writes s2 = 2 \<and> line_temp s2 = wrap32 (fd_temp (al_data al) + 1))"
proof -
  have "line_inv (fd_temp (al_data al)) (line_start al)" by (simp add: line_inv_def line_start_def line_temp_def)
  from line_inv_run [OF assms(1) this] assms(2,3) have "line_inv (fd_temp (al_data al)) s" by (simp add: line_start_def)
  then show ?thesis by (simp add: line_inv_def line_start_def line_temp_def)
qed

definition sample_line :: assembly_line where
  "sample_line = \<lparr>al_num_stages = 2, al_barrier = \<lparr>bar_count = 0, bar_total = 2\<rparr>,
     al_dp = \<lparr>num_philosophers = 2, forks = [None, None], dp_running = 1\<rparr>, al_data = room_air, al_running = [True, True]\<rparr>"

theorem assembly_line_updates_witness:
  "\<exists>s. stage_run [ReadTemp 0, WriteTemp 0, ReadTemp 1, WriteTemp 1] (line_start sample_line) = Some s \<and> line_temp s = 27 \<and> line_temp s \<le> 25 + int (ls_writes s)"
proof -
  have "\<exists>s. stage_run [ReadTemp 0, WriteTemp 0, ReadTemp 1, WriteTemp 1] (line_start sample_line) = Some s \<and> line_temp s = 27"
    by (simp add: line_start_def sample_line_def room_air_def line_temp_def)
  then obtain s where s: "stage_run [ReadTemp 0, WriteTemp 0, ReadTemp 1, WriteTemp 1] (line_start sample_line) = Some s" "line_temp s = 27" by blast
  have t: "fd_temp (al_data sample_line) = 25" by (simp add: sample_line_def room_air_def)
  from assembly_line_updates [OF s(1)] have "line_temp s \<le> 25 + int (ls_writes s)" by (simp add: t)
  with s show ?thesis by blast
qed

lemma cancel_stages_kept: "cancel_stages c is l = Some True \<longleftrightarrow> l \<and> (\<forall>i \<in> set is. \<not> c i)"
  by (induction c "is" l rule: cancel_stages.induct) (auto simp: stage_cleanup_def)

text \<open>
  Destroying the assembly line is safe only if no stage acts on its cancellation.  For a live
  line whose mutex is available, \<open>assembly_line_destroy\<close> frees the line exactly when every stage ends by
  its loop test; as soon as one stage acts on the cancellation it is sent, memory is freed that was
  not allocated, or freed twice.
\<close>

theorem line_destroy_needs_no_cancellation:
  assumes "h al = Some line"
  shows "assembly_line_destroy 0 cancelled h al = (if \<forall>i < nat (al_num_stages line). \<not> cancelled i then Some (h(al := None)) else None)"
  using assms by (simp add: assembly_line_destroy_def cancel_stages_kept)

theorem line_destroy_needs_no_cancellation_witness:
  "assembly_line_destroy 0 (\<lambda>i. i = 0) [7 \<mapsto> sample_line] 7 = None \<and> assembly_line_destroy 0 (\<lambda>i. False) [7 \<mapsto> sample_line] 7 = Some Map.empty"
proof -
  have "[7 \<mapsto> sample_line] 7 = Some sample_line" "0 < nat (al_num_stages sample_line)" by (simp_all add: sample_line_def)
  with line_destroy_needs_no_cancellation [of "[7 \<mapsto> sample_line]" 7 sample_line "\<lambda>i. i = 0"]
    line_destroy_needs_no_cancellation [of "[7 \<mapsto> sample_line]" 7 sample_line "\<lambda>i. False"]
  show ?thesis by (auto simp: fun_eq_iff)
qed

text \<open>Without stages in between, what is put in comes out.\<close>

lemma process_get_result: "assembly_line_get_result (fst (assembly_line_process al d)) = (d, 0)"
  by (simp add: assembly_line_get_result_def assembly_line_process_def)

end
