(* ===== verification/App.thy ===== *)
theory App
  imports Fifo_Semaphore Monitor Event_Pair Thread_Pool Assembly_Line Pubsub Bme680_Core Decimal
begin

text \<open>
  The application \<open>bme680_app.c\<close>: command line, device set-up, the sensor reader the timer calls and
  the rounds of the event loop.
\<close>

section \<open>Command line\<close>

record app_opts =
  op_iterations :: int
  op_threads :: int
  op_num_stages :: int
  op_run_tests :: bool

definition default_opts :: app_opts where
  "default_opts = \<lparr>op_iterations = 10, op_threads = 4, op_num_stages = 5, op_run_tests = False\<rparr>"

text \<open>The loop over the arguments after the program name.\<close>

fun parse_args :: "string list \<Rightarrow> app_opts \<Rightarrow> app_opts" where
  "parse_args [] opts = opts"
| "parse_args [a] opts = (if a = ''--test'' then opts\<lparr>op_run_tests := True\<rparr> else opts)"
| "parse_args (a # b # args) opts =
     (if a = ''-i'' then parse_args args (opts\<lparr>op_iterations := atoi b\<rparr>)
      else if a = ''-t'' then parse_args args (opts\<lparr>op_threads := atoi b\<rparr>)
      else if a = ''-s'' then parse_args args (opts\<lparr>op_num_stages := atoi b\<rparr>)
      else if a = ''--test'' then parse_args (b # args) (opts\<lparr>op_run_tests := True\<rparr>)
      else parse_args (b # args) opts)"

section \<open>Device\<close>

text \<open>
  \<open>bme680_dev_init\<close>: the pointer or the error number, both as \<open>int\<close>; \<open>device_usable\<close> is the test
  \<open>main\<close> makes of the pointer it converts the result back to.
\<close>

definition bme680_dev_init :: "addr option \<Rightarrow> int \<Rightarrow> int \<Rightarrow> int" where
  "bme680_dev_init malloc open_fd ioctl =
     (case malloc of
        None \<Rightarrow> - ENOMEM
      | Some a \<Rightarrow> if open_fd < 0 then - ENODEV else if ioctl < 0 then - EIO else wrap32 (int a))"

definition device_usable :: "int \<Rightarrow> bool" where
  "device_usable dev \<longleftrightarrow> dev \<noteq> 0"

text \<open>
  \<open>bme680_read_sensor\<close>: \<open>block\<close> is the result of the SMBus block read.  The quotient by 16.0 of a
  20-bit number is exact in \<open>float\<close>, and its conversion to the integer field truncates.
\<close>

definition bme680_read_sensor :: "u8 list option \<Rightarrow> bme680_fifo_data \<Rightarrow> bme680_fifo_data \<times> int" where
  "bme680_read_sensor block data = (case block of
      None \<Rightarrow> (data, - EIO)
    | Some buf \<Rightarrow> (\<lparr>fd_temp = uint (adc20 (byte buf 0) (byte buf 1) (byte buf 2)) div 16,
                   fd_pressure = adc20 (byte buf 3) (byte buf 4) (byte buf 5),
                   fd_humidity = push_bit 8 (ucast (byte buf 6)) OR ucast (byte buf 7),
                   fd_gas_resistance = 0\<rparr>, 0))"

section \<open>The sensor reader and the event loop\<close>

record app_state =
  ap_sem :: fifo_semaphore
  ap_monitor :: bme680_monitor
  ap_ep :: event_pair
  ap_tp :: thread_pool
  ap_al :: assembly_line
  ap_ps :: pubsub
  ap_frame :: bme680_fifo_data

text \<open>
  The calls below run to their end with nobody else at the objects they wait for, so a wait that has
  to be made, for the semaphore, for a free place or a record in the monitor or for the first
  event, is ended by its timeout of five seconds, whose path is followed.
\<close>

definition semaphore_wait_ended :: "fifo_semaphore \<Rightarrow> fifo_semaphore \<times> int" where
  "semaphore_wait_ended sem = (case fifo_semaphore_wait sem of
      (sem', Ret r) \<Rightarrow> (sem', r)
    | (sem', Block) \<Rightarrow> (case fifo_semaphore_wait_woken ETIMEDOUT sem' of (sem'', out) \<Rightarrow> (sem'', outcome_val out)))"

text \<open>\<open>read_sensor\<close>, run by thread \<open>t\<close>.\<close>

definition read_sensor :: "int \<Rightarrow> tid \<Rightarrow> u8 list option \<Rightarrow> bme680_fifo_data \<Rightarrow> app_state \<Rightarrow> app_state" where
  "read_sensor timedlock t block raw s =
     (case bme680_read_sensor block raw of (data, ret) \<Rightarrow>
        if ret \<noteq> 0 then s
        else (case semaphore_wait_ended (ap_sem s) of (sem, r) \<Rightarrow>
              if r \<noteq> 0 then s\<lparr>ap_sem := sem\<rparr>
              else (case monitor_write_ended timedlock t (ap_monitor s) data of (m, r) \<Rightarrow>
                    (let ep = (if r = 0 then fst (event_pair_signal1 (ap_ep s)) else ap_ep s)
                     in s\<lparr>ap_sem := fst (fifo_semaphore_post sem), ap_monitor := m, ap_ep := ep\<rparr>))))"

text \<open>
  One round of \<open>event_loop\<close>: \<open>frame\<close> is the address of the loop's local variable \<open>data\<close>, \<open>ap_frame\<close> its
  content, \<open>malloc\<close> the result of the allocation of the task.  The result of the wait for the first
  event is ignored.  \<open>stages\<close> is what
  the stage threads do to the line between the call that puts the record in and the one that
  fetches the result.  \<open>None\<close>: the task list follows a dead pointer.
\<close>

definition wait1_in_loop :: "event_pair \<Rightarrow> event_pair" where
  "wait1_in_loop ep = (case event_pair_wait1 ep of
      (ep', Block) \<Rightarrow> fst (event_pair_wait1_woken ETIMEDOUT ep') | (ep', Ret r) \<Rightarrow> ep')"

definition process_and_enqueue ::
  "(assembly_line \<Rightarrow> assembly_line) \<Rightarrow> nat \<Rightarrow> addr option \<Rightarrow> addr \<Rightarrow> app_state \<Rightarrow> app_state option" where
  "process_and_enqueue stages process_data malloc frame s =
     (case assembly_line_process (ap_al s) (ap_frame s) of (al, r) \<Rightarrow>
        if r = 0
        then (let al = stages al in
              case assembly_line_get_result al of (data, r2) \<Rightarrow>
               (case thread_pool_enqueue malloc (ap_tp s) (Some process_data) frame of
                  None \<Rightarrow> None
                | Some (tp, e) \<Rightarrow> Some (s\<lparr>ap_al := al, ap_frame := data, ap_tp := tp\<rparr>)))
        else Some (s\<lparr>ap_al := al\<rparr>))"

definition event_round ::
  "int \<Rightarrow> tid \<Rightarrow> (assembly_line \<Rightarrow> assembly_line) \<Rightarrow> nat \<Rightarrow> addr option \<Rightarrow> addr \<Rightarrow> app_state \<Rightarrow> app_state option" where
  "event_round timedlock t stages process_data malloc frame s =
     (case monitor_read_ended timedlock t (ap_monitor s) of
        (m, r, d) \<Rightarrow>
          (let s = s\<lparr>ap_monitor := m, ap_frame := (case d of None \<Rightarrow> ap_frame s | Some x \<Rightarrow> x)\<rparr> in
           if r \<noteq> 0 then Some s
           else (case process_and_enqueue stages process_data malloc frame (s\<lparr>ap_ep := wait1_in_loop (ap_ep s)\<rparr>) of
               None \<Rightarrow> None
             | Some s \<Rightarrow> Some (s\<lparr>ap_ep := fst (event_pair_signal2 (ap_ep s))\<rparr>))))"

text \<open>
  The first definition of \<open>event_loop\<close> in the file, without arguments: its round waits for the
  semaphore and ignores every result.  \<open>None\<close>: the task list follows a dead pointer, or publishing has
  no defined end.
\<close>

definition event_loop_round ::
  "int \<Rightarrow> int \<Rightarrow> tid \<Rightarrow> nat \<Rightarrow> addr option \<Rightarrow> addr \<Rightarrow> app_state \<Rightarrow> nat list \<times> app_state option" where
  "event_loop_round timedlock pubsub_lock t process_data malloc frame s =
     (let sem = fst (semaphore_wait_ended (ap_sem s)) in
      case monitor_read_ended timedlock t (ap_monitor s) of (m, r, d) \<Rightarrow>
        (case thread_pool_enqueue malloc (ap_tp s) (Some process_data) frame of
           None \<Rightarrow> ([], None)
         | Some (tp, e) \<Rightarrow>
             (case pubsub_publish pubsub_lock (Some ''sensor_data'') (Some frame) (ap_ps s) of (called, ps) \<Rightarrow>
                (called, map_option (\<lambda>ps. s\<lparr>ap_sem := sem, ap_monitor := m, ap_tp := tp, ap_ps := ps,
                          ap_frame := (case d of None \<Rightarrow> ap_frame s | Some x \<Rightarrow> x)\<rparr>) ps))))"

text \<open>
  The task itself: it publishes the message it formats in its local buffer at address \<open>msg\<close> and
  frees its argument.  \<open>heap\<close> is the set of addresses that \<open>malloc\<close> returned and that were not freed;
  freeing anything else has no defined result.  The result is the callbacks made, and the pubsub and
  the heap, if there is one.
\<close>

definition process_data :: "int \<Rightarrow> addr \<Rightarrow> addr \<Rightarrow> pubsub \<Rightarrow> addr set \<Rightarrow> nat list \<times> (pubsub \<times> addr set) option" where
  "process_data pubsub_lock msg arg ps heap =
     (case pubsub_publish pubsub_lock (Some ''sensor_data'') (Some msg) ps of
        (called, None) \<Rightarrow> (called, None)
      | (called, Some ps) \<Rightarrow> (called, if arg \<in> heap then Some (ps, heap - {arg}) else None))"

text \<open>
  \<open>test_assembly_line\<close>: the temperatures it logs.  The record of iteration \<open>i\<close> has \<open>i\<close> added to each
  of four constants; \<open>stages i\<close> is what the stages do to the line during iteration \<open>i\<close>.
\<close>

definition test_data :: "int \<Rightarrow> bool \<Rightarrow> bme680_fifo_data" where
  "test_data i invalid = \<lparr>fd_temp = (if invalid then - 100 else wrap32 (25 + i)), fd_pressure = word_of_int (101325 + i),
     fd_humidity = word_of_int (50 + i), fd_gas_resistance = word_of_int (100000 + i)\<rparr>"

fun test_loop :: "(int \<Rightarrow> assembly_line \<Rightarrow> assembly_line) \<Rightarrow> nat \<Rightarrow> int \<Rightarrow> bool \<Rightarrow> assembly_line \<Rightarrow> int list \<times> assembly_line" where
  "test_loop stages 0 i invalid al = ([], al)"
| "test_loop stages (Suc k) i invalid al =
     (let al1 = stages i (fst (assembly_line_process al (test_data i invalid))); data = fst (assembly_line_get_result al1)
      in case test_loop stages k (i + 1) invalid al1 of (lg, al2) \<Rightarrow> (fd_temp data # lg, al2))"

definition test_assembly_line ::
  "(int \<Rightarrow> assembly_line \<Rightarrow> assembly_line) \<Rightarrow> int \<Rightarrow> bool \<Rightarrow> assembly_line \<Rightarrow> int list \<times> assembly_line" where
  "test_assembly_line stages iterations invalid al = test_loop stages (nat iterations) 0 invalid al"

section \<open>The application as a whole\<close>

text \<open>
  What the timer thread and the event loop do, as a sequence of complete calls: a sensor reading
  with the bytes the bus delivers, and a round of the event loop with the updates the stages make
  during it and its allocation, whose result may depend on the nodes that are live.
\<close>

definition stages_do :: "stage_act list \<Rightarrow> assembly_line \<Rightarrow> assembly_line" where
  "stages_do as al = (case stage_run as (line_start al) of None \<Rightarrow> al | Some s \<Rightarrow> ls_al s)"





definition app_inv :: "app_state \<Rightarrow> bool" where
  "app_inv s \<longleftrightarrow> ring_inv (ap_monitor s) \<and> 0 \<le> sem_count (ap_sem s) \<and> sem_count (ap_sem s) \<le> INT_MAX
     \<and> ep_state (ap_ep s) \<in> {0, 1, 2} \<and> pool_inv (ap_tp s)"





section \<open>Properties\<close>


lemma wrapped_stage_data: "stage_run as (line_start al) = Some ls \<Longrightarrow> stages_do as al = ls_al ls"
  by (simp add: stages_do_def)

text \<open>A detector without entries is the same after a call of the monitor as before it.\<close>

lemma detector_lock_new:
  assumes "k \<in> {0, 1}"
  shows "\<exists>dd. deadlock_detector_lock 0 t (deadlock_detector_new 2) k = (dd, 0)
    \<and> fst (deadlock_detector_unlock t dd k) = deadlock_detector_new 2"
  using assms by (auto simp: deadlock_detector_lock_def deadlock_detector_unlock_def deadlock_detector_new_def
      potential_deadlock_def held_by_other_def free_lock_def upt_rec numeral_2_eq_2)

lemma detector_new_facts: "dd_wf (deadlock_detector_new 2)" "dd_num_mutexes (deadlock_detector_new 2) = 2"
  "\<not> potential_deadlock (deadlock_detector_new 2) t"
  by (simp_all add: dd_wf_new) (simp_all add: deadlock_detector_new_def potential_deadlock_def held_by_other_def free_lock_def
      upt_rec numeral_2_eq_2)

lemma monitor_write_detector:
  assumes "mon_dd m = deadlock_detector_new 2" "bme680_monitor_write 0 t m d = (m', Ret 0)"
  shows "mon_dd m' = deadlock_detector_new 2"
proof -
  obtain dd where "deadlock_detector_lock 0 t (deadlock_detector_new 2) 0 = (dd, 0)"
    "fst (deadlock_detector_unlock t dd 0) = deadlock_detector_new 2" using detector_lock_new by blast
  then show ?thesis using assms
    by (auto simp: bme680_monitor_write_def monitor_write_body_def monitor_finish_def ring_put_def split: if_splits)
qed

lemma read_sensor_delivers:
  assumes "bme680_read_sensor block raw = (d, 0)" "\<not> sensor_data_invalid d" "app_inv s" "0 < sem_count (ap_sem s)"
    "mon_dd (ap_monitor s) = deadlock_detector_new 2" "mon_count (ap_monitor s) \<noteq> mon_size (ap_monitor s)"
  shows "\<exists>m. read_sensor 0 t block raw s = s\<lparr>ap_monitor := m, ap_ep := \<lparr>ep_state = 1\<rparr>\<rparr> \<and> ring_inv m
    \<and> ring_content m = ring_content (ap_monitor s) @ [d] \<and> mon_dd m = deadlock_detector_new 2"
proof -
  have "ring_inv (ap_monitor s)" using assms(3) by (simp add: app_inv_def)
  then obtain m where m: "bme680_monitor_write 0 t (ap_monitor s) d = (m, Ret 0)" "ring_inv m"
      "ring_content m = ring_content (ap_monitor s) @ [d]"
    using monitor_write_room [of "ap_monitor s" t d] assms(2,5,6) detector_new_facts by auto
  then show ?thesis using assms(1,3,4) monitor_write_detector [OF assms(5) m(1)]
    by (auto simp: read_sensor_def app_inv_def semaphore_wait_ended_def monitor_write_ended_def fifo_semaphore_wait_def
        fifo_semaphore_post_def event_pair_signal1_def Let_def intro!: exI [of _ m])
qed

lemma event_round_enqueues:
  assumes "ring_inv (ap_monitor s)" "ring_content (ap_monitor s) = d # ds" "mon_dd (ap_monitor s) = deadlock_detector_new 2"
    "pool_inv (ap_tp s)" "tp_heap (ap_tp s) a = None"
  shows "\<exists>m tp. event_round 0 t st f (Some a) frame s
      = Some (s\<lparr>ap_monitor := m, ap_ep := \<lparr>ep_state = 2\<rparr>, ap_al := st ((ap_al s)\<lparr>al_data := d\<rparr>),
                ap_frame := al_data (st ((ap_al s)\<lparr>al_data := d\<rparr>)), ap_tp := tp\<rparr>)
    \<and> ring_content m = ds \<and> pool_content tp = pool_content (ap_tp s) @ [(a, Some f, frame)]"
proof -
  obtain m where m: "bme680_monitor_read 0 t (ap_monitor s) = (m, Ret 0, Some d)" "ring_content m = ds"
    using monitor_read_some [OF assms(1), of t d ds] assms(2,3) detector_new_facts by auto
  have put: "pool_can_put (a, Some f, frame) (ap_tp s)" using assms(5) by (simp add: pool_can_put_def)
  obtain tp e where tp: "thread_pool_enqueue (Some a) (ap_tp s) (Some f) frame = Some (tp, e)"
    using thread_pool_enqueue_defined [OF assms(4)] by blast
  then have "pool_content tp = pool_content (ap_tp s) @ [(a, Some f, frame)]"
    using pool.content_put [OF assms(4) put] by (simp add: pool_put_def)
  then show ?thesis using m tp
    by (auto simp: event_round_def monitor_read_ended_def process_and_enqueue_def assembly_line_process_def assembly_line_get_result_def
        event_pair_signal2_def Let_def intro!: exI [of _ m] exI [of _ tp])
qed

text \<open>
  C13: a plausible measurement goes through the whole pipeline.  When the bytes of a block read
  decode to a plausible record, the semaphore is free, the monitor is empty and no lock times
  out, the sensor reader returns with the record in the monitor and the first event signalled;
  the next round of the event loop empties the monitor, appends exactly one task to the pool,
  which refers to the loop's local record, signals the second event, and leaves in that record
  the measurement with a temperature raised by at most one for each update the stages made.  The
  semaphore has its old value.
\<close>

theorem measurement_reaches_pool:
  assumes "bme680_read_sensor (Some buf) raw = (d, 0)" "\<not> sensor_data_invalid d" "app_inv s" "0 < sem_count (ap_sem s)"
    and "mon_dd (ap_monitor s) = deadlock_detector_new 2" "ring_content (ap_monitor s) = []" "tp_heap (ap_tp s) a = None"
    and "stage_run as (line_start ((ap_al s)\<lparr>al_data := d\<rparr>)) = Some ls" "int (length as) < 1000000"
  shows "\<exists>s1 s2. read_sensor 0 t1 (Some buf) raw s = s1 \<and> ring_content (ap_monitor s1) = [d] \<and> ap_ep s1 = \<lparr>ep_state = 1\<rparr>
    \<and> event_round 0 t2 (stages_do as) f (Some a) frame s1 = Some s2 \<and> ring_content (ap_monitor s2) = []
    \<and> pool_content (ap_tp s2) = pool_content (ap_tp s) @ [(a, Some f, frame)] \<and> ap_ep s2 = \<lparr>ep_state = 2\<rparr>
    \<and> fd_temp d \<le> fd_temp (ap_frame s2) \<and> fd_temp (ap_frame s2) \<le> fd_temp d + int (ls_writes ls) \<and> ap_sem s2 = ap_sem s"
proof -
  have inv: "ring_inv (ap_monitor s)" "pool_inv (ap_tp s)" using assms(3) by (simp_all add: app_inv_def)
  then have "mon_count (ap_monitor s) \<noteq> mon_size (ap_monitor s)"
    using ring_content_length [of "ap_monitor s"] assms(6) by (auto simp: ring_inv_def)
  then obtain m where m: "read_sensor 0 t1 (Some buf) raw s = s\<lparr>ap_monitor := m, ap_ep := \<lparr>ep_state = 1\<rparr>\<rparr>" "ring_inv m"
      "ring_content m = [d]" "mon_dd m = deadlock_detector_new 2"
    using read_sensor_delivers [OF assms(1-5)] assms(6) by fastforce
  have "- 40 \<le> fd_temp d" "fd_temp d \<le> 85" using assms(2) by (auto simp: sensor_data_invalid_def)
  moreover have "line_inv (fd_temp d) (line_start ((ap_al s)\<lparr>al_data := d\<rparr>))" by (simp add: line_inv_def line_start_def line_temp_def)
  ultimately have "line_inv (fd_temp d) ls" using line_inv_run [OF assms(8)] assms(9) by (simp add: line_start_def)
  then show ?thesis
    using m event_round_enqueues [of "s\<lparr>ap_monitor := m, ap_ep := \<lparr>ep_state = 1\<rparr>\<rparr>" d "[]" a t2 "stages_do as" f frame] inv(2) assms(7)
    by (fastforce simp: wrapped_stage_data [OF assms(8)] line_inv_def line_temp_def)
qed

text \<open>
  C33: the sensor reader's measurements never reach the monitor.  The reader passes the raw
  converter values on, and the monitor refuses temperatures above 85.  Whenever the raw
  temperature is at least 1376 (of 1048575), reading the sensor with the semaphore free leaves
  the monitor and the event pair as they were and gives the semaphore back.
\<close>

theorem raw_readings_refused:
  assumes "1376 \<le> uint (adc20 (byte buf 0) (byte buf 1) (byte buf 2))" "0 < sem_count (ap_sem s)" "sem_count (ap_sem s) \<le> INT_MAX"
  shows "read_sensor tlk t (Some buf) raw s = s"
proof -
  obtain d where rd: "bme680_read_sensor (Some buf) raw = (d, 0)" and "86 \<le> fd_temp d"
    using assms(1) by (simp add: bme680_read_sensor_def)
  then have inv: "sensor_data_invalid d" by (simp add: sensor_data_invalid_def)
  have sem: "semaphore_wait_ended (ap_sem s) = ((ap_sem s)\<lparr>sem_count := sem_count (ap_sem s) - 1\<rparr>, 0)"
    using assms(2,3) by (simp add: semaphore_wait_ended_def fifo_semaphore_wait_def)
  show ?thesis unfolding read_sensor_def rd prod.case sem
    using assms(2,3) inv by (simp add: monitor_write_ended_def bme680_monitor_write_def fifo_semaphore_post_def Let_def)
qed

definition sample_app :: app_state where
  "sample_app = \<lparr>ap_sem = \<lparr>sem_count = 1\<rparr>, ap_monitor = mon_empty2, ap_ep = \<lparr>ep_state = 0\<rparr>, ap_tp = fresh_pool 4, ap_al = sample_line, ap_ps = pubsub_init, ap_frame = room_air\<rparr>"

lemma sample_app_inv: "app_inv sample_app" "ring_content (ap_monitor sample_app) = []"
  "mon_dd (ap_monitor sample_app) = deadlock_detector_new 2" "tp_heap (ap_tp sample_app) a = None"
proof -
  have "pool_rep (fresh_pool 4) []" by (simp add: pool_rep_def fresh_pool_def)
  then show "app_inv sample_app" using mon_empty2_facts by (auto simp: sample_app_def app_inv_def pool_inv_def)
qed (simp_all add: sample_app_def mon_empty2_def ring_content_def fresh_pool_def)

definition sample_block :: "u8 list" where
  "sample_block = [0, 0x19, 0, 0x18, 0xBC, 0, 0, 50]"

definition sample_reading :: bme680_fifo_data where
  "sample_reading = \<lparr>fd_temp = 25, fd_pressure = 101312, fd_humidity = 50, fd_gas_resistance = 0\<rparr>"

lemma sample_reading_valid: "\<not> sensor_data_invalid sample_reading"
  by (simp add: sensor_data_invalid_def sample_reading_def)

lemma sample_block_reading: "bme680_read_sensor (Some sample_block) raw = (sample_reading, 0)"
  by (simp add: bme680_read_sensor_def sample_block_def sample_reading_def byte_def uint_adc20) (simp add: adc20_def)

lemma sample_sem: "0 < sem_count (ap_sem sample_app)" "mon_count (ap_monitor sample_app) \<noteq> mon_size (ap_monitor sample_app)"
  by (simp_all add: sample_app_def mon_empty2_def)


theorem measurement_reaches_pool_witness:
  "\<exists>s1 s2. read_sensor 0 1 (Some sample_block) room_air sample_app = s1 \<and> ring_content (ap_monitor s1) = [sample_reading]
     \<and> event_round 0 2 (stages_do [ReadTemp 0, WriteTemp 0]) 0 (Some 16) 77 s1 = Some s2 \<and> 25 \<le> fd_temp (ap_frame s2) \<and> fd_temp (ap_frame s2) \<le> 26"
proof -
  obtain ls where ls: "stage_run [ReadTemp 0, WriteTemp 0] (line_start ((ap_al sample_app)\<lparr>al_data := sample_reading\<rparr>)) = Some ls" "ls_writes ls = 1"
    by (simp add: line_start_def)
  have "fd_temp sample_reading = 25" by (simp add: sample_reading_def)
  with measurement_reaches_pool [of sample_block room_air sample_reading sample_app 16 "[ReadTemp 0, WriteTemp 0]" ls 1 2 0 77]
    sample_block_reading sample_reading_valid sample_app_inv sample_sem(1) ls(1)
    ls(2) show ?thesis by fastforce
qed

theorem raw_readings_refused_witness:
  "read_sensor 0 1 (Some [0x7A, 0x12, 0, 0x50, 0, 0, 0x40, 0]) room_air sample_app = sample_app"
  by (rule raw_readings_refused) (simp_all add: sample_app_def byte_def uint_adc20)

text \<open>
  A failed device set-up goes unnoticed.  Every error return of \<open>bme680_dev_init\<close> is a
  non-zero number, which \<open>main\<close> takes for a valid pointer; the only result it rejects is the
  address 0, which a successful set-up at a multiple of 4294967296 yields.
\<close>

theorem device_error_unnoticed:
  "(malloc = None \<or> open_fd < 0 \<or> ioctl < 0 \<longrightarrow> device_usable (bme680_dev_init malloc open_fd ioctl))
   \<and> (\<not> device_usable (bme680_dev_init malloc open_fd ioctl) \<longrightarrow> (\<exists>a. malloc = Some a \<and> wrap32 (int a) = 0))"
  by (auto simp: device_usable_def bme680_dev_init_def split: option.splits if_splits)

theorem device_error_unnoticed_witness: "device_usable (bme680_dev_init (Some 4096) (-1) 0)"
  using device_error_unnoticed [of "Some 4096" "-1" 0] by simp

lemma parse_defaults: "parse_args [] default_opts = default_opts"
  "parse_args [''-i'', ''25'', ''--test'', ''-t'', ''8''] default_opts
     = \<lparr>op_iterations = 25, op_threads = 8, op_num_stages = 5, op_run_tests = True\<rparr>"
  by (simp_all add: default_opts_def atoi_def decimal_def is_digit_def digit_val_def c_isspace_def)

text \<open>Every round of the event loop that enqueues passes the address of the same local variable.\<close>

lemma event_round_argument:
  assumes "event_round tlk t st f (Some a) frame s = Some s'" "pool_rep (ap_tp s) as" "tp_heap (ap_tp s) a = None" "ap_tp s' \<noteq> ap_tp s"
  shows "item_at (ap_tp s') a = (a, Some f, frame)"
proof -
  have "pool_can_put (a, Some f, frame) (ap_tp s)" using assms(3) by (simp add: pool_can_put_def)
  note p = pool_rep_put [OF assms(2) this]
  have "ap_tp s' = pool_put (a, Some f, frame) (ap_tp s)"
    using assms(1,4) by (auto simp: event_round_def process_and_enqueue_def pool_put_def Let_def split: prod.splits outcome.splits if_splits option.splits)
  with p show ?thesis by simp
qed

text \<open>The task frees that address, which no allocation returned: it has no defined result.\<close>

lemma process_data_frees_frame: "frame \<notin> heap \<Longrightarrow> snd (process_data lk msg frame ps heap) = None"
  by (simp add: process_data_def split: prod.splits option.splits)

text \<open>Without stages at work the self-test logs the temperatures it puts in.\<close>

lemma test_loop_log:
  "fst (test_loop (\<lambda>_ al. al) k i invalid al) = map (\<lambda>j. if invalid then - 100 else wrap32 (25 + (i + int j))) [0..<k]"
proof (induction k arbitrary: i al)
  case (Suc k)
  have r: "fst (test_loop (\<lambda>_ al. al) (Suc k) i invalid al)
      = fd_temp (test_data i invalid) # fst (test_loop (\<lambda>_ al. al) k (i + 1) invalid (al\<lparr>al_data := test_data i invalid\<rparr>))"
    by (simp add: assembly_line_process_def assembly_line_get_result_def split: prod.splits)
  have "[0..<Suc k] = 0 # map Suc [0..<k]" by (simp add: map_Suc_upt upt_conv_Cons del: upt_Suc)
  then show ?case unfolding r Suc.IH by (simp add: test_data_def comp_def ac_simps del: upt_Suc)
qed simp

end
