(* ===== verification/App_Main.thy ===== *)
theory App_Main
  imports App Timer Fork_Handler Ipc_Sync Recursive_Mutex Logger "HOL-Library.Monad_Syntax"
begin

text \<open>
  \<open>main\<close> of \<open>bme680_app.c\<close> and \<open>app_cleanup\<close>: the struct of pointers, the objects they refer to, the
  order in which they are made and destroyed.  The state at the label \<open>cleanup\<close> is computed with the
  initialisers of the component theories; a use of a pointer that does not refer to a live object
  has no result.
\<close>

section \<open>Pointers and objects\<close>

text \<open>\<open>Indet\<close> is the content of a local variable that was never assigned.\<close>

datatype ptr = Indet | Null | Addr addr

definition live :: "ptr \<Rightarrow> (addr \<rightharpoonup> 'a) \<Rightarrow> addr option" where
  "live p h = (case p of Addr a \<Rightarrow> if h a = None then None else Some a | _ \<Rightarrow> None)"

text \<open>The argument of a destructor that returns at once for NULL.\<close>

definition live_or_null :: "ptr \<Rightarrow> (addr \<rightharpoonup> 'a) \<Rightarrow> addr option option" where
  "live_or_null p h = (if p = Null then Some None else map_option Some (live p h))"

record bme680_app =
  a_dev :: ptr
  a_tp :: ptr
  a_monitor :: ptr
  a_al :: ptr
  a_sem :: ptr
  a_ep :: ptr
  a_timer :: ptr
  a_fh :: ptr
  a_ipc_sync :: ptr
  a_rwlock :: ptr
  a_rmutex :: ptr
  a_dd :: ptr
  a_dp :: ptr
  a_barrier :: ptr
  a_running :: "int option"

definition blank_app :: bme680_app where
  "blank_app = \<lparr>a_dev = Indet, a_tp = Indet, a_monitor = Indet, a_al = Indet, a_sem = Indet, a_ep = Indet, a_timer = Indet,
     a_fh = Indet, a_ipc_sync = Indet, a_rwlock = Indet, a_rmutex = Indet, a_dd = Indet, a_dp = Indet, a_barrier = Indet, a_running = None\<rparr>"

text \<open>
  \<open>struct bme680_dev\<close>.  The call \<open>bme680_config_init(&dev->config)\<close> passes the address of the member
  where the function of \<open>bme680_config.c\<close> expects a file name; the member is left out.
\<close>

record bme680_dev =
  dev_fd :: int
  dev_addr :: u8

text \<open>The objects on the heap by type, the pubsub (\<open>None\<close> before it is set up), the logger and the device files open.\<close>

record world =
  w_app :: bme680_app
  h_dev :: "addr \<rightharpoonup> bme680_dev"
  h_tp :: "addr \<rightharpoonup> thread_pool"
  h_monitor :: "addr \<rightharpoonup> bme680_monitor"
  h_al :: "addr \<rightharpoonup> assembly_line"
  h_sem :: "addr \<rightharpoonup> fifo_semaphore"
  h_ep :: "addr \<rightharpoonup> event_pair"
  h_timer :: "addr \<rightharpoonup> timer"
  h_fh :: "addr \<rightharpoonup> fork_handler"
  h_ipc :: "addr \<rightharpoonup> ipc_state"
  h_rwlock :: "addr \<rightharpoonup> rwlock"
  h_rmutex :: "addr \<rightharpoonup> recursive_mutex"
  h_dd :: "addr \<rightharpoonup> deadlock_detector"
  h_dp :: "addr \<rightharpoonup> dining_philosophers"
  h_barrier :: "addr \<rightharpoonup> barrier"
  w_ps :: "pubsub option"
  w_logger :: logger
  w_fds :: "int list"

definition w_set :: "(bme680_app \<Rightarrow> bme680_app) \<Rightarrow> world \<Rightarrow> world" where
  "w_set f w = w\<lparr>w_app := f (w_app w)\<rparr>"

section \<open>main up to the label\<close>

text \<open>
  What the system answers: the address each object's allocation gets, whether its further
  allocations succeed, the results of its thread creations (for \<open>Dp\<close>, of its mutex initialisations);
  the content memory has where an
  initialiser leaves it alone; the answers to the IPC calls and for the device.
\<close>

datatype obj = Tp | Mon | Sem | Ep | Tim | Al | Fh | Ipc | Rw | Rm | Dd | Dp | Bar | Dev

record env =
  e_malloc :: "obj \<Rightarrow> addr option"
  e_more :: "obj \<Rightarrow> bool"
  e_create :: "obj \<Rightarrow> nat \<Rightarrow> int"
  e_pool_barrier :: bool
  e_line_data :: bool
  e_ids :: "nat \<Rightarrow> tid"
  e_errno :: int
  e_barrier :: barrier
  e_table :: dining_philosophers
  e_record :: bme680_fifo_data
  e_ring :: "bme680_fifo_data list"
  e_rwlock :: rwlock
  e_dd :: deadlock_detector
  e_ipc :: ipc_calls
  e_ipc_raw :: ipc_state
  e_open :: int
  e_ioctl :: int
  e_thread :: int

text \<open>
  The effect of \<open>*p = malloc(...)\<close> followed by the rest of an initialiser with the given result: an
  error after the allocation frees the object and leaves its address in the variable.
\<close>

definition store_new :: "addr option \<Rightarrow> int + 'a \<Rightarrow> (addr \<rightharpoonup> 'a) \<Rightarrow> ptr \<times> (addr \<rightharpoonup> 'a)" where
  "store_new m res h = (case m of
      None \<Rightarrow> (Null, h)
    | Some a \<Rightarrow> (Addr a, h(a := (case res of Inl e \<Rightarrow> None | Inr x \<Rightarrow> Some x))))"

text \<open>
  The calls from \<open>pubsub_init\<close> to \<open>assembly_line_init\<close>, with the result of the last.  \<open>read_sensor\<close> and
  \<open>&app\<close> are the numbers 0 and 0; the addresses of the struct's members, which the callees with a
  single pointer overwrite in their parameter, are written 0.
\<close>

definition init_first :: "env \<Rightarrow> app_opts \<Rightarrow> world \<Rightarrow> world \<times> int" where
  "init_first e opts w =
     (let m = e_malloc e; threads = op_threads opts; stages = op_num_stages opts;
          (tp, htp) = store_new (m Tp) (thread_pool_init (m Tp \<noteq> None) (e_more e Tp) (e_pool_barrier e) (e_barrier e) (e_create e Tp) threads) (h_tp w);
          (mon, hmon) = store_new (m Mon) (bme680_monitor_init (m Mon \<noteq> None) (e_more e Mon) (e_ring e) (e_rwlock e) (e_dd e) 100) (h_monitor w);
          (ep, hep) = store_new (m Ep) (event_pair_init (m Ep \<noteq> None)) (h_ep w);
          line = assembly_line_init (m Al \<noteq> None) (e_more e Al) (e_line_data e)
                   (e_create e Al) (e_barrier e) (e_table e) (e_record e) stages;
          (al, hal) = store_new (m Al) line (h_al w)
      in ((w_set (\<lambda>app. app\<lparr>a_tp := tp, a_monitor := mon, a_ep := ep, a_al := al\<rparr>) w)
            \<lparr>w_ps := Some pubsub_init, h_tp := htp, h_monitor := hmon, h_sem := fst (fifo_semaphore_init (m Sem) (h_sem w) 0 1),
             h_ep := hep, h_timer := fst (timer_init (m Tim) (e_create e Tim 0) (h_timer w) 1000 0 0), h_al := hal\<rparr>,
          case line of Inl r \<Rightarrow> r | Inr _ \<Rightarrow> 0))"

text \<open>The calls from \<open>fork_handler_init\<close> to \<open>barrier_init\<close>; the last two leave the variable alone when their argument is not positive.\<close>

definition init_rest :: "env \<Rightarrow> app_opts \<Rightarrow> world \<Rightarrow> world" where
  "init_rest e opts w =
     (let m = e_malloc e; threads = op_threads opts; stages = op_num_stages opts;
          ipc = ipc_sync_init (e_ipc e) 0 (e_ipc_raw e);
          (is, hipc) = store_new (m Ipc) (if snd ipc = 0 then Inr (fst ipc) else Inl (snd ipc)) (h_ipc w);
          (dp, hdp) = (if stages \<le> 0 then (a_dp (w_app w), h_dp w)
                       else store_new (m Dp) (dining_philosophers_init (m Dp \<noteq> None) (e_more e Dp) (e_create e Dp) (e_errno e) stages) (h_dp w));
          (bar, hbar) = (if threads \<le> 0 then (a_barrier (w_app w), h_barrier w)
                         else store_new (m Bar) (barrier_init (m Bar \<noteq> None) threads) (h_barrier w))
      in (w_set (\<lambda>app. app\<lparr>a_ipc_sync := is, a_dp := dp, a_barrier := bar\<rparr>) w)
           \<lparr>h_fh := fst (fork_handler_init (m Fh) (e_more e Fh) (e_create e Fh) (e_ids e) (h_fh w) threads), h_ipc := hipc,
            h_rwlock := fst (rwlock_init (m Rw) (h_rwlock w) 0), h_rmutex := fst (recursive_mutex_init (m Rm) (h_rmutex w) 0),
            h_dd := fst (deadlock_detector_init (m Dd) (e_more e Dd) (h_dd w) 0 10), h_dp := hdp, h_barrier := hbar\<rparr>)"

text \<open>
  \<open>bme680_dev_init\<close> and the conversion of its result to the pointer: an \<open>int\<close> that came from an address
  below 2147483648 is that address again, every other non-zero number an address where nothing lives.
\<close>

definition dev_ptr :: "int \<Rightarrow> ptr" where
  "dev_ptr r = (if r = 0 then Null else if 0 < r then Addr (nat r) else Indet)"

definition init_dev :: "env \<Rightarrow> world \<Rightarrow> world" where
  "init_dev e w =
     (let r = bme680_dev_init (e_malloc e Dev) (e_open e) (e_ioctl e);
          made = e_malloc e Dev \<noteq> None \<and> \<not> e_open e < 0 \<and> \<not> e_ioctl e < 0
      in (w_set (\<lambda>app. app\<lparr>a_dev := dev_ptr r\<rparr>) w)
           \<lparr>h_dev := (if made then (h_dev w)(the (e_malloc e Dev) \<mapsto> \<lparr>dev_fd = e_open e, dev_addr = 0x77\<rparr>) else h_dev w),
            w_fds := (if made then e_open e # w_fds w else w_fds w)\<rparr>)"

text \<open>The state at the label \<open>cleanup\<close> or at the tests, and whether the event thread was created.\<close>

definition main_setup :: "env \<Rightarrow> app_opts \<Rightarrow> world \<Rightarrow> world \<times> bool" where
  "main_setup e opts w =
     (case init_first e opts w of (w1, r) \<Rightarrow>
        if r \<noteq> 0 then (w1, False)
        else let w2 = init_dev e (init_rest e opts w1) in
             if a_dev (w_app w2) = Null then (w2, False)
             else (w_set (\<lambda>app. app\<lparr>a_running := Some 1\<rparr>) w2, e_thread e = 0))"

section \<open>Clean-up\<close>

definition bme680_dev_destroy :: "ptr \<Rightarrow> world \<Rightarrow> world option" where
  "bme680_dev_destroy dev w =
     (case live_or_null dev (h_dev w) of
        None \<Rightarrow> None
      | Some None \<Rightarrow> Some w
      | Some (Some a) \<Rightarrow> Some (w\<lparr>w_fds := remove1 (dev_fd (the (h_dev w a))) (w_fds w), h_dev := (h_dev w)(a := None)\<rparr>))"

definition ipc_live :: "ptr \<Rightarrow> (addr \<rightharpoonup> ipc_state) \<Rightarrow> addr option" where
  "ipc_live p h = (case live p h of None \<Rightarrow> None | Some a \<Rightarrow> if ip_struct (the (h a)) then Some a else None)"

text \<open>
  \<open>app_cleanup\<close> in its order.  \<open>line_lock\<close> and \<open>ps_lock\<close> are the results of the timed locks, \<open>cancelled\<close> and
  \<open>tend\<close> say how the stages and the timer's thread end, \<open>ends\<close> which workers of the pool do; the fuel
  is for the list of queued tasks.  \<open>M\<close> says what \<open>free\<close> may be called with.
\<close>

definition app_cleanup ::
  "memory \<Rightarrow> (nat \<Rightarrow> bool) \<Rightarrow> nat \<Rightarrow> (nat \<Rightarrow> bool) \<Rightarrow> timer_end \<Rightarrow> int \<Rightarrow> int \<Rightarrow> world \<Rightarrow> world option" where
  "app_cleanup M ends fuel cancelled tend line_lock ps_lock w = do {
     fh \<leftarrow> live (a_fh (w_app w)) (h_fh w);
     let w = w\<lparr>h_fh := fork_handler_destroy (h_fh w) fh\<rparr>;
     ipc \<leftarrow> ipc_live (a_ipc_sync (w_app w)) (h_ipc w);
     let w = w\<lparr>h_ipc := (h_ipc w)(ipc \<mapsto> ipc_sync_destroy (the (h_ipc w ipc)))\<rparr>;
     rw \<leftarrow> live (a_rwlock (w_app w)) (h_rwlock w);
     let w = w\<lparr>h_rwlock := rwlock_destroy (h_rwlock w) rw\<rparr>;
     rm \<leftarrow> live (a_rmutex (w_app w)) (h_rmutex w);
     let w = w\<lparr>h_rmutex := recursive_mutex_destroy (h_rmutex w) rm\<rparr>;
     dd \<leftarrow> live (a_dd (w_app w)) (h_dd w);
     let w = w\<lparr>h_dd := deadlock_detector_destroy (h_dd w) dd\<rparr>;
     dp \<leftarrow> live_or_null (a_dp (w_app w)) (h_dp w);
     let w = w\<lparr>h_dp := dining_philosophers_destroy (h_dp w) dp\<rparr>;
     bar \<leftarrow> live_or_null (a_barrier (w_app w)) (h_barrier w);
     let w = w\<lparr>h_barrier := barrier_destroy (h_barrier w) bar\<rparr>;
     al \<leftarrow> live (a_al (w_app w)) (h_al w);
     ha \<leftarrow> assembly_line_destroy line_lock cancelled (h_al w) al;
     let w = w\<lparr>h_al := ha\<rparr>;
     tim \<leftarrow> live (a_timer (w_app w)) (h_timer w);
     ht \<leftarrow> timer_destroy tend (h_timer w) (Some tim);
     let w = w\<lparr>h_timer := ht\<rparr>;
     ep \<leftarrow> live (a_ep (w_app w)) (h_ep w);
     let w = w\<lparr>h_ep := event_pair_destroy (h_ep w) ep\<rparr>;
     sem \<leftarrow> live (a_sem (w_app w)) (h_sem w);
     let w = w\<lparr>h_sem := fifo_semaphore_destroy (h_sem w) sem\<rparr>;
     mon \<leftarrow> live (a_monitor (w_app w)) (h_monitor w);
     hm \<leftarrow> bme680_monitor_destroy M (h_monitor w) mon;
     let w = w\<lparr>h_monitor := hm\<rparr>;
     tp \<leftarrow> live (a_tp (w_app w)) (h_tp w);
     tasks \<leftarrow> thread_pool_destroy ends fuel (the (h_tp w tp));
     let w = w\<lparr>h_tp := (h_tp w)(tp := None)\<rparr>;
     w \<leftarrow> bme680_dev_destroy (a_dev (w_app w)) w;
     ps \<leftarrow> w_ps w;
     ps \<leftarrow> pubsub_destroy ps_lock ps;
     lg \<leftarrow> logger_destroy (w_logger w);
     Some (w\<lparr>w_logger := lg\<rparr>)
   }"

text \<open>The signal handler, and what \<open>main\<close> does with its tests.\<close>

definition signal_handler :: "world \<Rightarrow> world" where
  "signal_handler w = w_set (\<lambda>app. app\<lparr>a_running := Some 0\<rparr>) w"

definition run_tests :: "(int \<Rightarrow> assembly_line \<Rightarrow> assembly_line) \<Rightarrow> int \<Rightarrow> world \<Rightarrow> world option" where
  "run_tests stages iterations w = do {
     al \<leftarrow> live (a_al (w_app w)) (h_al w);
     let line = snd (test_assembly_line stages iterations False (the (h_al w al)));
     let line = snd (test_assembly_line stages iterations True line);
     Some (w\<lparr>h_al := (h_al w)(al \<mapsto> line)\<rparr>)
   }"

text \<open>
  \<open>main\<close>; \<open>threads\<close> is what the other threads do to the objects until they are joined, \<open>cleanup\<close> is
  \<open>app_cleanup\<close> with its inputs.  A join of the
  event thread that was never created uses an unset variable.
\<close>

definition app_main ::
  "env \<Rightarrow> bool \<Rightarrow> bool \<Rightarrow> (int \<times> string) list \<Rightarrow> (int \<Rightarrow> assembly_line \<Rightarrow> assembly_line) \<Rightarrow> (world \<Rightarrow> world) \<Rightarrow> (world \<Rightarrow> world option)
     \<Rightarrow> string list \<Rightarrow> world \<Rightarrow> (world \<times> int) option" where
  "app_main e opened fileno_ok old stages threads cleanup argv w = do {
     let opts = parse_args argv default_opts;
     lg \<leftarrow> fst (logger_init opened fileno_ok old (w_logger w));
     lg \<leftarrow> logger_set_level (level_val LOG_DEBUG) lg;
     let (w, created) = main_setup e opts (w\<lparr>w_app := blank_app, w_logger := lg\<rparr>);
     w \<leftarrow> (if created \<and> op_run_tests opts then run_tests stages (op_iterations opts) w else Some w);
     let w = w_set (\<lambda>app. app\<lparr>a_running := Some 0\<rparr>) w;
     w \<leftarrow> (if created then Some (threads w) else None);
     w \<leftarrow> cleanup w;
     Some (w, 0)
   }"

section \<open>Properties\<close>

lemma live_simps [simp]:
  "live Indet h = None" "live Null h = None" "h a = Some x \<Longrightarrow> live (Addr a) h = Some a"
  "live_or_null Indet h = None" "live_or_null Null h = Some None" "h a = Some x \<Longrightarrow> live_or_null (Addr a) h = Some (Some a)"
  by (simp_all add: live_def live_or_null_def)

lemma w_set_sel [simp]: "w_app (w_set f w) = f (w_app w)" "h_tp (w_set f w) = h_tp w" "h_monitor (w_set f w) = h_monitor w"
  "h_al (w_set f w) = h_al w" "h_ep (w_set f w) = h_ep w" "h_ipc (w_set f w) = h_ipc w" "h_dp (w_set f w) = h_dp w"
  "h_barrier (w_set f w) = h_barrier w" "h_dev (w_set f w) = h_dev w" "h_sem (w_set f w) = h_sem w" "w_fds (w_set f w) = w_fds w"
  by (simp_all add: w_set_def)

text \<open>
  The application never gets past its second statement.  Whatever the arguments, the system's
  answers and the other threads do, \<open>main\<close> does not return: setting the log level logs a message
  while the logger's mutex is held, and that message is not filtered at the new level.
\<close>

theorem app_main_hangs: "app_main e opened fileno_ok old stages threads (app_cleanup M ends fuel cancelled tend line_lock ps_lock) argv w = None"
proof -
  have "logger_set_level (level_val LOG_DEBUG) lg = None" if "fst (logger_init opened fileno_ok old l) = Some lg" for l lg
    using that by (auto simp: logger_init_def logger_set_level_def logger_log_def log_lock_def Let_def split: if_splits option.splits)
  then show ?thesis by (cases "fst (logger_init opened fileno_ok old (w_logger w))") (simp_all add: app_main_def Let_def)
qed

definition unset_by_init :: "bme680_app \<Rightarrow> bool" where
  "unset_by_init app \<longleftrightarrow> a_sem app = Indet \<and> a_timer app = Indet \<and> a_fh app = Indet \<and> a_rwlock app = Indet \<and> a_rmutex app = Indet \<and> a_dd app = Indet"

lemma unset_init_first: "init_first e opts w = (w1, r) \<Longrightarrow> unset_by_init (w_app w1) = unset_by_init (w_app w)"
  by (auto simp: init_first_def unset_by_init_def Let_def split: prod.splits)

lemma unset_init_rest: "unset_by_init (w_app (init_rest e opts w)) = unset_by_init (w_app w)"
  by (auto simp: init_rest_def unset_by_init_def Let_def split: prod.splits)

lemma unset_init_dev: "unset_by_init (w_app (init_dev e w)) = unset_by_init (w_app w)"
  by (simp add: init_dev_def unset_by_init_def Let_def)

text \<open>
  C26: six of the application's pointers are never set.  At the label \<open>cleanup\<close>, on every path and for
  all answers of the system, the pointers to the semaphore, the timer, the fork handler, the
  read-write lock, the recursive mutex and the deadlock detector are still indeterminate, and
  \<open>app_cleanup\<close> uses the fork handler's pointer first, before anything is destroyed.
\<close>

theorem setup_leaves_pointers_unset:
  assumes "w_app w = blank_app" "main_setup e opts w = (w', created)"
  shows "a_sem (w_app w') = Indet \<and> a_timer (w_app w') = Indet \<and> a_fh (w_app w') = Indet \<and> a_rwlock (w_app w') = Indet
    \<and> a_rmutex (w_app w') = Indet \<and> a_dd (w_app w') = Indet \<and> app_cleanup M ends fuel cancelled tend line_lock ps_lock w' = None"
proof -
  obtain w1 r where w1: "init_first e opts w = (w1, r)" by fastforce
  have "unset_by_init (w_app w)" using assms(1) by (simp add: unset_by_init_def blank_app_def)
  then have "unset_by_init (w_app w1)" "unset_by_init (w_app (init_dev e (init_rest e opts w1)))"
    using unset_init_first [OF w1] by (simp_all add: unset_init_rest unset_init_dev)
  then have "unset_by_init (w_app w')"
    using assms(2) w1 by (auto simp: main_setup_def unset_by_init_def Let_def split: if_splits)
  then show ?thesis by (simp add: unset_by_init_def app_cleanup_def)
qed

definition good_env :: env where
  "good_env = \<lparr>e_malloc = (\<lambda>_. Some 4096), e_more = (\<lambda>_. True), e_create = (\<lambda>_ _. 0), e_pool_barrier = True, e_line_data = True,
     e_ids = Suc, e_errno = 12, e_barrier = \<lparr>bar_count = 0, bar_total = 5\<rparr>,
     e_table = \<lparr>num_philosophers = 5, forks = replicate 5 None, dp_running = 1\<rparr>, e_record = room_air, e_ring = replicate 100 room_air,
     e_rwlock = rwlock_new, e_dd = deadlock_detector_new 2,
     e_ipc = \<lparr>ic_malloc = True, ic_shmget = True, ic_shmat = True, ic_semget = True, ic_semctl = True, ic_errno = 12\<rparr>,
     e_ipc_raw = \<lparr>ip_struct = False, ip_shm = False, ip_attached = False, ip_sem = None, ip_data = room_air\<rparr>,
     e_open = 3, e_ioctl = 0, e_thread = 0\<rparr>"

definition empty_world :: world where
  "empty_world = \<lparr>w_app = blank_app, h_dev = Map.empty, h_tp = Map.empty, h_monitor = Map.empty, h_al = Map.empty, h_sem = Map.empty,
     h_ep = Map.empty, h_timer = Map.empty, h_fh = Map.empty, h_ipc = Map.empty, h_rwlock = Map.empty, h_rmutex = Map.empty,
     h_dd = Map.empty, h_dp = Map.empty, h_barrier = Map.empty, w_ps = None,
     w_logger = \<lparr>log_file = None, log_level = 0, log_held = False\<rparr>, w_fds = []\<rparr>"

definition any_memory :: memory where
  "any_memory = \<lparr>me_freeable = (\<lambda>a. a = 4096), me_rwlock_at = 40, me_dd = 4096\<rparr>"

theorem setup_leaves_pointers_unset_witness:
  "a_fh (w_app (fst (main_setup good_env default_opts empty_world))) = Indet
   \<and> app_cleanup any_memory (\<lambda>_. True) 10 (\<lambda>_. False) LoopEnds 0 0 (fst (main_setup good_env default_opts empty_world)) = None"
proof -
  have "w_app empty_world = blank_app" by (simp add: empty_world_def)
  from setup_leaves_pointers_unset [OF this, of good_env default_opts] show ?thesis by (metis prod.collapse)
qed

lemma store_new_Some [simp]: "store_new (Some a) (Inr x) h = (Addr a, h(a \<mapsto> x))"
  by (simp add: store_new_def)

text \<open>What the initialisers give when everything they call succeeds.\<close>

lemma inits_succeed:
  assumes "\<And>i. cr i = (0 :: int)"
  shows "thread_pool_init True True b raw cr n = Inr \<lparr>tp_num_threads = n, tp_heap = Map.empty, tp_head = None, tp_tail = None,
           tp_barrier = (case barrier_init b (n + 1) of Inl e \<Rightarrow> raw | Inr b \<Rightarrow> b), tp_shutdown = 0\<rparr>"
    "assembly_line_init True True True cr bar dp d n
       = Inr \<lparr>al_num_stages = n, al_barrier = bar, al_dp = dp, al_data = d, al_running = replicate (nat n) True\<rparr>"
    "0 < n \<Longrightarrow> dining_philosophers_init True True cr err n = Inr \<lparr>num_philosophers = n, forks = replicate (nat n) None, dp_running = 1\<rparr>"
    "0 < n \<Longrightarrow> barrier_init True n = Inr \<lparr>bar_count = 0, bar_total = n\<rparr>"
  using assms by (simp_all add: thread_pool_init_def assembly_line_init_def dining_philosophers_init_def barrier_init_def list_ex_iff)

lemma ipc_init_succeeds:
  assumes "ic_malloc c \<and> ic_shmget c \<and> ic_shmat c \<and> ic_semget c \<and> ic_semctl c"
  shows "ipc_sync_init c v s = (s\<lparr>ip_struct := True, ip_shm := True, ip_attached := True, ip_sem := Some 1\<rparr>, 0)"
  using assms by (simp add: ipc_sync_init_def Let_def)

lemma dev_init_succeeds:
  assumes "0 \<le> fd" "0 \<le> ioctl" "0 < a" "int a \<le> INT_MAX"
  shows "dev_ptr (bme680_dev_init (Some a) fd ioctl) = Addr a"
  using assms by (simp add: bme680_dev_init_def dev_ptr_def)

text \<open>
  C25: with enough memory \<open>main\<close> makes the other objects.  When every allocation, thread creation and
  call succeeds, the counts on the command line are positive, the ring has its hundred slots and
  the device's address fits an \<open>int\<close>, the set-up creates the event thread, and the pointers to the
  pool, the monitor, the event pair, the assembly line, the shared segment, the table, the barrier
  and the device refer to freshly initialised objects: an empty pool with the requested number of
  workers, an empty ring of 100, an idle event pair, a table without forks
  taken, a barrier for the requested number of threads and the opened device file.
\<close>

theorem setup_creates_objects:
  assumes "\<And>x. e_malloc e x = Some (adr x)" "\<And>x. e_more e x" "\<And>x i. e_create e x i = 0" "e_thread e = 0" "length (e_ring e) = 100"
    and "ic_malloc (e_ipc e) \<and> ic_shmget (e_ipc e) \<and> ic_shmat (e_ipc e) \<and> ic_semget (e_ipc e) \<and> ic_semctl (e_ipc e)" "e_line_data e"
    and "0 \<le> e_open e" "0 \<le> e_ioctl e" "0 < adr Dev" "int (adr Dev) \<le> INT_MAX" "0 < op_threads opts" "0 < op_num_stages opts"
    and "main_setup e opts w = (w', created)"
  shows "created \<and> a_running (w_app w') = Some 1
    \<and> a_tp (w_app w') = Addr (adr Tp) \<and> (\<exists>tp. h_tp w' (adr Tp) = Some tp \<and> pool_rep tp [] \<and> tp_num_threads tp = op_threads opts)
    \<and> a_monitor (w_app w') = Addr (adr Mon) \<and> (\<exists>m. h_monitor w' (adr Mon) = Some m \<and> ring_inv m \<and> mon_size m = 100 \<and> ring_content m = [])
    \<and> a_ep (w_app w') = Addr (adr Ep) \<and> h_ep w' (adr Ep) = Some \<lparr>ep_state = 0\<rparr>
    \<and> a_al (w_app w') = Addr (adr Al) \<and> (\<exists>al. h_al w' (adr Al) = Some al \<and> al_num_stages al = op_num_stages opts)
    \<and> a_ipc_sync (w_app w') = Addr (adr Ipc) \<and> (\<exists>is. h_ipc w' (adr Ipc) = Some is \<and> ip_sem is = Some 1 \<and> ip_attached is)
    \<and> a_dp (w_app w') = Addr (adr Dp) \<and> h_dp w' (adr Dp) = Some \<lparr>num_philosophers = op_num_stages opts, forks = replicate (nat (op_num_stages opts)) None, dp_running = 1\<rparr>
    \<and> a_barrier (w_app w') = Addr (adr Bar) \<and> h_barrier w' (adr Bar) = Some \<lparr>bar_count = 0, bar_total = op_threads opts\<rparr>
    \<and> a_dev (w_app w') = Addr (adr Dev) \<and> h_dev w' (adr Dev) = Some \<lparr>dev_fd = e_open e, dev_addr = 0x77\<rparr> \<and> w_fds w' = e_open e # w_fds w"
proof -
  let ?rec = "\<lparr>mon_data = e_ring e, mon_head = 0, mon_tail = 0, mon_size = 100, mon_count = 0, mon_rwlock = e_rwlock e, mon_dd = e_dd e\<rparr>"
  have mon: "bme680_monitor_init True True (e_ring e) (e_rwlock e) (e_dd e) 100 = Inr ?rec" by (simp add: bme680_monitor_init_def)
  have ring: "ring_inv ?rec" "ring_content ?rec = []" using assms(5) by (simp_all add: ring_inv_def ring_content_def)
  note inits = inits_succeed [of "e_create e _", OF assms(3)]
  obtain w1 where w1: "init_first e opts w = (w1, 0)" "a_tp (w_app w1) = Addr (adr Tp)" "a_monitor (w_app w1) = Addr (adr Mon)"
      "a_ep (w_app w1) = Addr (adr Ep)" "a_al (w_app w1) = Addr (adr Al)" "\<exists>tp. h_tp w1 (adr Tp) = Some tp \<and> pool_rep tp [] \<and> tp_num_threads tp = op_threads opts"
      "h_monitor w1 (adr Mon) = Some ?rec" "h_ep w1 (adr Ep) = Some \<lparr>ep_state = 0\<rparr>" "\<exists>al. h_al w1 (adr Al) = Some al \<and> al_num_stages al = op_num_stages opts"
      "w_fds w1 = w_fds w"
    using assms(1,2,7) by (simp add: init_first_def Let_def inits mon event_pair_init_def pool_rep_def)
  let ?w2 = "init_rest e opts w1"
  have w2: "a_ipc_sync (w_app ?w2) = Addr (adr Ipc)" "\<exists>is. h_ipc ?w2 (adr Ipc) = Some is \<and> ip_sem is = Some 1 \<and> ip_attached is"
    "a_dp (w_app ?w2) = Addr (adr Dp)" "h_dp ?w2 (adr Dp) = Some \<lparr>num_philosophers = op_num_stages opts, forks = replicate (nat (op_num_stages opts)) None, dp_running = 1\<rparr>"
    "a_barrier (w_app ?w2) = Addr (adr Bar)" "h_barrier ?w2 (adr Bar) = Some \<lparr>bar_count = 0, bar_total = op_threads opts\<rparr>"
    using assms(1,2,12,13) by (simp_all add: init_rest_def Let_def inits ipc_init_succeeds [OF assms(6)])
  have keep: "a_tp (w_app ?w2) = a_tp (w_app w1)" "a_monitor (w_app ?w2) = a_monitor (w_app w1)" "a_ep (w_app ?w2) = a_ep (w_app w1)"
    "a_al (w_app ?w2) = a_al (w_app w1)" "h_tp ?w2 = h_tp w1" "h_monitor ?w2 = h_monitor w1" "h_ep ?w2 = h_ep w1" "h_al ?w2 = h_al w1"
    "w_fds ?w2 = w_fds w1"
    by (simp_all add: init_rest_def Let_def split: prod.splits)
  have "main_setup e opts w = (w_set (\<lambda>app. app\<lparr>a_running := Some 1\<rparr>) (init_dev e ?w2), True)"
    using assms(1,4,8-11) w1(1) by (simp add: main_setup_def init_dev_def Let_def dev_init_succeeds)
  then have "w' = w_set (\<lambda>app. app\<lparr>a_running := Some 1\<rparr>) (init_dev e ?w2)" "created" using assms(14) by auto
  then show ?thesis using w1 w2 ring assms(1,8-11)
    by (simp add: init_dev_def Let_def dev_init_succeeds keep)
qed

theorem setup_creates_objects_witness:
  "h_ep (fst (main_setup good_env default_opts empty_world)) 4096 = Some \<lparr>ep_state = 0\<rparr>
   \<and> w_fds (fst (main_setup good_env default_opts empty_world)) = [3]"
proof -
  obtain w' created where r: "main_setup good_env default_opts empty_world = (w', created)" by fastforce
  have "h_ep w' 4096 = Some \<lparr>ep_state = 0\<rparr> \<and> w_fds w' = e_open good_env # w_fds empty_world"
    using setup_creates_objects [OF _ _ _ _ _ _ _ _ _ _ _ _ _ r, of "\<lambda>_. 4096"] by (simp add: good_env_def default_opts_def)
  moreover have "e_open good_env = 3" "w_fds empty_world = []" by (simp_all add: good_env_def empty_world_def)
  ultimately show ?thesis by (simp add: r)
qed

section \<open>Clean-up\<close>

text \<open>
  The clean-up has no defined end, for more than one reason: with the pointers \<open>main\<close> leaves unset it
  uses the first one before anything is destroyed; and wherever it got past that, the monitor's destructor
  frees an address inside the monitor, the pool's waits for workers that sleep at the barrier, and
  the pubsub's destroys an event pair that is none.
\<close>

lemma app_cleanup_stops:
  "live (a_fh (w_app w)) (h_fh w) = None \<Longrightarrow> app_cleanup M ends fuel cancelled tend line_lock ps_lock w = None"
  "\<lbrakk>a_monitor (w_app w) = Addr m; \<not> me_freeable M (m + me_rwlock_at M)\<rbrakk> \<Longrightarrow> app_cleanup M ends fuel cancelled tend line_lock ps_lock w = None"
  "ps_lock = 0 \<Longrightarrow> app_cleanup M ends fuel cancelled tend line_lock ps_lock w = None"
  by (auto simp: app_cleanup_def monitor_destroy_undefined pubsub_destroy_def live_def [of "Addr m"] Let_def split: Option.bind_splits if_splits)

end
