(* ===== verification/Sensor_App.thy ===== *)
theory Sensor_App
  imports Monitor Pubsub Logger Decimal
begin

text \<open>
  \<open>1.c\<close>, the older application: its options, the set-up and removal of its IPC objects, the four
  tasks it hands to the thread pool, and the loop that reads the sysfs files.

  Descriptors are numbers, and \<open>os\<close> is what the operating system keeps for the program: open
  descriptors and message-queue descriptors, the POSIX names and the System V objects that exist.
  The results of system calls are inputs, and \<open>mq_send\<close>, \<open>msgsnd\<close> and \<open>msgrcv\<close> are parameters that act
  on a state of the kernel the model says nothing about.  The functions of the configuration and
  of the thread pool that \<open>1.c\<close> calls with arguments no function of the repository has are inputs too.
\<close>

section \<open>Options and signals\<close>

text \<open>The results of successive calls of \<open>getopt\<close>: the option and its argument; \<open>None\<close> is \<open>exit(1)\<close>.\<close>

record sensor_opts =
  so_num_reads :: int
  so_use_sysfs :: bool

fun parse_options :: "(char \<times> string) list \<Rightarrow> sensor_opts \<Rightarrow> sensor_opts option" where
  "parse_options [] opts = Some opts"
| "parse_options ((c, optarg) # rest) opts =
     (if c = CHR ''i'' then parse_options rest (opts\<lparr>so_num_reads := atoi optarg\<rparr>)
      else if c = CHR ''s'' then parse_options rest (opts\<lparr>so_use_sysfs := True\<rparr>)
      else None)"

definition sig_handler :: "int \<Rightarrow> bool \<Rightarrow> bool" where
  "sig_handler signo keep_running = (if signo = 2 \<or> signo = 15 then False else keep_running)"

section \<open>System objects\<close>

record os =
  os_fds :: "int set"
  os_mqds :: "int set"
  os_sem_open :: bool
  os_mapped :: bool
  os_names :: "string set"
  os_msgids :: "int set"
  os_shmids :: "int set"
  os_semids :: "int set"
  os_bad_closes :: "int list"

text \<open>\<open>close\<close>; a call with a number that is not an open descriptor is noted.\<close>

definition close_fd :: "int \<Rightarrow> os \<Rightarrow> os" where
  "close_fd fd s = (if fd \<in> os_fds s then s\<lparr>os_fds := os_fds s - {fd}\<rparr> else s\<lparr>os_bad_closes := fd # os_bad_closes s\<rparr>)"

definition close_mq :: "int \<Rightarrow> os \<Rightarrow> os" where
  "close_mq mqd s = s\<lparr>os_mqds := os_mqds s - {mqd}\<rparr>"

text \<open>\<open>ta_sem\<close> is \<open>False\<close> for \<open>SEM_FAILED\<close>.\<close>

record task_arg =
  ta_num_reads :: int
  ta_dev_fd :: int
  ta_nl_sock :: int
  ta_sysv_msgid :: int
  ta_mq :: int
  ta_sem :: bool

definition cleanup_handler :: "task_arg \<Rightarrow> os \<Rightarrow> os" where
  "cleanup_handler targ s =
     (let s = (if ta_dev_fd targ \<ge> 0 then close_fd (ta_dev_fd targ) s else s);
          s = (if ta_nl_sock targ \<ge> 0 then close_fd (ta_nl_sock targ) s else s);
          s = (if ta_mq targ \<noteq> - 1 then close_mq (ta_mq targ) s else s)
      in if ta_sem targ then s\<lparr>os_sem_open := False\<rparr> else s)"

section \<open>The tasks\<close>

datatype log_line = Produced bme680_fifo_data | Consumed bme680_fifo_data | SysvMessage bme680_fifo_data
  | PubSubData bme680_fifo_data | MqFailed | MsgsndFailed | NetlinkAlert

text \<open>
  The condition of the loops, \<open>keep_running && (num_reads == 0 || num_reads-- > 0)\<close>: whether
  the loop goes on, and the counter after the test.
\<close>

definition producer_test :: "bool \<Rightarrow> int \<Rightarrow> bool \<times> int" where
  "producer_test keep_running num_reads =
     (if \<not> keep_running then (False, num_reads)
      else if num_reads = 0 then (True, num_reads)
      else (num_reads > 0, wrap32 (num_reads - 1)))"

text \<open>How many rounds the loop makes for a list of values of \<open>keep_running\<close> seen by its tests.\<close>

fun producer_rounds :: "bool list \<Rightarrow> int \<Rightarrow> nat" where
  "producer_rounds [] n = 0"
| "producer_rounds (k # ks) n = (case producer_test k n of (go, n') \<Rightarrow> if go then Suc (producer_rounds ks n') else 0)"






text \<open>
  One round of the consumer: the record it logs, if any.  It tests the result of the read for being
  non-zero; \<open>raw\<close> is the content of the local variable the read was to fill.
\<close>

definition consumer_round :: "int \<Rightarrow> tid \<Rightarrow> bme680_fifo_data \<Rightarrow> bme680_monitor \<Rightarrow> bme680_monitor \<times> bme680_fifo_data option" where
  "consumer_round timedlock t raw m =
     (case monitor_read_ended timedlock t m of (m', r, d) \<Rightarrow>
        (m', if r \<noteq> 0 then Some (case d of None \<Rightarrow> raw | Some x \<Rightarrow> x) else None))"

text \<open>The receiving loop: it asks for a message of type 1 in every round and logs what it gets.\<close>

fun sysv_msg_task :: "(int \<Rightarrow> 'k \<Rightarrow> 'k \<times> bme680_fifo_data option) \<Rightarrow> bool list \<Rightarrow> 'k \<Rightarrow> 'k \<times> log_line list" where
  "sysv_msg_task msgrcv [] k = (k, [])"
| "sysv_msg_task msgrcv (keep # ks) k =
     (if \<not> keep then (k, [])
      else (case msgrcv 1 k of (k', got) \<Rightarrow> case sysv_msg_task msgrcv ks k' of (k'', lg) \<Rightarrow>
             (k'', (case got of None \<Rightarrow> [] | Some d \<Rightarrow> [SysvMessage d]) @ lg)))"

text \<open>
  The netlink listener: the results of \<open>socket\<close> and \<open>bind\<close>, and for every round the value of
  \<open>keep_running\<close> and the length received.  The clean-up handler runs only when the loop ends.
\<close>

fun netlink_loop :: "(bool \<times> int) list \<Rightarrow> log_line list" where
  "netlink_loop [] = []"
| "netlink_loop ((k, len) # rest) = (if \<not> k then [] else (if len > 0 then [NetlinkAlert] else []) @ netlink_loop rest)"

definition netlink_task :: "int \<Rightarrow> int \<Rightarrow> (bool \<times> int) list \<Rightarrow> task_arg \<Rightarrow> os \<Rightarrow> task_arg \<times> os \<times> log_line list" where
  "netlink_task sock bound rounds targ s =
     (let targ = targ\<lparr>ta_nl_sock := sock\<rparr> in
      if sock < 0 then (targ, s, [])
      else let s = s\<lparr>os_fds := insert sock (os_fds s)\<rparr> in
      if bound < 0 then (targ, close_fd sock s, [])
      else (targ, cleanup_handler targ s, netlink_loop rounds))"

section \<open>Set-up and removal of the IPC objects\<close>

record ipc_results =
  ir_open :: int
  ir_msgget :: int
  ir_mq_open :: int
  ir_sem_open :: bool
  ir_shm_open :: int
  ir_ftruncate :: int
  ir_mmap :: bool
  ir_shmget :: int
  ir_semget :: int

text \<open>The global variables, zero at the start; \<open>gl_mapped\<close> says whether \<open>shared_data\<close> is a mapping.\<close>

record globals =
  gl_shm_fd :: int
  gl_mapped :: bool
  gl_shmid :: int
  gl_semid :: int

definition globals_start :: globals where
  "globals_start = \<lparr>gl_shm_fd = 0, gl_mapped = False, gl_shmid = 0, gl_semid = 0\<rparr>"

abbreviation (input) SHM_NAME :: string where "SHM_NAME \<equiv> ''/bme680_shm''"
abbreviation (input) MQ_NAME :: string where "MQ_NAME \<equiv> ''/bme680_mq''"
abbreviation (input) SEM_NAME :: string where "SEM_NAME \<equiv> ''/bme680_sem''"

text \<open>The initialiser of \<open>targ\<close> makes four calls, whatever their results.\<close>

definition make_targ :: "ipc_results \<Rightarrow> int \<Rightarrow> os \<Rightarrow> task_arg \<times> os" where
  "make_targ r num_reads s =
     (let s = (if ir_open r \<ge> 0 then s\<lparr>os_fds := insert (ir_open r) (os_fds s)\<rparr> else s);
          s = (if ir_msgget r \<ge> 0 then s\<lparr>os_msgids := insert (ir_msgget r) (os_msgids s)\<rparr> else s);
          s = (if ir_mq_open r \<noteq> - 1 then s\<lparr>os_mqds := insert (ir_mq_open r) (os_mqds s), os_names := insert MQ_NAME (os_names s)\<rparr> else s);
          s = (if ir_sem_open r then s\<lparr>os_sem_open := True, os_names := insert SEM_NAME (os_names s)\<rparr> else s)
      in (\<lparr>ta_num_reads = num_reads, ta_dev_fd = ir_open r, ta_nl_sock = - 1, ta_sysv_msgid = ir_msgget r,
           ta_mq = ir_mq_open r, ta_sem = ir_sem_open r\<rparr>, s))"

text \<open>The rest of the set-up; the flag is \<open>False\<close> where \<open>main\<close> jumps to its clean-up.\<close>

definition init_ipc :: "ipc_results \<Rightarrow> int \<Rightarrow> os \<Rightarrow> task_arg \<times> globals \<times> os \<times> bool" where
  "init_ipc r num_reads s0 =
     (let (targ, s) = make_targ r num_reads s0; g = globals_start in
      if ta_dev_fd targ < 0 \<or> ta_sysv_msgid targ < 0 \<or> ta_mq targ = - 1 \<or> \<not> ta_sem targ then (targ, g, s, False)
      else let g = g\<lparr>gl_shm_fd := ir_shm_open r\<rparr>;
               s = (if ir_shm_open r \<ge> 0 then s\<lparr>os_fds := insert (ir_shm_open r) (os_fds s), os_names := insert SHM_NAME (os_names s)\<rparr> else s)
           in if ir_shm_open r < 0 \<or> ir_ftruncate r < 0 then (targ, g, s, False)
      else let g = g\<lparr>gl_mapped := ir_mmap r\<rparr>; s = s\<lparr>os_mapped := ir_mmap r\<rparr>
           in if \<not> ir_mmap r then (targ, g, s, False)
      else let g = g\<lparr>gl_shmid := ir_shmget r, gl_semid := ir_semget r\<rparr>;
               s = (if ir_shmget r \<ge> 0 then s\<lparr>os_shmids := insert (ir_shmget r) (os_shmids s)\<rparr> else s);
               s = (if ir_semget r \<ge> 0 then s\<lparr>os_semids := insert (ir_semget r) (os_semids s)\<rparr> else s)
           in (targ, g, s, \<not> (ir_shmget r < 0 \<or> ir_semget r < 0)))"

text \<open>The system calls after the label \<open>cleanup\<close>; removing an object that does not exist has no effect.\<close>

definition cleanup_ipc :: "task_arg \<Rightarrow> globals \<Rightarrow> os \<Rightarrow> os" where
  "cleanup_ipc targ g s =
     (let s = (if gl_mapped g then s\<lparr>os_mapped := False\<rparr> else s);
          s = s\<lparr>os_names := os_names s - {SHM_NAME}\<rparr>;
          s = close_fd (gl_shm_fd g) s;
          s = s\<lparr>os_shmids := os_shmids s - {gl_shmid g}\<rparr>;
          s = s\<lparr>os_semids := os_semids s - {gl_semid g}\<rparr>;
          s = s\<lparr>os_msgids := os_msgids s - {ta_sysv_msgid targ}\<rparr>
      in s\<lparr>os_names := os_names s - {MQ_NAME} - {SEM_NAME}\<rparr>)"

section \<open>The sysfs loop\<close>

text \<open>The descriptors four \<open>fopen\<close> calls return (\<open>None\<close>: NULL).\<close>

definition open_files :: "int option list \<Rightarrow> int set \<Rightarrow> int set" where
  "open_files fs fds = fold (\<lambda>f fds. case f of None \<Rightarrow> fds | Some d \<Rightarrow> insert d fds) fs fds"

definition close_files :: "int option list \<Rightarrow> int set \<Rightarrow> int set" where
  "close_files fs fds = fold (\<lambda>f fds. case f of None \<Rightarrow> fds | Some d \<Rightarrow> fds - {d}) fs fds"

fun sysfs_loop :: "(bool \<times> int option list) list \<Rightarrow> int \<Rightarrow> int set \<Rightarrow> int set \<times> nat" where
  "sysfs_loop [] n fds = (fds, 0)"
| "sysfs_loop ((k, files) # rest) n fds =
     (case producer_test k n of (go, n') \<Rightarrow>
        if \<not> go then (fds, 0)
        else let fds = open_files files fds in
             if None \<in> set files then (close_files files fds, 0)
             else (case sysfs_loop rest n' (close_files files fds) of (fds', rounds) \<Rightarrow> (fds', Suc rounds)))"

section \<open>main\<close>

text \<open>
  \<open>main\<close> with its exit status: \<open>config\<close> is the result of reading the configuration, \<open>tasks\<close> what the
  four tasks do to the system objects until the pool is shut down.  \<open>opened\<close>, \<open>fileno_ok\<close> and \<open>old\<close> are
  what \<open>logger_init\<close> gets from the system, \<open>logged\<close> the messages logged before the log is destroyed.
  \<open>sensor_end\<close>, the rest of the clean-up, is passed as \<open>at_end\<close>: it ends with the monitor, which is the static variable at address \<open>dm\<close>, the pubsub, whose
  lock gives \<open>pl\<close>, and the logger.  A status of \<open>None\<close> means that \<open>main\<close> does not return, because it
  waits for the logger or because one of these calls has no defined result.
\<close>

definition zero_logger :: logger where
  "zero_logger = \<lparr>log_file = None, log_level = 0, log_held = False\<rparr>"

definition sensor_end :: "memory \<Rightarrow> addr \<Rightarrow> bme680_monitor \<Rightarrow> int \<Rightarrow> pubsub \<Rightarrow> (int \<times> string) list \<Rightarrow> logger \<Rightarrow> int option" where
  "sensor_end M dm m pl ps logged lg =
     (case log_all logged lg of
        None \<Rightarrow> None
      | Some lg \<Rightarrow> (case bme680_monitor_destroy M [dm \<mapsto> m] dm of
          None \<Rightarrow> None
        | Some h \<Rightarrow> (case pubsub_destroy pl ps of
            None \<Rightarrow> None
          | Some ps \<Rightarrow> (case logger_destroy lg of None \<Rightarrow> None | Some lg \<Rightarrow> Some 0))))"

definition sensor_main ::
  "(char \<times> string) list \<Rightarrow> int \<Rightarrow> bool \<times> bool \<times> (int \<times> string) list \<Rightarrow> ipc_results \<Rightarrow> (bool \<times> int option list) list
     \<Rightarrow> (task_arg \<Rightarrow> os \<Rightarrow> os) \<Rightarrow> (logger \<Rightarrow> int option) \<Rightarrow> os \<Rightarrow> os \<times> int option" where
  "sensor_main args config log_env r files tasks at_end s =
     (case parse_options args \<lparr>so_num_reads = 0, so_use_sysfs = False\<rparr> of
        None \<Rightarrow> (s, Some 1)
      | Some opts \<Rightarrow>
          if config < 0 then (s, Some 1)
          else (case log_env of (opened, fileno_ok, old) \<Rightarrow> case fst (logger_init opened fileno_ok old zero_logger) of
            None \<Rightarrow> (s, None)
          | Some lg \<Rightarrow> (case init_ipc r (so_num_reads opts) s of (targ, g, s1, ok) \<Rightarrow>
            let s2 = (if ok
                      then let s' = (if so_use_sysfs opts then s1\<lparr>os_fds := fst (sysfs_loop files (so_num_reads opts) (os_fds s1))\<rparr> else s1)
                           in tasks targ s'
                      else s1)
            in (cleanup_ipc targ g s2, at_end lg))))"

section \<open>Properties of the tasks\<close>


text \<open>
  C36: the number of reads is no limit.  For every non-negative number of reads the producer's
  loop goes on as long as \<open>keep_running\<close> holds: after counting down to zero the test
  \<open>num_reads == 0\<close>, meant for an unlimited run, is true for ever.
\<close>

theorem producer_never_stops:
  assumes "0 \<le> n" "n \<le> INT_MAX"
  shows "producer_rounds (replicate k True) n = k"
  using assms by (induction k arbitrary: n) (auto simp: producer_test_def)

theorem producer_never_stops_witness: "producer_rounds (replicate 1000 True) 3 = 1000"
  by (rule producer_never_stops) simp_all




text \<open>The consumer logs a record exactly when the read failed, and then not one from the monitor.\<close>

lemma consumer_logs_failures:
  assumes "consumer_round tlk t raw m = (m', out)" "monitor_read_ended tlk t m = (m', r, d)"
  shows "out \<noteq> None \<longleftrightarrow> r \<noteq> 0"
  using assms by (auto simp: consumer_round_def)

text \<open>The message task logs at most one message per round.\<close>

lemma sysv_msg_task_log:
  "length (snd (sysv_msg_task msgrcv ks k)) \<le> length ks"
  by (induction msgrcv ks k rule: sysv_msg_task.induct) (auto split: prod.splits option.splits)

section \<open>Properties of set-up and clean-up\<close>

lemma make_targ_arg: "ta_dev_fd (fst (make_targ r n s)) = ir_open r" "ta_sysv_msgid (fst (make_targ r n s)) = ir_msgget r"
  "ta_mq (fst (make_targ r n s)) = ir_mq_open r" "ta_sem (fst (make_targ r n s)) = ir_sem_open r"
  by (simp_all add: make_targ_def Let_def)

lemma make_targ_os: "os_fds (snd (make_targ r n s)) = (if 0 \<le> ir_open r then insert (ir_open r) (os_fds s) else os_fds s)"
  "os_msgids (snd (make_targ r n s)) = (if 0 \<le> ir_msgget r then insert (ir_msgget r) (os_msgids s) else os_msgids s)"
  "os_names (snd (make_targ r n s)) = os_names s \<union> (if ir_mq_open r \<noteq> - 1 then {MQ_NAME} else {}) \<union> (if ir_sem_open r then {SEM_NAME} else {})"
  "os_shmids (snd (make_targ r n s)) = os_shmids s" "os_semids (snd (make_targ r n s)) = os_semids s" "os_mapped (snd (make_targ r n s)) = os_mapped s"
  by (auto simp: make_targ_def Let_def)

lemma cleanup_os: "os_names (cleanup_ipc targ g s) = os_names s - {SHM_NAME, MQ_NAME, SEM_NAME}"
  "os_fds (cleanup_ipc targ g s) = os_fds s - {gl_shm_fd g}" "os_msgids (cleanup_ipc targ g s) = os_msgids s - {ta_sysv_msgid targ}"
  "os_shmids (cleanup_ipc targ g s) = os_shmids s - {gl_shmid g}" "os_semids (cleanup_ipc targ g s) = os_semids s - {gl_semid g}"
  "os_mapped (cleanup_ipc targ g s) \<longleftrightarrow> os_mapped s \<and> \<not> gl_mapped g"
  by (auto simp: cleanup_ipc_def close_fd_def Let_def)

text \<open>The set-up creates only objects that its result names.\<close>

lemma init_ipc_creates:
  assumes "init_ipc r n s0 = (targ, g, s1, ok)" "\<not> os_mapped s0"
  shows "os_names s1 \<subseteq> os_names s0 \<union> {SHM_NAME, MQ_NAME, SEM_NAME}" "os_msgids s1 \<subseteq> insert (ta_sysv_msgid targ) (os_msgids s0)"
    "os_shmids s1 \<subseteq> insert (gl_shmid g) (os_shmids s0)" "os_semids s1 \<subseteq> insert (gl_semid g) (os_semids s0)"
    "os_fds s1 \<subseteq> insert (ir_open r) (insert (gl_shm_fd g) (os_fds s0))" "os_mapped s1 \<longrightarrow> gl_mapped g"
  using assms
  by (auto simp: init_ipc_def case_prod_beta make_targ_arg make_targ_os globals_start_def Let_def split: if_splits)

lemma init_ipc_early:
  "ir_open r < 0 \<Longrightarrow> init_ipc r n s = (fst (make_targ r n s), globals_start, snd (make_targ r n s), False)"
  by (simp add: init_ipc_def case_prod_beta make_targ_arg)

text \<open>
  C32: no IPC object outlives the program.  Whatever subset of the calls of the set-up fails, after
  the clean-up none of the three POSIX names exists, no System V queue, segment or semaphore set
  is left that was not there before, the mapping is gone and the shared-memory descriptor closed.
\<close>

theorem ipc_objects_removed:
  assumes "init_ipc r n s0 = (targ, g, s1, ok)" "\<not> os_mapped s0"
  shows "{SHM_NAME, MQ_NAME, SEM_NAME} \<inter> os_names (cleanup_ipc targ g s1) = {} \<and> os_names (cleanup_ipc targ g s1) \<subseteq> os_names s0
    \<and> os_msgids (cleanup_ipc targ g s1) \<subseteq> os_msgids s0 \<and> os_shmids (cleanup_ipc targ g s1) \<subseteq> os_shmids s0
    \<and> os_semids (cleanup_ipc targ g s1) \<subseteq> os_semids s0 \<and> \<not> os_mapped (cleanup_ipc targ g s1)
    \<and> os_fds (cleanup_ipc targ g s1) \<subseteq> insert (ir_open r) (os_fds s0)"
  using init_ipc_creates [OF assms] by (auto simp: cleanup_os)

definition all_fine :: ipc_results where
  "all_fine = \<lparr>ir_open = 3, ir_msgget = 7, ir_mq_open = 4, ir_sem_open = True, ir_shm_open = 5, ir_ftruncate = 0, ir_mmap = True,
     ir_shmget = 8, ir_semget = 9\<rparr>"

definition fresh_os :: os where
  "fresh_os = \<lparr>os_fds = {0, 1, 2}, os_mqds = {}, os_sem_open = False, os_mapped = False, os_names = {}, os_msgids = {}, os_shmids = {0},
     os_semids = {0}, os_bad_closes = []\<rparr>"

theorem ipc_objects_removed_witness:
  "\<exists>targ g s1. init_ipc all_fine 0 fresh_os = (targ, g, s1, True) \<and> os_names s1 \<noteq> {} \<and> os_names (cleanup_ipc targ g s1) = {}"
proof -
  obtain targ g s1 ok where i: "init_ipc all_fine 0 fresh_os = (targ, g, s1, ok)" by (metis prod_cases4)
  then have "ok" "os_names s1 \<noteq> {}" by (auto simp: init_ipc_def make_targ_def all_fine_def fresh_os_def globals_start_def Let_def)
  moreover from ipc_objects_removed [OF i] have "os_names (cleanup_ipc targ g s1) = {}" by (auto simp: all_fine_def fresh_os_def)
  ultimately show ?thesis using i by auto
qed

text \<open>
  A failed start hits objects of others.  When the device cannot be opened the global variables
  still hold zero when the clean-up runs, so the program closes descriptor 0, its standard input,
  and removes the System V shared-memory segment and the semaphore set with identifier 0, whoever
  created them.  After that it has no defined end: the monitor it destroys next is a static variable,
  which no allocation returned.
\<close>

theorem failed_start_removes_id_zero:
  assumes "ir_open r < 0" "0 \<le> config" "fileno_ok" "parse_options args \<lparr>so_num_reads = 0, so_use_sysfs = False\<rparr> \<noteq> None" "\<not> me_freeable M dm"
  shows "case sensor_main args config (opened, fileno_ok, old) r files tasks (sensor_end M dm m pl ps logged) s of (s', status) \<Rightarrow>
    status = None \<and> os_fds s' = os_fds s - {0} \<and> os_shmids s' = os_shmids s - {0} \<and> os_semids s' = os_semids s - {0}"
proof -
  obtain opts where o: "parse_options args \<lparr>so_num_reads = 0, so_use_sysfs = False\<rparr> = Some opts" using assms(4) by blast
  have "fst (logger_init opened fileno_ok old zero_logger) \<noteq> None"
    using assms(3) by (cases opened) (simp_all add: logger_init_def zero_logger_def logger_log_def log_lock_def log_unlock_def Let_def)
  then obtain lg where lg: "fst (logger_init opened fileno_ok old zero_logger) = Some lg" by blast
  have "sensor_end M dm m pl ps logged lg = None"
    using monitor_destroy_undefined(2) [OF assms(5)] by (simp add: sensor_end_def split: option.split)
  then show ?thesis using assms(1,2) o lg
    by (simp add: sensor_main_def init_ipc_early cleanup_os make_targ_os globals_start_def)
qed

theorem failed_start_removes_id_zero_witness:
  "os_fds (fst (sensor_main [(CHR ''s'', [])] 0 (True, True, []) (all_fine\<lparr>ir_open := - 1\<rparr>) [] (\<lambda>_ s. s)
     (sensor_end \<lparr>me_freeable = (\<lambda>_. False), me_rwlock_at = 40, me_dd = 0\<rparr> 4096 mon_empty2 0 pubsub_init []) fresh_os)) = {1, 2}"
  using failed_start_removes_id_zero [where r = "all_fine\<lparr>ir_open := - 1\<rparr>" and config = 0 and fileno_ok = True and args = "[(CHR ''s'', [])]"
      and M = "\<lparr>me_freeable = (\<lambda>_. False), me_rwlock_at = 40, me_dd = 0\<rparr>" and dm = 4096 and opened = True and old = "[]" and files = "[]"
      and tasks = "\<lambda>_ s. s" and m = mon_empty2 and pl = 0 and ps = pubsub_init and logged = "[]" and s = fresh_os]
  by (auto simp: all_fine_def fresh_os_def split: prod.splits)

text \<open>
  Both the producer and the netlink listener run the clean-up handler with the same argument: the
  second one closes descriptors that are no longer the program's.
\<close>

lemma cleanup_twice:
  assumes "0 \<le> ta_dev_fd targ" "ta_dev_fd targ \<in> os_fds s"
  shows "os_bad_closes (cleanup_handler targ (cleanup_handler targ s)) \<noteq> os_bad_closes s"
  using assms by (auto simp: cleanup_handler_def close_fd_def close_mq_def Let_def)

text \<open>A failed bind closes the socket; only the end of the loop runs the handler.\<close>

lemma netlink_task_socket:
  assumes "netlink_task sock bound rounds targ s = (targ', s', lg)" "sock \<notin> os_fds s"
  shows "sock \<notin> os_fds s'"
  using assms by (auto simp: netlink_task_def cleanup_handler_def close_fd_def close_mq_def Let_def split: if_splits)

subsection \<open>The sysfs loop\<close>

definition fresh_files :: "int option list \<Rightarrow> int set \<Rightarrow> bool" where
  "fresh_files files fds \<longleftrightarrow> (\<forall>d. Some d \<in> set files \<longrightarrow> d \<notin> fds)"

lemma open_files_eq: "open_files fs fds = fds \<union> {d. Some d \<in> set fs}"
  unfolding open_files_def by (induction fs arbitrary: fds) (auto split: option.splits)

lemma close_files_eq: "close_files fs fds = fds - {d. Some d \<in> set fs}"
  unfolding close_files_def by (induction fs arbitrary: fds) (auto split: option.splits)

lemma close_open_files: "fresh_files fs fds \<Longrightarrow> close_files fs (open_files fs fds) = fds"
  by (auto simp: open_files_eq close_files_eq fresh_files_def)

text \<open>
  The sysfs loop leaks no descriptor.  For every number of rounds and whichever of the four files
  cannot be opened in the last one, the descriptors open after the loop are those open before it.
\<close>

theorem sysfs_loop_no_leak:
  assumes "list_all (\<lambda>(k, files). fresh_files files fds) rounds"
  shows "fst (sysfs_loop rounds n fds) = fds"
  using assms
proof (induction rounds arbitrary: n)
  case (Cons x rounds)
  obtain k files where x: "x = (k, files)" by fastforce
  with Cons show ?case by (simp add: close_open_files Let_def case_prod_beta)
qed simp

theorem sysfs_loop_no_leak_witness:
  "fst (sysfs_loop [(True, [Some 3, Some 4, Some 5, Some 6]), (True, [Some 3, None, Some 4, Some 5])] 0 {0, 1, 2}) = {0, 1, 2}"
  by (rule sysfs_loop_no_leak) (simp add: fresh_files_def)

text \<open>Options: a printed number of reads is read back, the flag is kept, anything else ends the program.\<close>

lemma parse_options_reads:
  "parse_options [(CHR ''i'', show_int n), (CHR ''s'', x)] opts = Some (opts\<lparr>so_num_reads := n, so_use_sysfs := True\<rparr>)"
  "c \<notin> {CHR ''i'', CHR ''s''} \<Longrightarrow> parse_options ((c, x) # rest) opts = None"
  by simp_all

end
