(* ===== verification/Spec2Isabelle.thy ===== *)
theory Spec2Isabelle
  imports Fifo_Semaphore Recursive_Mutex Pubsub Logger Ipc_Sync Fork_Handler
    Bme680_Config Bme680_Header Bme680_Channels Register_Bus Bme680_Ipc App_Main Sensor_App
begin

text \<open>
  Verification of the BME680 environmental-sensor project: a Linux driver for the Bosch BME680
  and a user-space application built from thread-synchronisation components.  All sources are
  under \<open>src/BME680-kernel-module-thread-design-Advance\<close>; the file names below are relative to it.

  \<^bold>\<open>The program.\<close>  The kernel side is \<open>bme680.c\<close> (the IIO core: calibration, measurement,
  compensation, configuration, probe), two bus drivers (\<open>bme680_spi.c\<close>, \<open>bme680_i2c.c\<close>) that are to
  give the core a register map, and \<open>bme680_ipc.c\<close> (alerts and threshold checks).  The user side is
  \<open>bme680_app.c\<close> (and an older \<open>1.c\<close>): a timer (\<open>timer.c\<close>) periodically runs the sensor reader,
  which takes a semaphore (\<open>fifo_semaphore.c\<close>) and writes into the monitor (\<open>monitor.c\<close>, a bounded
  buffer that uses \<open>rwlock.c\<close> and \<open>deadlock_detector.c\<close>); the event loop reads the monitor, passes the
  record through the assembly line (\<open>assembly_line.c\<close>, which uses \<open>barrier.c\<close> and
  \<open>dining_philosophers.c\<close>) and enqueues a task on the thread pool (\<open>thread_pool.c\<close>, which uses
  \<open>barrier.c\<close> and \<open>event_pair.c\<close>); results are published (\<open>pubsub.c\<close>), logged (\<open>logger.c\<close>) and shared
  between processes (\<open>ipc_sync.c\<close>).  \<open>recursive_mutex.c\<close>, \<open>fork_handler.c\<close> and \<open>bme680_config.c\<close> are
  further services of the application.  \<open>bme680.h\<close> fixes registers, masks, records and control codes
  that both sides share.

  \<^bold>\<open>How code is modelled.\<close>  A C struct is a record, an operation a function from the struct to the
  updated struct and its result, with every error return a branch.  Code between a mutex lock and
  its unlock, or a condition wait, is one function (a section), because no other user of the mutex
  runs in between; its outcome says whether it returned or went to sleep.  \<open>_woken\<close> functions are
  what a thread does when its condition wait returns.  Results of library and system calls
  (\<open>malloc\<close>, \<open>pthread_create\<close>, timed locks, SPI, I2C, netlink) are arguments.  Kernel code that the
  sources only call (the regmap layer, \<open>FIELD_PREP\<close> and \<open>FIELD_GET\<close>, SPI transfers, \<open>kstrtoint\<close>, the
  message queues) and names the sources never define (several register masks, \<open>lookup_k\<close>,
  \<open>rwlock_timedwrlock\<close>) are parameters; where a property needs them to behave as documented, that is a
  hypothesis (\<open>plain_regmap\<close>, \<open>field_ok\<close>, \<open>spi_chip\<close>, \<open>kstrtoint_ok\<close>, \<open>malloc_ok\<close>), and its witness
  instantiates them with a concrete register file, field functions, chip, parser or allocator.
  A value of \<open>None\<close> where the code has a result means that C gives none: the code divides by zero,
  follows a dead pointer, frees what was not allocated, uses an event pair where there is none, or
  waits for a mutex its own thread holds.  No model repairs such a step; what the code did before
  it is kept in the result where a property speaks of it (\<open>pubsub_publish\<close>, \<open>producer_task\<close>).
  Log calls inside the other components are left out; what a log call does is modelled in \<open>Logger\<close>.

  \<^bold>\<open>Integers.\<close>  Registers and unsigned fields are machine words.  The signed counters and the
  compensation arithmetic are integers reduced to their C width (\<open>wrap16\<close>, \<open>wrap32\<close>, \<open>wrap64\<close>,
  \<open>uwrap32\<close>) where the code's value would be.

  \<^bold>\<open>Theories.\<close>
  \<^item> \<open>Prelude\<close>: C integers, error numbers, sections, call sequences with error returns, counting
    of threads.
  \<^item> \<open>Thread_System\<close>: any set of threads sharing one object.  A component is given by its sections;
    threads call, sleep and wake in every order, with every wait result (signals, spurious
    wake-ups, timeouts, errors).  The locale \<open>thread_invariant\<close> is the contract of an invariant:
    it holds at the start and every section keeps it; then it holds in every reachable state.
    It is interpreted for the semaphore, the read-write lock, the monitor, the recursive
    mutex and the event pair.
  \<^item> \<open>Decimal\<close>: the decimal numbers of the command lines and sysfs files; printing and \<open>atoi\<close> are inverse.
  \<^item> \<open>Fifo_Queue\<close>: the locale \<open>fifo_queue\<close>, the contract of a queue with guards, and its consequence
    for every sequence of operations; interpreted for the ring buffer of the monitor and for the
    linked task list of the thread pool.
  \<^item> \<open>Fifo_Semaphore\<close> (\<open>fifo_semaphore.c\<close>): counter plus holders is constant; mutual exclusion with
    initial value 1; not first-come first-served.
  \<^item> \<open>Rwlock\<close> (\<open>rwlock.c\<close>): writers exclude everyone; the four counters count holders and sleepers
    exactly; a wake-up can be lost after a writer's timeout.
  \<^item> \<open>Deadlock_Detector\<close> (\<open>deadlock_detector.c\<close>): in a cyclic wait at least one request is refused; lock and
    unlock are inverse; a lock held by another thread is overwritten.
  \<^item> \<open>Sensor_Data\<close>: the measurement record and its plausibility check.
  \<^item> \<open>Monitor\<close> (\<open>monitor.c\<close>): a first-in first-out channel for any readers and writers; refinement of
    a bounded queue; the calls to their return with the timeout paths (\<open>monitor_write_ended\<close>,
    \<open>monitor_read_ended\<close>).  Its detector is reached through a pointer nobody sets; the statements hold
    for every table that pointer happens to refer to.  Destroying a monitor has no defined end.
  \<^item> \<open>Dining_Philosophers\<close> (\<open>dining_philosophers.c\<close>): no deadlock for two or more philosophers, no
    two neighbours eat together, one philosopher blocks itself.
  \<^item> \<open>Recursive_Mutex\<close> (\<open>recursive_mutex.c\<close>): one holder, the counter is its nesting depth.
  \<^item> \<open>Event_Pair\<close> (\<open>event_pair.c\<close>): no wait without a signal; the waits of the thread pool are never
    answered.
  \<^item> \<open>Barrier\<close> (\<open>barrier.c\<close>): an exact account of who passes, with the spurious wake-ups counted, so that
    nobody passes before a full group arrived except by one of them; starvation with too few users.
  \<^item> \<open>Thread_Pool\<close> (\<open>thread_pool.c\<close>): the task list in an explicit heap is a queue; the workers as
    an executable transition system: exclusive hand-over without timeouts, double hand-over
    after one, and a bound on the tasks that run: because of the size of the barrier none does without a
    spurious wake-up.  The loop that frees the queue has fuel; fuel for the length of the list is
    proved to be enough.
  \<^item> \<open>Logger\<close>, \<open>Pubsub\<close>, \<open>Timer\<close>, \<open>Ipc_Sync\<close>, \<open>Bme680_Config\<close>, \<open>Assembly_Line\<close>, \<open>Fork_Handler\<close>
    (the files of the same names): the filter and the self-deadlock of the logger, the one
    callback a publication makes, exact deadlines, the shared record and the clean-up of its resources, settings,
    the stages' unprotected updates, the paths of the fork.  The clean-up handlers that run when a
    thread is cancelled are part of \<open>Timer\<close>, \<open>Assembly_Line\<close>, \<open>Event_Pair\<close>, \<open>Thread_Pool\<close> and \<open>Fork_Handler\<close>:
    a line can only be destroyed if none of its stages acts on the cancellation it is sent.
  \<^item> \<open>Bme680_Header\<close> (\<open>bme680.h\<close>): enumerations, register addresses, masks, struct layouts computed by the
    C rules, control codes; the control codes are distinct.
  \<^item> \<open>Compensation\<close> (\<open>bme680.c\<close>): both sets of formulas at their C widths; the temperature formula
    is exact on every 20-bit reading, the pressure formula does not divide by zero in the operating
    range, the humidity is capped; what the second set really computes.
  \<^item> \<open>Bme680_Core\<close> (\<open>bme680.c\<close>): the driver over an arbitrary register map.  The polling loop is
    structurally recursive on the number of tries left (10).
  \<^item> \<open>Bme680_Channels\<close> (\<open>bme680.c\<close>): the channel table the driver registers and what reading each entry
    gives, the heater-current attribute as text.
  \<^item> \<open>Bme680_Spi\<close>, \<open>Bme680_I2c\<close>, \<open>Bme680_Ipc\<close>: paged register access behaves like a register
    file on storage registers, and goes wrong after a write to the status register; the drivers' tables, entry points and power management, the mutexes each entry point leaves held;
    the I2C driver locks itself out; messages, retries and the threshold timer.
  \<^item> \<open>Register_Bus\<close>: the contract between the core and its transports.  The locale \<open>register_bus\<close> says
    what single register reads and writes of a transport promise, \<open>register_map\<close> what the core
    relies on; \<open>regmap_on_bus\<close> builds the second from the first.  They are interpreted for the SPI
    protocol with its pages and for a plain table: every sequence of accesses to storage registers over
    SPI refines the register table, and the core's configuration and mode calls do over SPI what they do
    on the table.  The I2C driver connects no accessors to its map and is no transport.
  \<^item> \<open>App\<close> (\<open>bme680_app.c\<close>): command line, device set-up, the sensor reader, both event loops, the task and
    the self-test composed from the component models; the invariant of the whole application, a
    measurement on its way from the bus to the pool, and why raw readings are refused.
  \<^item> \<open>App_Main\<close> (\<open>bme680_app.c\<close>): \<open>main\<close> and \<open>app_cleanup\<close> over the struct of pointers and the heap of
    objects: what the set-up makes, which pointers it never sets, where the clean-up stops, and that
    \<open>main\<close> stops in the logger.
  \<^item> \<open>Sensor_App\<close> (\<open>1.c\<close>): options, the four tasks, the descriptors and system objects, \<open>main\<close> with its
    clean-up; the producer does not get past its first record.
  \<^item> This theory: the property that spans the initialisers of six components.

  \<^bold>\<open>Bounds and fuel.\<close>  \<open>free_tasks\<close> takes fuel; the length of the task list is proved to be enough.  The
  thread systems and call sequences (\<open>reaches\<close>, \<open>pool_run\<close>, \<open>app_run\<close>, \<open>bus_run\<close>) are unbounded; the rounds
  of endless loops are lists of the inputs each round gets.

  \<^bold>\<open>Not modelled.\<close>  CPU affinity, the absolute clock values of timed waits (a timeout may happen at any
  time instead), the formatting of log lines and messages, memory below the level of objects, the
  probe functions' device-tree lookups, the Makefile and the device tree.  \<open>main\<close> is sequential: what the
  other threads do until they are joined is an argument.  A cancelled thread is modelled where its
  handler changes an object, not as a scheduling rule.
\<close>

section \<open>Initialisers that assign to their own parameter\<close>

text \<open>
  Six initialisers report success and leave the caller's object as it was.
  \<open>rwlock_init\<close>, \<open>recursive_mutex_init\<close>, \<open>fifo_semaphore_init\<close>, \<open>deadlock_detector_init\<close>, \<open>timer_init\<close>
  and \<open>fork_handler_init\<close> take a pointer, store the address of a fresh allocation in that parameter
  and initialise the fresh object.  Whenever the allocations succeed, each returns 0, the object at
  the caller's address is unchanged, and the initialised object is at an address the caller never
  learns.
\<close>

theorem initialisers_keep_caller_object:
  assumes "a \<noteq> p" "0 \<le> v"
  shows "rwlock_init (Some a) h1 p = (h1(a \<mapsto> rwlock_new), 0) \<and> fst (rwlock_init (Some a) h1 p) p = h1 p
    \<and> recursive_mutex_init (Some a) h2 p = (h2(a \<mapsto> recursive_mutex_new), 0) \<and> fst (recursive_mutex_init (Some a) h2 p) p = h2 p
    \<and> fifo_semaphore_init (Some a) h3 p v = (h3(a \<mapsto> \<lparr>sem_count = v\<rparr>), 0) \<and> fst (fifo_semaphore_init (Some a) h3 p v) p = h3 p
    \<and> deadlock_detector_init (Some a) True h4 p n = (h4(a \<mapsto> deadlock_detector_new n), 0)
    \<and> fst (deadlock_detector_init (Some a) True h4 p n) p = h4 p
    \<and> snd (timer_init (Some a) 0 h5 i cb arg) = 0 \<and> fst (timer_init (Some a) 0 h5 i cb arg) p = h5 p
    \<and> snd (fork_handler_init (Some a) True (\<lambda>_. 0) ids h6 n) = 0 \<and> fst (fork_handler_init (Some a) True (\<lambda>_. 0) ids h6 n) p = h6 p"
  using assms
  by (simp add: rwlock_init_def recursive_mutex_init_def fifo_semaphore_init_def deadlock_detector_init_def timer_init_def
      fork_handler_init_def alloc_local_def list_ex_iff)

theorem initialisers_keep_caller_object_witness:
  "fifo_semaphore_init (Some 7) Map.empty 3 1 = ([7 \<mapsto> \<lparr>sem_count = 1\<rparr>], 0) \<and> fst (rwlock_init (Some 7) Map.empty 3) 3 = None"
  using initialisers_keep_caller_object [of 7 3 1 Map.empty Map.empty Map.empty Map.empty 0 Map.empty 0 0 0 "\<lambda>_. 0" Map.empty] by simp

end
